(* ===== verification/Prelude.thy ===== *)
theory Prelude
  imports Main "HOL-Library.Sublist" "HOL-Library.Product_Lexorder"
    "HOL-Library.List_Lexorder" "HOL-Library.Char_ord" "HOL-Library.Multiset"
begin

text \<open>
  What every component of the development shares: the lemma collections, results of fallible
  operations as sums, the functions of Go's \<^verbatim>\<open>strings\<close> and \<^verbatim>\<open>strconv\<close> packages that tvr calls,
  stable sorting by a comparison function, and association lists for Go maps whose order matters.

  A Go string is a list of bytes, here a \<^typ>\<open>string\<close> (a \<^typ>\<open>char\<close> is one byte).
  \<open>trim_space\<close> knows all 25 Unicode white-space runes in their UTF-8 form.  \<open>to_lower\<close> maps the
  ASCII letters and keeps every other byte: it is \<^verbatim>\<open>strings.ToLower\<close> on strings whose runes outside
  ASCII have no case (the Unicode case tables are not modelled; where the order of runes
  matters, in \<^verbatim>\<open>internal/utils/natsort.go\<close>, the case mapping is a parameter instead).
\<close>

named_theorems gostr "facts about the modelled functions of Go's strings package"
named_theorems result_simps "inversion of results"

section \<open>Results of fallible operations\<close>

definition bindE :: "'err + 'v \<Rightarrow> ('v \<Rightarrow> 'err + 'w) \<Rightarrow> 'err + 'w" where
  "bindE r next_step = case_sum Inl next_step r"

lemma bindE_Inl [simp]: "bindE (Inl e) f = Inl e"
  by (simp add: bindE_def)

lemma bindE_Inr [simp]: "bindE (Inr x) f = f x"
  by (simp add: bindE_def)

lemma bindE_eq_Inr [result_simps]: "bindE r f = Inr y \<longleftrightarrow> (\<exists>x. r = Inr x \<and> f x = Inr y)"
  by (cases r) auto

lemma bindE_eq_Inl [result_simps]:
  "bindE r f = Inl e \<longleftrightarrow> r = Inl e \<or> (\<exists>x. r = Inr x \<and> f x = Inl e)"
  by (cases r) auto

section \<open>Go's strings package\<close>

abbreviation has_prefix :: "string \<Rightarrow> string \<Rightarrow> bool" where
  "has_prefix s p \<equiv> prefix p s"

abbreviation has_suffix :: "string \<Rightarrow> string \<Rightarrow> bool" where
  "has_suffix s p \<equiv> suffix p s"

abbreviation contains_str :: "string \<Rightarrow> string \<Rightarrow> bool" where
  "contains_str s sub \<equiv> sublist sub s"

text \<open>The UTF-8 forms of the runes for which \<^verbatim>\<open>unicode.IsSpace\<close> holds.\<close>

definition space_runes :: "string list" where
  "space_runes =
     [[CHR '' ''], [CHR 0x09], [CHR 0x0A], [CHR 0x0B], [CHR 0x0C], [CHR 0x0D],
      [CHR 0xC2, CHR 0x85], [CHR 0xC2, CHR 0xA0], [CHR 0xE1, CHR 0x9A, CHR 0x80],
      [CHR 0xE2, CHR 0x80, CHR 0x80], [CHR 0xE2, CHR 0x80, CHR 0x81],
      [CHR 0xE2, CHR 0x80, CHR 0x82], [CHR 0xE2, CHR 0x80, CHR 0x83],
      [CHR 0xE2, CHR 0x80, CHR 0x84], [CHR 0xE2, CHR 0x80, CHR 0x85],
      [CHR 0xE2, CHR 0x80, CHR 0x86], [CHR 0xE2, CHR 0x80, CHR 0x87],
      [CHR 0xE2, CHR 0x80, CHR 0x88], [CHR 0xE2, CHR 0x80, CHR 0x89],
      [CHR 0xE2, CHR 0x80, CHR 0x8A], [CHR 0xE2, CHR 0x80, CHR 0xA8],
      [CHR 0xE2, CHR 0x80, CHR 0xA9], [CHR 0xE2, CHR 0x80, CHR 0xAF],
      [CHR 0xE2, CHR 0x81, CHR 0x9F], [CHR 0xE3, CHR 0x80, CHR 0x80]]"

fun strip_runes :: "string list \<Rightarrow> string \<Rightarrow> string" where
  "strip_runes ws [] = []"
| "strip_runes ws (c # cs) =
     (case find (\<lambda>w. w \<noteq> [] \<and> prefix w (c # cs)) ws of
        None \<Rightarrow> c # cs
      | Some w \<Rightarrow> strip_runes ws (drop (length w - 1) cs))"

definition trim_left :: "string \<Rightarrow> string" where
  "trim_left s = strip_runes space_runes s"

definition trim_right :: "string \<Rightarrow> string" where
  "trim_right s = rev (strip_runes (map rev space_runes) (rev s))"

definition trim_space :: "string \<Rightarrow> string" where
  "trim_space s = trim_right (trim_left s)"

abbreviation blank :: "string \<Rightarrow> bool" where
  "blank s \<equiv> trim_space s = []"

lemma strip_runes_suffix: "suffix (strip_runes ws s) s"
proof (induction ws s rule: strip_runes.induct)
  case (2 ws c cs)
  show ?case
  proof (cases "find (\<lambda>w. w \<noteq> [] \<and> prefix w (c # cs)) ws")
    case (Some w)
    then have "suffix (strip_runes ws (drop (length w - 1) cs)) (drop (length w - 1) cs)"
      by (rule 2)
    also have "suffix (drop (length w - 1) cs) cs" by (rule suffix_drop)
    finally show ?thesis using Some by (simp add: suffix_Cons)
  qed simp
qed simp

lemma strip_runes_stuck: "w \<in> set ws \<Longrightarrow> w \<noteq> [] \<Longrightarrow> \<not> prefix w (strip_runes ws s)"
  by (induction ws s rule: strip_runes.induct)
     (auto simp: find_None_iff split: option.splits)

lemma strip_runes_fixed: "(\<And>w. w \<in> set ws \<Longrightarrow> w \<noteq> [] \<Longrightarrow> \<not> prefix w s) \<Longrightarrow> strip_runes ws s = s"
  by (cases s) (auto simp: find_None_iff find_Some_iff split: option.splits)

lemma strip_runes_idem: "strip_runes ws (strip_runes ws s) = strip_runes ws s"
  by (rule strip_runes_fixed) (rule strip_runes_stuck)

lemma trim_left_Nil [simp]: "trim_left [] = []"
  by (simp add: trim_left_def)

lemma trim_right_Nil [simp]: "trim_right [] = []"
  by (simp add: trim_right_def)

lemma trim_space_Nil [simp]: "trim_space [] = []"
  by (simp add: trim_space_def)

lemma trim_right_prefix: "prefix (trim_right s) s"
  using strip_runes_suffix [of "map rev space_runes" "rev s"]
  by (simp add: trim_right_def suffix_to_prefix)

lemma trim_right_idem: "trim_right (trim_right s) = trim_right s"
  by (simp add: trim_right_def strip_runes_idem)

lemma trim_left_trim_right: "trim_left s = s \<Longrightarrow> trim_left (trim_right s) = trim_right s"
  unfolding trim_left_def
proof (rule strip_runes_fixed)
  fix w
  assume s: "strip_runes space_runes s = s" and w: "w \<in> set space_runes" "w \<noteq> []"
  from strip_runes_stuck [OF w, of s] s have "\<not> prefix w s" by simp
  with trim_right_prefix [of s] show "\<not> prefix w (trim_right s)"
    by (metis prefix_order.trans)
qed

lemma trim_space_idem [simp, gostr]: "trim_space (trim_space s) = trim_space s"
proof -
  have "trim_left (trim_left s) = trim_left s"
    by (simp add: trim_left_def strip_runes_idem)
  from trim_left_trim_right [OF this] show ?thesis
    by (simp add: trim_space_def trim_right_idem)
qed

lemma trim_space_sublist: "sublist (trim_space s) s"
proof -
  have "sublist (trim_right (trim_left s)) (trim_left s)"
    by (rule prefix_imp_sublist) (rule trim_right_prefix)
  also have "sublist (trim_left s) s"
    unfolding trim_left_def by (rule suffix_imp_sublist) (rule strip_runes_suffix)
  finally show ?thesis by (simp add: trim_space_def)
qed

lemma set_trim_space: "set (trim_space s) \<subseteq> set s"
  using trim_space_sublist by (rule set_mono_sublist)

text \<open>A string with no byte of a white-space rune at either end is its own trim.\<close>

definition space_bytes :: "char list" where
  "space_bytes = concat space_runes"

lemma trim_space_id:
  assumes "set s \<inter> set space_bytes = {}"
  shows "trim_space s = s"
proof -
  have no: "\<not> prefix w t" if "set t \<inter> set space_bytes = {}" "w \<noteq> []" "set w \<subseteq> set space_bytes" for w t
  proof
    assume "prefix w t"
    then have "set w \<subseteq> set t" by (rule set_mono_prefix)
    with that show False by (cases w) auto
  qed
  have "trim_left s = s"
    unfolding trim_left_def
    by (rule strip_runes_fixed, rule no) (use assms in \<open>auto simp: space_bytes_def\<close>)
  moreover have "trim_right s = s"
  proof -
    have "strip_runes (map rev space_runes) (rev s) = rev s"
      by (rule strip_runes_fixed, rule no) (use assms in \<open>auto simp: space_bytes_def\<close>)
    then show ?thesis by (simp add: trim_right_def)
  qed
  ultimately show ?thesis by (simp add: trim_space_def)
qed

text \<open>Case mapping on the ASCII letters.\<close>

definition lower_char :: "char \<Rightarrow> char" where
  "lower_char c = (if CHR ''A'' \<le> c \<and> c \<le> CHR ''Z'' then char_of (of_char c + (32::nat)) else c)"

definition upper_char :: "char \<Rightarrow> char" where
  "upper_char c = (if CHR ''a'' \<le> c \<and> c \<le> CHR ''z'' then char_of (of_char c - (32::nat)) else c)"

definition to_lower :: "string \<Rightarrow> string" where
  "to_lower s = map lower_char s"

definition to_upper :: "string \<Rightarrow> string" where
  "to_upper s = map upper_char s"

definition equal_fold :: "string \<Rightarrow> string \<Rightarrow> bool" where
  "equal_fold a b \<longleftrightarrow> to_lower a = to_lower b"

lemma lower_char_idem [simp, gostr]: "lower_char (lower_char c) = lower_char c"
proof (cases "CHR ''A'' \<le> c \<and> c \<le> CHR ''Z''")
  case True
  then have "65 \<le> (of_char c :: nat)" "(of_char c :: nat) \<le> 90"
    by (auto simp: less_eq_char_def)
  then have "\<not> char_of (of_char c + (32::nat)) \<le> CHR ''Z''"
    by (simp add: less_eq_char_def)
  then show ?thesis by (auto simp: lower_char_def)
next
  case False
  then have "lower_char c = c" by (auto simp: lower_char_def)
  then show ?thesis by simp
qed

lemma to_lower_idem [simp, gostr]: "to_lower (to_lower s) = to_lower s"
  by (simp add: to_lower_def)

lemma to_lower_append [gostr]: "to_lower (s @ t) = to_lower s @ to_lower t"
  by (simp add: to_lower_def)

lemma length_to_lower [simp, gostr]: "length (to_lower s) = length s"
  by (simp add: to_lower_def)

lemma length_to_upper [simp, gostr]: "length (to_upper s) = length s"
  by (simp add: to_upper_def)

text \<open>\<^verbatim>\<open>strings.ReplaceAll\<close> with a non-empty old string (the only way tvr calls it).\<close>

fun replace_all :: "string \<Rightarrow> string \<Rightarrow> string \<Rightarrow> string" where
  "replace_all old new [] = []"
| "replace_all old new (c # cs) =
     (if old \<noteq> [] \<and> prefix old (c # cs)
      then new @ replace_all old new (drop (length old - 1) cs)
      else c # replace_all old new cs)"

definition trim_char :: "char \<Rightarrow> string \<Rightarrow> string" where
  "trim_char k s = rev (dropWhile (\<lambda>c. c = k) (rev (dropWhile (\<lambda>c. c = k) s)))"

definition trim_left_char :: "char \<Rightarrow> string \<Rightarrow> string" where
  "trim_left_char k s = dropWhile (\<lambda>c. c = k) s"

definition trim_right_char :: "char \<Rightarrow> string \<Rightarrow> string" where
  "trim_right_char k s = rev (dropWhile (\<lambda>c. c = k) (rev s))"

definition trim_suffix :: "string \<Rightarrow> string \<Rightarrow> string" where
  "trim_suffix s p = (if suffix p s then take (length s - length p) s else s)"

text \<open>\<^verbatim>\<open>strings.IndexByte\<close>: the first position of a byte, if any.\<close>

fun index_byte :: "string \<Rightarrow> char \<Rightarrow> nat option" where
  "index_byte [] k = None"
| "index_byte (c # cs) k = (if c = k then Some 0 else map_option Suc (index_byte cs k))"

text \<open>\<^verbatim>\<open>strings.Cut\<close> at a single byte, and \<^verbatim>\<open>strings.LastIndex\<close> of one.\<close>

definition cut_byte :: "char \<Rightarrow> string \<Rightarrow> string \<times> string \<times> bool" where
  "cut_byte k s = (case index_byte s k of
      None \<Rightarrow> (s, [], False)
    | Some i \<Rightarrow> (take i s, drop (Suc i) s, True))"

definition last_index_byte :: "string \<Rightarrow> char \<Rightarrow> nat option" where
  "last_index_byte s k = map_option (\<lambda>i. length s - Suc i) (index_byte (rev s) k)"

lemma index_byte_SomeD:
  "index_byte s k = Some i \<Longrightarrow> i < length s \<and> s ! i = k \<and> k \<notin> set (take i s)"
  by (induction s arbitrary: i) (auto split: if_splits)

lemma index_byte_None_iff: "index_byte s k = None \<longleftrightarrow> k \<notin> set s"
  by (induction s) auto

lemma index_byte_append [gostr]:
  "k \<notin> set s \<Longrightarrow> index_byte (s @ k # t) k = Some (length s)"
  by (induction s) auto

lemma last_index_byte_append [gostr]:
  assumes "k \<notin> set t"
  shows "last_index_byte (s @ k # t) k = Some (length s)"
proof -
  have "index_byte (rev t @ k # rev s) k = Some (length t)"
    using assms by (simp add: index_byte_append)
  then show ?thesis by (simp add: last_index_byte_def)
qed

text \<open>\<^verbatim>\<open>strings.Split\<close> at a single byte: always at least one part.\<close>

fun split_byte :: "char \<Rightarrow> string \<Rightarrow> string list" where
  "split_byte k [] = [[]]"
| "split_byte k (c # cs) =
     (if c = k then [] # split_byte k cs
      else (case split_byte k cs of [] \<Rightarrow> [[c]] | p # ps \<Rightarrow> (c # p) # ps))"

text \<open>
  The lines a \<^verbatim>\<open>bufio.Scanner\<close> with a buffer of at most \<open>mx\<close> bytes returns, and whether it stops
  without \<^verbatim>\<open>ErrTooLong\<close>: a line that fills the buffer is too long, a carriage return at the end
  of a line is dropped, and an empty last line is none.
\<close>

definition drop_cr :: "string \<Rightarrow> string" where
  "drop_cr l = (if l \<noteq> [] \<and> last l = CHR 0x0D then butlast l else l)"

fun take_lines :: "nat \<Rightarrow> string list \<Rightarrow> string list \<times> bool" where
  "take_lines mx [] = ([], True)"
| "take_lines mx (l # ls) =
     (if mx \<le> length l then ([], False)
      else if ls = [] \<and> l = [] then ([], True)
      else (let (r, ok) = take_lines mx ls in (drop_cr l # r, ok)))"

definition scan_lines :: "nat \<Rightarrow> string \<Rightarrow> string list \<times> bool" where
  "scan_lines mx s = take_lines mx (split_byte CHR 0x0A s)"

lemma split_byte_no: "\<forall>p \<in> set (split_byte k s). k \<notin> set p"
  by (induction k s rule: split_byte.induct) (auto split: list.splits)

lemma set_drop_cr: "set (drop_cr l) \<subseteq> set l"
  by (auto simp: drop_cr_def dest: in_set_butlastD)

lemma take_lines_sub: "l \<in> set (fst (take_lines mx ls)) \<Longrightarrow> \<exists>l0 \<in> set ls. l = drop_cr l0"
  by (induction mx ls rule: take_lines.induct) (auto split: if_splits prod.splits)

lemma scan_lines_no_newline: "l \<in> set (fst (scan_lines mx s)) \<Longrightarrow> CHR 0x0A \<notin> set l"
  using take_lines_sub [of l mx] split_byte_no set_drop_cr unfolding scan_lines_def by blast

text \<open>The position of the first occurrence of a substring (\<^verbatim>\<open>strings.Index\<close>).\<close>

fun index_str :: "string \<Rightarrow> string \<Rightarrow> nat option" where
  "index_str [] sub = (if sub = [] then Some 0 else None)"
| "index_str (c # cs) sub =
     (if prefix sub (c # cs) then Some 0 else map_option Suc (index_str cs sub))"

definition join_str :: "string \<Rightarrow> string list \<Rightarrow> string" where
  "join_str sep xs = (case xs of [] \<Rightarrow> [] | y # ys \<Rightarrow> y @ concat (map (\<lambda>z. sep @ z) ys))"

section \<open>Decimal numbers (strconv and the d verb of fmt)\<close>

definition digit_char :: "nat \<Rightarrow> char" where
  "digit_char d = char_of (48 + d)"

definition is_digit_char :: "char \<Rightarrow> bool" where
  "is_digit_char c \<longleftrightarrow> CHR ''0'' \<le> c \<and> c \<le> CHR ''9''"

definition digit_val :: "char \<Rightarrow> nat" where
  "digit_val c = of_char c - 48"

fun show_nat :: "nat \<Rightarrow> string" where
  "show_nat n = (if n < 10 then [digit_char n] else show_nat (n div 10) @ [digit_char (n mod 10)])"

declare show_nat.simps [simp del]

definition show_int :: "int \<Rightarrow> string" where
  "show_int i = (if i < 0 then CHR ''-'' # show_nat (nat (- i)) else show_nat (nat i))"

definition digits_val :: "string \<Rightarrow> nat" where
  "digits_val s = foldl (\<lambda>n c. n * 10 + digit_val c) 0 s"

lemma is_digit_digit_char: "d < 10 \<Longrightarrow> is_digit_char (digit_char d)"
  by (simp add: is_digit_char_def digit_char_def less_eq_char_def)

lemma digit_val_digit_char: "d < 10 \<Longrightarrow> digit_val (digit_char d) = d"
  by (simp add: digit_val_def digit_char_def)

lemma show_nat_nonempty [simp]: "show_nat n \<noteq> []"
  by (subst show_nat.simps) simp

lemma show_nat_digits: "\<forall>c \<in> set (show_nat n). is_digit_char c"
proof (induction n rule: show_nat.induct)
  case (1 n)
  then show ?case
    by (subst show_nat.simps) (auto simp: is_digit_digit_char)
qed

lemma digits_val_snoc: "digits_val (s @ [c]) = digits_val s * 10 + digit_val c"
  by (simp add: digits_val_def)

lemma digits_val_show_nat [simp]: "digits_val (show_nat n) = n"
proof (induction n rule: show_nat.induct)
  case (1 n)
  then show ?case
    by (subst show_nat.simps)
       (auto simp: digits_val_snoc digit_val_digit_char digits_val_def)
qed

lemma show_nat_inject [simp]: "show_nat m = show_nat n \<longleftrightarrow> m = n"
  by (metis digits_val_show_nat)

lemma digit_not_minus [simp]: "\<not> is_digit_char CHR ''-''"
  by (simp add: is_digit_char_def less_eq_char_def)

lemma minus_notin_show_nat [simp]: "CHR ''-'' \<notin> set (show_nat n)"
  using show_nat_digits [of n] by auto

lemma show_int_inject [simp]: "show_int i = show_int j \<longleftrightarrow> i = j"
proof
  assume eq: "show_int i = show_int j"
  have head: "show_int k = CHR ''-'' # r \<Longrightarrow> k < 0" for k r
    using minus_notin_show_nat [of "nat k"]
    by (cases "k < 0") (simp_all add: show_int_def)
  show "i = j"
  proof (cases "i < 0")
    case True
    with eq have "j < 0" by (metis head show_int_def)
    with True eq show ?thesis by (simp add: show_int_def)
  next
    case False
    with eq have "\<not> j < 0" by (metis head show_int_def)
    with False eq show ?thesis by (simp add: show_int_def)
  qed
qed simp

text \<open>
  \<^verbatim>\<open>strconv.ParseInt(s, 10, 64)\<close> (and \<^verbatim>\<open>Atoi\<close>): the value and whether the error is nil.  A
  syntax error returns 0, a range error the nearest 64-bit value; some callers drop the error
  and keep the value.
\<close>

definition max_int64 :: int where "max_int64 = 9223372036854775807"
definition min_int64 :: int where "min_int64 = - 9223372036854775808"

definition parse_int64 :: "string \<Rightarrow> int \<times> bool" where
  "parse_int64 s =
     (let neg = prefix ''-'' s;
          ds = (if prefix ''-'' s \<or> prefix ''+'' s then tl s else s)
      in if ds = [] \<or> \<not> list_all is_digit_char ds then (0, False)
         else let v = (if neg then - int (digits_val ds) else int (digits_val ds))
              in if v > max_int64 then (max_int64, False)
                 else if v < min_int64 then (min_int64, False)
                 else (v, True))"

lemma parse_int64_range: "parse_int64 s = (v, ok) \<Longrightarrow> min_int64 \<le> v \<and> v \<le> max_int64"
  by (auto simp: parse_int64_def Let_def max_int64_def min_int64_def split: if_splits)

lemma parse_int64_show_nat:
  assumes "int n \<le> max_int64"
  shows "parse_int64 (show_nat n) = (int n, True)"
proof -
  have d: "list_all is_digit_char (show_nat n)"
    using show_nat_digits [of n] by (simp add: list_all_iff)
  have m: "\<not> prefix ''-'' (show_nat n)" and p: "\<not> prefix ''+'' (show_nat n)"
    using d by (auto simp: prefix_def is_digit_char_def less_eq_char_def)
  from d m p assms show ?thesis
    by (simp add: parse_int64_def Let_def max_int64_def min_int64_def)
qed

section \<open>Stable sorting by a comparison (slices.SortStableFunc, sort.SliceStable)\<close>

fun insert_by :: "('a \<Rightarrow> 'a \<Rightarrow> bool) \<Rightarrow> 'a \<Rightarrow> 'a list \<Rightarrow> 'a list" where
  "insert_by lt x [] = [x]"
| "insert_by lt x (y # ys) = (if lt y x then y # insert_by lt x ys else x # y # ys)"

definition stable_sort :: "('a \<Rightarrow> 'a \<Rightarrow> bool) \<Rightarrow> 'a list \<Rightarrow> 'a list" where
  "stable_sort lt xs = foldr (insert_by lt) xs []"

lemma mset_insert_by [simp]: "mset (insert_by lt x xs) = add_mset x (mset xs)"
  by (induction xs) auto

lemma mset_stable_sort [simp]: "mset (stable_sort lt xs) = mset xs"
  by (induction xs) (simp_all add: stable_sort_def)

lemma set_stable_sort [simp]: "set (stable_sort lt xs) = set xs"
  by (metis mset_stable_sort set_mset_mset)

lemma length_stable_sort [simp]: "length (stable_sort lt xs) = length xs"
  by (metis mset_stable_sort size_mset)

text \<open>
  The contract a comparison owes its callers, over the values \<open>dom\<close> it is used on: a strict
  weak order.  A sort by such a comparison is sorted, and stable: values that compare equal
  keep their order.
\<close>

locale sort_order =
  fixes dom :: "'a \<Rightarrow> bool" and lt :: "'a \<Rightarrow> 'a \<Rightarrow> bool"
  assumes lt_asym: "dom x \<Longrightarrow> dom y \<Longrightarrow> lt x y \<Longrightarrow> \<not> lt y x"
    and lt_negtrans: "dom x \<Longrightarrow> dom y \<Longrightarrow> dom z \<Longrightarrow> \<not> lt x y \<Longrightarrow> \<not> lt y z \<Longrightarrow> \<not> lt x z"
begin

lemma lt_irrefl: "dom x \<Longrightarrow> \<not> lt x x"
  using lt_asym by blast

lemma set_insert_by: "set (insert_by lt x xs) = insert x (set xs)"
  by (induction xs) auto

lemma sorted_insert_by:
  "sorted_wrt (\<lambda>a b. \<not> lt b a) ys \<Longrightarrow> dom x \<Longrightarrow> \<forall>y \<in> set ys. dom y \<Longrightarrow>
   sorted_wrt (\<lambda>a b. \<not> lt b a) (insert_by lt x ys)"
proof (induction ys)
  case (Cons y ys)
  show ?case
  proof (cases "lt y x")
    case True
    with Cons show ?thesis by (auto simp: set_insert_by dest: lt_asym)
  next
    case False
    have "\<not> lt z x" if "z \<in> set ys" for z
      by (rule lt_negtrans [of z y x]) (use Cons.prems that False in auto)
    with False Cons.prems show ?thesis by auto
  qed
qed simp

lemma sorted_stable_sort:
  "\<forall>x \<in> set xs. dom x \<Longrightarrow> sorted_wrt (\<lambda>a b. \<not> lt b a) (stable_sort lt xs)"
proof (induction xs)
  case (Cons x xs)
  then have "\<forall>y \<in> set (stable_sort lt xs). dom y" by simp
  with Cons show ?case
    by (simp add: stable_sort_def sorted_insert_by)
qed (simp add: stable_sort_def)

lemma filter_insert_by:
  assumes "dom x" "dom k" "\<forall>y \<in> set ys. dom y"
  shows "filter (\<lambda>y. \<not> lt y k \<and> \<not> lt k y) (insert_by lt x ys) =
         filter (\<lambda>y. \<not> lt y k \<and> \<not> lt k y) (x # ys)"
  using assms
proof (induction ys)
  case (Cons y ys)
  show ?case
  proof (cases "lt y x \<and> \<not> lt x k \<and> \<not> lt k x")
    case True
    then have "lt y k" using Cons.prems lt_negtrans [of y k x] by auto
    with True Cons show ?thesis by simp
  qed (use Cons in auto)
qed simp

lemma stable_sort_stable:
  assumes "dom k" "\<forall>x \<in> set xs. dom x"
  shows "filter (\<lambda>y. \<not> lt y k \<and> \<not> lt k y) (stable_sort lt xs) =
         filter (\<lambda>y. \<not> lt y k \<and> \<not> lt k y) xs"
  using assms(2)
proof (induction xs)
  case (Cons x xs)
  then have "\<forall>y \<in> set (stable_sort lt xs). dom y" by simp
  with Cons assms(1) show ?case
    by (simp add: stable_sort_def filter_insert_by)
qed (simp add: stable_sort_def)

end

section \<open>Maps as association lists\<close>

text \<open>
  A Go map whose iteration order the code observes is an association list with distinct keys;
  the order of the list stands for the order in which \<^verbatim>\<open>range\<close> visits the map.
\<close>

fun aput :: "'k \<Rightarrow> 'v \<Rightarrow> ('k \<times> 'v) list \<Rightarrow> ('k \<times> 'v) list" where
  "aput k v [] = [(k, v)]"
| "aput k v ((k', v') # kvs) = (if k' = k then (k, v) # kvs else (k', v') # aput k v kvs)"

definition adel :: "'k \<Rightarrow> ('k \<times> 'v) list \<Rightarrow> ('k \<times> 'v) list" where
  "adel k kvs = filter (\<lambda>(k', _). k' \<noteq> k) kvs"

definition amap :: "('k \<times> 'v) list \<Rightarrow> bool" where
  "amap kvs \<longleftrightarrow> distinct (map fst kvs)"

lemma map_of_aput [simp]: "map_of (aput k v kvs) = (map_of kvs)(k \<mapsto> v)"
  by (induction k v kvs rule: aput.induct) auto

lemma keys_aput: "set (map fst (aput k v kvs)) = insert k (set (map fst kvs))"
  by (induction k v kvs rule: aput.induct) auto

lemma amap_aput [simp]: "amap kvs \<Longrightarrow> amap (aput k v kvs)"
proof (induction k v kvs rule: aput.induct)
  case (2 k v k' v' kvs)
  then show ?case
    using keys_aput [of k v kvs] by (auto simp: amap_def)
qed (simp add: amap_def)

lemma amap_Nil [simp]: "amap []"
  by (simp add: amap_def)

lemma map_of_adel [simp]: "map_of (adel k kvs) = (map_of kvs)(k := None)"
  by (induction kvs) (auto simp: adel_def)

lemma amap_adel [simp]: "amap kvs \<Longrightarrow> amap (adel k kvs)"
  by (induction kvs) (auto simp: amap_def adel_def)

lemma adel_simps [simp]:
  "adel k [] = []"
  "adel k ((k', v) # kvs) = (if k' = k then adel k kvs else (k', v) # adel k kvs)"
  by (simp_all add: adel_def)

lemma adel_none: "map_of kvs k = None \<Longrightarrow> adel k kvs = kvs"
  by (induction kvs) (auto simp: adel_def split: if_splits)

lemma mset_adel: "amap kvs \<Longrightarrow> map_of kvs k = Some v \<Longrightarrow>
  add_mset v (mset (map snd (adel k kvs))) = mset (map snd kvs)"
proof (induction kvs)
  case (Cons kv kvs)
  obtain k' v' where kv: "kv = (k', v')" by (cases kv)
  show ?case
  proof (cases "k' = k")
    case True
    have "map_of kvs k = None"
      using Cons.prems(1) kv True by (simp add: amap_def map_of_eq_None_iff)
    with Cons.prems kv True show ?thesis by (simp add: adel_none)
  next
    case False
    with Cons kv show ?thesis by (auto simp: amap_def)
  qed
qed simp

lemma aput_new: "map_of kvs k = None \<Longrightarrow> aput k v kvs = kvs @ [(k, v)]"
  by (induction k v kvs rule: aput.induct) (auto split: if_splits)

lemma map_of_amap: "amap kvs \<Longrightarrow> map_of kvs k = Some v \<longleftrightarrow> (k, v) \<in> set kvs"
  by (simp add: amap_def map_of_eq_Some_iff)

lemma set_adel: "set (adel k kvs) = {x \<in> set kvs. fst x \<noteq> k}"
  by (auto simp: adel_def)

lemma set_aput: "amap kvs \<Longrightarrow> set (aput k v kvs) = insert (k, v) {x \<in> set kvs. fst x \<noteq> k}"
  by (induction k v kvs rule: aput.induct) (auto simp: amap_def image_iff)

section \<open>Lists\<close>

text \<open>First occurrences, in order: what a loop with a set of seen values keeps.\<close>

fun uniq_acc :: "'a list \<Rightarrow> 'a list \<Rightarrow> 'a list" where
  "uniq_acc seen [] = []"
| "uniq_acc seen (x # xs) = (if x \<in> set seen then uniq_acc seen xs else x # uniq_acc (x # seen) xs)"

lemma set_uniq_acc: "set (uniq_acc seen xs) = set xs - set seen"
  by (induction seen xs rule: uniq_acc.induct) auto

lemma distinct_uniq_acc: "distinct (uniq_acc seen xs)"
  by (induction seen xs rule: uniq_acc.induct) (auto simp: set_uniq_acc)

lemma uniq_acc_id: "distinct xs \<Longrightarrow> set xs \<inter> set seen = {} \<Longrightarrow> uniq_acc seen xs = xs"
  by (induction seen xs rule: uniq_acc.induct) auto

lemma distinct_subset_perm:
  assumes "distinct xs" "set xs \<subseteq> set ys" "length xs = length ys"
  shows "mset xs = mset ys \<and> distinct ys"
proof -
  have c: "card (set xs) = length ys" using assms by (simp add: distinct_card)
  have "card (set xs) \<le> card (set ys)" using assms(2) by (intro card_mono) simp_all
  with c have cy: "card (set ys) = length ys" using card_length [of ys] by simp
  then have d: "distinct ys" by (rule card_distinct)
  have "set xs = set ys" using assms(2) c cy by (metis card_subset_eq List.finite_set)
  with assms(1) d show ?thesis by (simp add: set_eq_iff_mset_eq_distinct)
qed

lemma filter_map_fst_upd:
  "(\<And>x. x \<in> set xs \<Longrightarrow> P x \<Longrightarrow> f x = x) \<Longrightarrow> (\<And>x. x \<in> set xs \<Longrightarrow> P (f x) = P x) \<Longrightarrow>
   filter P (map f xs) = filter P xs"
  by (induction xs) auto

end
