(* ===== verification/Natsort.thy ===== *)
theory Natsort
  imports Prelude
begin

text \<open>
  \<^verbatim>\<open>internal/utils\<close>: the natural order in which channels, proxies and guide rows are listed
  (\<^verbatim>\<open>natsort.go\<close>), and the helpers on slices (\<^verbatim>\<open>slice.go\<close>).

  Strings are decoded to runes (numbers) as \<^verbatim>\<open>[]rune(s)\<close> does.  The digits and the Han runes are
  the Unicode tables written out; the case mapping \<^verbatim>\<open>unicode.ToLower\<close> on runes is the
  parameter \<open>lower\<close>.  The abstract view of a string is its list of tokens, a maximal run of
  digits or one other rune each: on strings whose digits are the ASCII ones the comparison is
  the lexicographic order of the tokens, hence a strict weak order, as the sort functions
  need.  With other digits it is not even transitive.
\<close>

section \<open>Runes\<close>

definition rune_error :: nat where "rune_error = 0xFFFD"

definition cont_byte :: "nat \<Rightarrow> nat \<Rightarrow> nat list \<Rightarrow> nat \<Rightarrow> bool" where
  "cont_byte lo hi bs i \<longleftrightarrow> i < length bs \<and> lo \<le> bs ! i \<and> bs ! i \<le> hi"

text \<open>\<^verbatim>\<open>utf8.DecodeRuneInString\<close>: the rune and the number of bytes it takes.\<close>

definition decode_rune :: "string \<Rightarrow> nat \<times> nat" where
  "decode_rune s = (case map of_char s of
      [] \<Rightarrow> (rune_error, 0)
    | b # bs \<Rightarrow>
        let c = cont_byte 0x80 0xBF bs;
            second = (if b = 0xE0 then cont_byte 0xA0 0xBF bs 0
                      else if b = 0xED then cont_byte 0x80 0x9F bs 0
                      else if b = 0xF0 then cont_byte 0x90 0xBF bs 0
                      else if b = 0xF4 then cont_byte 0x80 0x8F bs 0
                      else c 0)
        in if b < 0x80 then (b, 1)
           else if 0xC2 \<le> b \<and> b \<le> 0xDF \<and> c 0
             then ((b - 0xC0) * 64 + (bs ! 0 - 0x80), 2)
           else if 0xE0 \<le> b \<and> b \<le> 0xEF \<and> second \<and> c 1
             then ((b - 0xE0) * 4096 + (bs ! 0 - 0x80) * 64 + (bs ! 1 - 0x80), 3)
           else if 0xF0 \<le> b \<and> b \<le> 0xF4 \<and> second \<and> c 1 \<and> c 2
             then ((b - 0xF0) * 262144 + (bs ! 0 - 0x80) * 4096 + (bs ! 1 - 0x80) * 64
                     + (bs ! 2 - 0x80), 4)
           else (rune_error, 1))"

fun runes :: "string \<Rightarrow> nat list" where
  "runes [] = []"
| "runes (c # cs) = (case decode_rune (c # cs) of (r, n) \<Rightarrow> r # runes (drop (n - 1) cs))"

text \<open>\<^verbatim>\<open>unicode.IsDigit\<close>: the first rune of each block of ten decimal digits (category Nd).\<close>

definition digit_blocks :: "nat list" where
  "digit_blocks =
     [0x30, 0x660, 0x6F0, 0x7C0, 0x966, 0x9E6, 0xA66, 0xAE6, 0xB66, 0xBE6, 0xC66, 0xCE6, 0xD66,
      0xDE6, 0xE50, 0xED0, 0xF20, 0x1040, 0x1090, 0x17E0, 0x1810, 0x1946, 0x19D0, 0x1A80, 0x1A90,
      0x1B50, 0x1BB0, 0x1C40, 0x1C50, 0xA620, 0xA8D0, 0xA900, 0xA9D0, 0xA9F0, 0xAA50, 0xABF0,
      0xFF10, 0x104A0, 0x10D30, 0x11066, 0x110F0, 0x11136, 0x111D0, 0x112F0, 0x11450, 0x114D0,
      0x11650, 0x116C0, 0x11730, 0x118E0, 0x11950, 0x11C50, 0x11D50, 0x11DA0, 0x11F50, 0x16A60,
      0x16AC0, 0x16B50, 0x1D7CE, 0x1D7D8, 0x1D7E2, 0x1D7EC, 0x1D7F6, 0x1E140, 0x1E2F0, 0x1E4F0,
      0x1E950, 0x1FBF0]"

definition is_digit_rune :: "nat \<Rightarrow> bool" where
  "is_digit_rune r \<longleftrightarrow> list_ex (\<lambda>b. b \<le> r \<and> r < b + 10) digit_blocks"

definition han_ranges :: "(nat \<times> nat) list" where
  "han_ranges =
     [(0x2E80, 0x2E99), (0x2E9B, 0x2EF3), (0x2F00, 0x2FD5), (0x3005, 0x3005), (0x3007, 0x3007),
      (0x3021, 0x3029), (0x3038, 0x303B), (0x3400, 0x4DBF), (0x4E00, 0x9FFF), (0xF900, 0xFA6D),
      (0xFA70, 0xFAD9), (0x16FE2, 0x16FE3), (0x16FF0, 0x16FF1), (0x20000, 0x2A6DF),
      (0x2A700, 0x2B739), (0x2B740, 0x2B81D), (0x2B820, 0x2CEA1), (0x2CEB0, 0x2EBE0),
      (0x2EBF0, 0x2EE5D), (0x2F800, 0x2FA1D), (0x30000, 0x3134A), (0x31350, 0x323AF)]"

definition is_han :: "nat \<Rightarrow> bool" where
  "is_han r \<longleftrightarrow> list_ex (\<lambda>(lo, hi). lo \<le> r \<and> r \<le> hi) han_ranges"

section \<open>natsort.go\<close>

definition starts_with_cjk :: "string \<Rightarrow> bool" where
  "starts_with_cjk s =
     (let t = trim_space s in
      if t = [] then False
      else let r = fst (decode_rune t) in
           if r = rune_error then False
           else is_han r \<or> (0x3400 \<le> r \<and> r \<le> 0x4DBF) \<or> (0xF900 \<le> r \<and> r \<le> 0xFAFF)
                \<or> (0x20000 \<le> r \<and> r \<le> 0x2CEAF))"

text \<open>
  The loop of \<^verbatim>\<open>compareNatural\<close>, on what is left of the two rune slices: leading zeros, then
  the significant digits, of both runs; then the lengths, the digits and the run lengths.
\<close>

definition lead_zeros :: "nat list \<Rightarrow> nat" where
  "lead_zeros rs = length (takeWhile (\<lambda>r. r = 48) rs)"

definition sig_digits :: "nat list \<Rightarrow> nat list" where
  "sig_digits rs = takeWhile is_digit_rune (drop (lead_zeros rs) rs)"

definition run_len :: "nat list \<Rightarrow> nat" where
  "run_len rs = lead_zeros rs + length (sig_digits rs)"

fun first_diff :: "nat list \<Rightarrow> nat list \<Rightarrow> (nat \<times> nat) option" where
  "first_diff (x # xs) (y # ys) = (if x \<noteq> y then Some (x, y) else first_diff xs ys)"
| "first_diff _ _ = None"

lemma run_len_pos: "is_digit_rune x \<Longrightarrow> 0 < run_len (x # xs)"
  by (cases "x = 48") (simp_all add: run_len_def lead_zeros_def sig_digits_def)

function compare_natural :: "nat list \<Rightarrow> nat list \<Rightarrow> int" where
  "compare_natural [] [] = 0"
| "compare_natural [] (y # ys) = -1"
| "compare_natural (x # xs) [] = 1"
| "compare_natural (x # xs) (y # ys) =
     (if is_digit_rune x \<and> is_digit_rune y then
        (let da = sig_digits (x # xs); db = sig_digits (y # ys);
             na = run_len (x # xs); nb = run_len (y # ys)
         in if length da \<noteq> length db then (if length da < length db then -1 else 1)
            else case first_diff da db of
                Some (p, q) \<Rightarrow> (if p < q then -1 else 1)
              | None \<Rightarrow>
                  if na \<noteq> nb then (if na < nb then -1 else 1)
                  else compare_natural (drop na (x # xs)) (drop nb (y # ys)))
      else if x \<noteq> y then (if x < y then -1 else 1)
      else compare_natural xs ys)"
  by pat_completeness auto
termination
  by (relation "measure (\<lambda>(a, b). length a)") (use run_len_pos in auto)

definition natural_compare :: "(nat \<Rightarrow> nat) \<Rightarrow> string \<Rightarrow> string \<Rightarrow> int" where
  "natural_compare lower a b =
     (let ac = starts_with_cjk a; bc = starts_with_cjk b in
      if ac \<noteq> bc then (if ac then 1 else -1)
      else compare_natural (map lower (runes a)) (map lower (runes b)))"

definition natural_less :: "(nat \<Rightarrow> nat) \<Rightarrow> string \<Rightarrow> string \<Rightarrow> bool" where
  "natural_less lower a b \<longleftrightarrow> natural_compare lower a b < 0"

section \<open>slice.go\<close>

definition append_unique :: "'a list \<Rightarrow> 'a \<Rightarrow> 'a list" where
  "append_unique xs v = (if list_ex (\<lambda>x. x = v) xs then xs else xs @ [v])"

definition contains_int64 :: "int list \<Rightarrow> int \<Rightarrow> bool" where
  "contains_int64 ids want \<longleftrightarrow> list_ex (\<lambda>i. i = want) ids"

definition unique_int64 :: "int list \<Rightarrow> int list" where
  "unique_int64 ids = uniq_acc [] ids"

lemma distinct_append_unique: "distinct xs \<Longrightarrow> distinct (append_unique xs v)"
  by (auto simp: append_unique_def list_ex_iff)

lemma set_append_unique [simp]: "set (append_unique xs v) = insert v (set xs)"
  by (auto simp: append_unique_def list_ex_iff)

lemma set_unique_int64 [simp]: "set (unique_int64 ids) = set ids"
  by (simp add: unique_int64_def set_uniq_acc)

lemma distinct_unique_int64 [simp]: "distinct (unique_int64 ids)"
  by (simp add: unique_int64_def distinct_uniq_acc)

section \<open>The tokens of a string\<close>

text \<open>
  A run of digits is its number of significant digits, these digits, and its whole length;
  the key of a token orders it among the others.
\<close>

datatype token = Num nat "nat list" nat | Rune nat

fun token_key :: "token \<Rightarrow> nat \<times> nat \<times> nat list \<times> nat" where
  "token_key (Num n ds k) = (48, n, ds, k)"
| "token_key (Rune r) = (if r \<le> 48 then (r, 0, [], 0) else (r, 1, [], 0))"

lemma token_key_ne: "token_key t = token_key u \<Longrightarrow> t \<noteq> u \<Longrightarrow>
  (\<exists>n ds k. t = Num n ds k \<and> (u = Rune 48 \<or> u = Rune 49)) \<or>
  (\<exists>n ds k. u = Num n ds k \<and> (t = Rune 48 \<or> t = Rune 49))"
  by (cases t; cases u) (auto split: if_splits)

fun token_rank :: "token \<Rightarrow> nat" where
  "token_rank (Num _ _ _) = 1"
| "token_rank (Rune _) = 0"

instantiation token :: linorder
begin

definition less_eq_token :: "token \<Rightarrow> token \<Rightarrow> bool" where
  "less_eq_token t u \<longleftrightarrow> (token_key t, token_rank t) \<le> (token_key u, token_rank u)"

definition less_token :: "token \<Rightarrow> token \<Rightarrow> bool" where
  "less_token t u \<longleftrightarrow> (token_key t, token_rank t) < (token_key u, token_rank u)"

instance
proof
  fix t u v :: token
  have inj: "token_key t = token_key u \<Longrightarrow> token_rank t = token_rank u \<Longrightarrow> t = u"
    using token_key_ne [of t u] by (cases t; cases u) auto
  show "t < u \<longleftrightarrow> t \<le> u \<and> \<not> u \<le> t" by (auto simp: less_eq_token_def less_token_def)
  show "t \<le> t" by (simp add: less_eq_token_def)
  show "t \<le> u \<Longrightarrow> u \<le> v \<Longrightarrow> t \<le> v" unfolding less_eq_token_def by (rule order_trans)
  show "t \<le> u \<Longrightarrow> u \<le> t \<Longrightarrow> t = u"
    unfolding less_eq_token_def using inj order_antisym by blast
  show "t \<le> u \<or> u \<le> t" unfolding less_eq_token_def by (rule linear)
qed

end

function tokens :: "nat list \<Rightarrow> token list" where
  "tokens [] = []"
| "tokens (x # xs) =
     (if is_digit_rune x
      then Num (length (sig_digits (x # xs))) (sig_digits (x # xs)) (run_len (x # xs))
             # tokens (drop (run_len (x # xs)) (x # xs))
      else Rune x # tokens xs)"
  by pat_completeness auto
termination
  by (relation "measure length") (use run_len_pos in auto)

definition ascii_digits :: "nat list \<Rightarrow> bool" where
  "ascii_digits rs \<longleftrightarrow> list_all (\<lambda>r. is_digit_rune r \<longrightarrow> r < 58) rs"

lemma is_digit_rune_ge: "is_digit_rune r \<Longrightarrow> 48 \<le> r"
  by (auto simp: is_digit_rune_def digit_blocks_def)

lemma is_digit_rune_ascii: "48 \<le> r \<Longrightarrow> r < 58 \<Longrightarrow> is_digit_rune r"
  by (simp add: is_digit_rune_def digit_blocks_def)

lemma ascii_digits_drop: "ascii_digits rs \<Longrightarrow> ascii_digits (drop n rs)"
  by (auto simp: ascii_digits_def list_all_iff dest: in_set_dropD)

lemma first_diff_None: "length a = length b \<Longrightarrow> first_diff a b = None \<longleftrightarrow> a = b"
  by (induction a b rule: list_induct2) auto

lemma first_diff_Some:
  "length a = length b \<Longrightarrow> first_diff a b = Some (p, q) \<Longrightarrow> p \<noteq> q \<and> (a < b \<longleftrightarrow> p < q)"
  by (induction a b rule: list_induct2) (auto split: if_splits)

text \<open>A run is determined by its significant digits and its length.\<close>

lemma run_decompose:
  "rs = replicate (lead_zeros rs) 48 @ sig_digits rs @ drop (run_len rs) rs"
proof -
  have "takeWhile (\<lambda>r. r = 48) rs = replicate (lead_zeros rs) 48"
    by (rule replicate_eqI) (auto simp: lead_zeros_def dest: set_takeWhileD)
  then have z: "rs = replicate (lead_zeros rs) 48 @ drop (lead_zeros rs) rs"
    by (metis lead_zeros_def takeWhile_eq_take append_take_drop_id)
  have "drop (lead_zeros rs) rs =
      sig_digits rs @ drop (length (sig_digits rs)) (drop (lead_zeros rs) rs)"
    by (metis append_take_drop_id sig_digits_def takeWhile_eq_take)
  with z show ?thesis by (simp add: run_len_def add.commute)
qed

lemma run_eqI:
  assumes "sig_digits a = sig_digits b" "run_len a = run_len b"
    and "drop (run_len a) a = drop (run_len b) b"
  shows "a = b"
proof -
  have "lead_zeros a = lead_zeros b" using assms(1,2) by (simp add: run_len_def)
  with assms show ?thesis by (metis run_decompose)
qed

text \<open>
  The specification: on runes whose digits are ASCII, the comparison is the sign of the
  lexicographic order of the tokens.
\<close>

definition order_sign :: "'a::linorder \<Rightarrow> 'a \<Rightarrow> int" where
  "order_sign x y = (if x < y then -1 else if x = y then 0 else 1)"

lemma order_sign_Cons:
  "order_sign (t # ts) (u # us) =
     (if t < u then -1 else if t = u then order_sign ts us else (1::int))"
  by (auto simp: order_sign_def)

lemma less_token_Num:
  "Num n ds k < Num n' ds' k' \<longleftrightarrow>
     n < n' \<or> n = n' \<and> (ds < ds' \<or> ds = ds' \<and> k < k')"
  by (auto simp: less_token_def)

lemma less_token_Rune: "Rune r < Rune r' \<longleftrightarrow> r < r'"
  by (auto simp: less_token_def)

lemma less_token_Num_Rune: "Num n ds k < Rune r \<longleftrightarrow> 48 < r"
  by (cases "r = 48") (auto simp: less_token_def)

lemma less_token_Rune_Num: "Rune r < Num n ds k \<longleftrightarrow> r \<le> 48"
  by (cases ds) (auto simp: less_token_def)

lemmas less_token_simps = less_token_Num less_token_Rune less_token_Num_Rune less_token_Rune_Num

text \<open>
  The comparison is the lexicographic order of the tokens: the loop compares one pair of
  tokens in each round.
\<close>

lemma compare_natural_eq_order:
  assumes "ascii_digits a" "ascii_digits b"
  shows "compare_natural a b = order_sign (tokens a) (tokens b)"
  using assms
proof (induction a b rule: compare_natural.induct)
  case (4 x xs y ys)
  let ?a = "x # xs" and ?b = "y # ys"
  have ax: "is_digit_rune x \<Longrightarrow> x < 58" and ay: "is_digit_rune y \<Longrightarrow> y < 58"
    using 4(3,4) by (auto simp: ascii_digits_def)
  have tl: "ascii_digits xs" "ascii_digits ys" using 4(3,4) by (auto simp: ascii_digits_def)
  have dr: "ascii_digits (drop n ?a)" "ascii_digits (drop n ?b)" for n
    using 4(3,4) by (auto intro: ascii_digits_drop)
  show ?case
  proof (cases "is_digit_rune x \<and> is_digit_rune y")
    case True
    show ?thesis
    proof (cases "length (sig_digits ?a) = length (sig_digits ?b)")
      case False
      with True show ?thesis by (auto simp: Let_def order_sign_Cons less_token_simps)
    next
      case len: True
      show ?thesis
      proof (cases "first_diff (sig_digits ?a) (sig_digits ?b)")
        case None
        with len have eq: "sig_digits ?a = sig_digits ?b" by (simp add: first_diff_None)
        show ?thesis
        proof (cases "run_len ?a = run_len ?b")
          case rl: True
          have "compare_natural (drop (run_len ?a) ?a) (drop (run_len ?b) ?b) =
                order_sign (tokens (drop (run_len ?a) ?a)) (tokens (drop (run_len ?b) ?b))"
            by (rule 4(1) [OF True refl refl refl refl]) (use len None rl dr in auto)
          with True len None eq rl show ?thesis
            by (simp add: Let_def order_sign_Cons less_token_simps)
        next
          case False
          with True len None eq show ?thesis
            by (auto simp: Let_def order_sign_Cons less_token_simps)
        qed
      next
        case (Some pq)
        then obtain p q where fd: "first_diff (sig_digits ?a) (sig_digits ?b) = Some (p, q)"
          by (cases pq) simp
        from first_diff_Some [OF len fd] have "p \<noteq> q"
          "sig_digits ?a < sig_digits ?b \<longleftrightarrow> p < q" by auto
        moreover have "sig_digits ?a \<noteq> sig_digits ?b"
          using fd first_diff_None [OF len] by auto
        ultimately show ?thesis
          using True len fd by (simp add: Let_def order_sign_Cons less_token_simps)
      qed
    qed
  next
    case False
    then consider (none) "\<not> is_digit_rune x" "\<not> is_digit_rune y"
      | (fst) "is_digit_rune x" "\<not> is_digit_rune y" | (snd) "\<not> is_digit_rune x" "is_digit_rune y"
      by blast
    then show ?thesis
    proof cases
      case none
      with 4(2) [OF False] tl show ?thesis by (auto simp: order_sign_Cons less_token_simps)
    next
      case fst
      have "48 \<le> x" "x < 58" "y < 48 \<or> 58 \<le> y"
        using fst ax is_digit_rune_ge is_digit_rune_ascii [of y] by fastforce+
      with fst show ?thesis by (auto simp: order_sign_Cons less_token_simps)
    next
      case snd
      have "48 \<le> y" "y < 58" "x < 48 \<or> 58 \<le> x"
        using snd ay is_digit_rune_ge is_digit_rune_ascii [of x] by fastforce+
      with snd show ?thesis by (auto simp: order_sign_Cons less_token_simps)
    qed
  qed
qed (simp_all add: order_sign_def)

lemma tokens_digit:
  "is_digit_rune x \<Longrightarrow> tokens (x # xs) =
     Num (length (sig_digits (x # xs))) (sig_digits (x # xs)) (run_len (x # xs))
       # tokens (drop (run_len (x # xs)) (x # xs))"
  by simp

lemma tokens_other: "\<not> is_digit_rune x \<Longrightarrow> tokens (x # xs) = Rune x # tokens xs"
  by simp

lemma tokens_inj: "tokens a = tokens b \<Longrightarrow> a = b"
proof (induction a arbitrary: b rule: tokens.induct)
  case 1
  then show ?case by (cases b) (auto split: if_splits)
next
  case (2 x xs)
  have "tokens (x # xs) \<noteq> []" by simp
  with "2.prems" obtain y ys where b: "b = y # ys" by (cases b) auto
  show ?case
  proof (cases "is_digit_rune x")
    case True
    have y: "is_digit_rune y"
    proof (rule ccontr)
      assume "\<not> is_digit_rune y"
      with "2.prems" True b show False by (simp only: tokens_digit tokens_other) simp
    qed
    from "2.prems" [unfolded b]
    have "Num (length (sig_digits (x # xs))) (sig_digits (x # xs)) (run_len (x # xs))
            # tokens (drop (run_len (x # xs)) (x # xs)) =
          Num (length (sig_digits (y # ys))) (sig_digits (y # ys)) (run_len (y # ys))
            # tokens (drop (run_len (y # ys)) (y # ys))"
      by (simp only: tokens_digit [OF True] tokens_digit [OF y])
    then have sig: "sig_digits (x # xs) = sig_digits b"
      and len: "run_len (x # xs) = run_len b"
      and rest: "tokens (drop (run_len (x # xs)) (x # xs)) = tokens (drop (run_len b) b)"
      unfolding list.inject token.inject b by - (elim conjE, assumption)+
    from rest have "drop (run_len (x # xs)) (x # xs) = drop (run_len b) b"
      by (rule "2.IH"(1) [OF True])
    with sig len show ?thesis by (rule run_eqI)
  next
    case False
    with "2.prems" b have "is_digit_rune y = False" "x = y" "tokens xs = tokens ys"
      by (cases "is_digit_rune y"; simp only: tokens_digit tokens_other; simp)+
    with "2.IH"(2) [OF False] b show ?thesis by simp
  qed
qed

section \<open>A strict weak order\<close>

text \<open>
  The key of a string whose lower-cased digits are ASCII; on these strings \<open>natural_less\<close> is
  the order of the keys, so it is a strict weak order and sorting by it is sound.
\<close>

definition folded :: "(nat \<Rightarrow> nat) \<Rightarrow> string \<Rightarrow> nat list" where
  "folded lower s = map lower (runes s)"

definition natural_key :: "(nat \<Rightarrow> nat) \<Rightarrow> string \<Rightarrow> bool \<times> token list" where
  "natural_key lower s = (starts_with_cjk s, tokens (folded lower s))"

definition plain_name :: "(nat \<Rightarrow> nat) \<Rightarrow> string \<Rightarrow> bool" where
  "plain_name lower s \<longleftrightarrow> ascii_digits (folded lower s)"

lemma natural_less_key:
  "plain_name lower a \<Longrightarrow> plain_name lower b \<Longrightarrow>
   natural_less lower a b \<longleftrightarrow> natural_key lower a < natural_key lower b"
  by (auto simp: natural_less_def natural_compare_def Let_def natural_key_def plain_name_def
      folded_def compare_natural_eq_order order_sign_def less_prod_def)

interpretation natural: sort_order "plain_name lower" "natural_less lower" for lower
proof
  fix x y z
  assume x: "plain_name lower x" and y: "plain_name lower y"
  show "natural_less lower x y \<Longrightarrow> \<not> natural_less lower y x"
    using x y by (simp add: natural_less_key)
  assume z: "plain_name lower z"
  show "\<not> natural_less lower x y \<Longrightarrow> \<not> natural_less lower y z \<Longrightarrow> \<not> natural_less lower x z"
    using x y z by (simp add: natural_less_key)
qed

section \<open>Properties\<close>

lemmas natsort_defs =
  decode_rune_def cont_byte_def rune_error_def is_digit_rune_def digit_blocks_def is_han_def
  han_ranges_def starts_with_cjk_def trim_space_def trim_left_def trim_right_def space_runes_def
  sig_digits_def lead_zeros_def run_len_def ascii_digits_def Let_def



text \<open>C26: NaturalLess is not an order on arbitrary names: a two-digit number, a letter and an
  Arabic digit follow each other in a cycle, so a list of such names has no sorted form.\<close>

theorem natural_less_cycle:
  "natural_less (\<lambda>r. r) ''99'' ''z'' \<and>
   natural_less (\<lambda>r. r) ''z'' [CHR 0xD9, CHR 0xA0] \<and>
   natural_less (\<lambda>r. r) [CHR 0xD9, CHR 0xA0] ''99''"
proof -
  have r: "runes ''99'' = [57, 57]" "runes ''z'' = [122]" "runes [CHR 0xD9, CHR 0xA0] = [0x660]"
    by (simp_all add: natsort_defs)
  have "\<not> starts_with_cjk ''99''" "\<not> starts_with_cjk ''z''"
    "\<not> starts_with_cjk [CHR 0xD9, CHR 0xA0]"
    by (simp_all add: natsort_defs)
  then show ?thesis
    by (simp add: natural_less_def natural_compare_def r) (simp add: natsort_defs)
qed

end
