(* ===== verification/GoUrl.thy ===== *)
theory GoUrl
  imports Prelude
begin

text \<open>
  What tvr uses of Go's \<^verbatim>\<open>net/url\<close>: \<^verbatim>\<open>Parse\<close>, \<^verbatim>\<open>ResolveReference\<close> and \<^verbatim>\<open>String\<close>.  The functions
  follow the package: \<^verbatim>\<open>getScheme\<close>, \<^verbatim>\<open>parseAuthority\<close>, \<^verbatim>\<open>parseHost\<close> (with IPv6 literals in brackets),
  \<^verbatim>\<open>unescape\<close> per mode, \<^verbatim>\<open>resolvePath\<close>.  A parse error is \<open>None\<close>; tvr never looks at its text.
\<close>

datatype enc_mode = EncPath | EncHost | EncZone | EncUser | EncFragment

definition is_alpha_char :: "char \<Rightarrow> bool" where
  "is_alpha_char c = (let n = of_char (lower_char c) in (97::nat) \<le> n \<and> n \<le> 122)"

definition hex_val :: "char \<Rightarrow> nat option" where
  "hex_val c =
     (if is_digit_char c then Some (digit_val c)
      else if CHR ''a'' \<le> c \<and> c \<le> CHR ''f'' then Some (of_char c - 87)
      else if CHR ''A'' \<le> c \<and> c \<le> CHR ''F'' then Some (of_char c - 55)
      else None)"

definition should_escape :: "enc_mode \<Rightarrow> char \<Rightarrow> bool" where
  "should_escape m c =
     (if is_alpha_char c \<or> is_digit_char c then False
      else if (m = EncHost \<or> m = EncZone) \<and> c \<in> set ''!$&'()*+,;=:[]<>\"'' then False
      else if c \<in> set ''-_.~'' then False
      else if c \<in> set ''$&+,/:;=?@'' then
        (case m of EncPath \<Rightarrow> c = CHR ''?'' | EncUser \<Rightarrow> c \<in> set ''@/?:''
          | EncFragment \<Rightarrow> False | _ \<Rightarrow> True)
      else if m = EncFragment \<and> c \<in> set ''!()*'' then False
      else True)"

fun unescape :: "enc_mode \<Rightarrow> string \<Rightarrow> string option" where
  "unescape m [] = Some []"
| "unescape m (c # cs) =
     (if c = CHR ''%'' then
        (case cs of
           a # b # rest \<Rightarrow>
             (case (hex_val a, hex_val b) of
                (Some x, Some y) \<Rightarrow>
                  (if m = EncHost \<and> x < 8 \<and> [a, b] \<noteq> ''25'' then None
                   else if m = EncZone \<and> [a, b] \<noteq> ''25'' \<and> char_of (x * 16 + y) \<noteq> CHR '' '' \<and>
                     should_escape EncHost (char_of (x * 16 + y)) then None
                   else map_option (\<lambda>r. char_of (x * 16 + y) # r) (unescape m rest))
              | _ \<Rightarrow> None)
         | _ \<Rightarrow> None)
      else if (m = EncHost \<or> m = EncZone) \<and> of_char c < (0x80::nat) \<and> should_escape m c then None
      else map_option (\<lambda>r. c # r) (unescape m cs))"

definition hex_digit :: "nat \<Rightarrow> char" where
  "hex_digit n = (if n < 10 then digit_char n else char_of (n + 55))"

definition escape :: "enc_mode \<Rightarrow> string \<Rightarrow> string" where
  "escape m s = concat (map (\<lambda>c. if should_escape m c
     then [CHR ''%'', hex_digit (of_char c div 16), hex_digit (of_char c mod 16)] else [c]) s)"

text \<open>\<^verbatim>\<open>validEncoded\<close>, for the default encoding hint kept in \<^verbatim>\<open>RawPath\<close>.\<close>

definition valid_encoded :: "enc_mode \<Rightarrow> string \<Rightarrow> bool" where
  "valid_encoded m s \<longleftrightarrow>
     list_all (\<lambda>c. c \<in> set ''!$&'()*+,;=:@[]%'' \<or> \<not> should_escape m c) s"

record url =
  u_scheme :: string
  u_opaque :: string
  u_user :: "(string \<times> string option) option"
  u_host :: string
  u_path :: string
  u_rawpath :: string
  u_omit_host :: bool
  u_force_query :: bool
  u_query :: string
  u_fragment :: string
  u_rawfragment :: string

definition empty_url :: url where
  "empty_url = \<lparr> u_scheme = [], u_opaque = [], u_user = None, u_host = [], u_path = [],
     u_rawpath = [], u_omit_host = False, u_force_query = False, u_query = [], u_fragment = [],
     u_rawfragment = [] \<rparr>"

definition set_path :: "url \<Rightarrow> string \<Rightarrow> url option" where
  "set_path u p = map_option (\<lambda>path. u\<lparr>u_path := path,
     u_rawpath := (if escape EncPath path = p then [] else p)\<rparr>) (unescape EncPath p)"

definition escaped_path :: "url \<Rightarrow> string" where
  "escaped_path u =
     (if u_rawpath u \<noteq> [] \<and> valid_encoded EncPath (u_rawpath u) \<and>
         unescape EncPath (u_rawpath u) = Some (u_path u) then u_rawpath u
      else if u_path u = ''*'' then ''*''
      else escape EncPath (u_path u))"

definition escaped_fragment :: "url \<Rightarrow> string" where
  "escaped_fragment u =
     (if u_rawfragment u \<noteq> [] \<and> valid_encoded EncFragment (u_rawfragment u) \<and>
         unescape EncFragment (u_rawfragment u) = Some (u_fragment u) then u_rawfragment u
      else escape EncFragment (u_fragment u))"

section \<open>Parse\<close>

text \<open>The scheme and the rest: \<open>None\<close> when the URL starts with a colon.\<close>

fun get_scheme_at :: "string \<Rightarrow> string \<Rightarrow> (string \<times> string) option" where
  "get_scheme_at acc [] = Some ([], rev acc)"
| "get_scheme_at acc (c # cs) =
     (if is_alpha_char c then get_scheme_at (c # acc) cs
      else if is_digit_char c \<or> c \<in> set ''+-.'' then
        (if acc = [] then Some ([], c # cs) else get_scheme_at (c # acc) cs)
      else if c = CHR '':'' then (if acc = [] then None else Some (rev acc, cs))
      else Some ([], rev acc @ c # cs))"

definition valid_optional_port :: "string \<Rightarrow> bool" where
  "valid_optional_port p \<longleftrightarrow>
     (case p of [] \<Rightarrow> True | c # ds \<Rightarrow> c = CHR '':'' \<and> list_all is_digit_char ds)"

text \<open>\<^verbatim>\<open>netip.ParseAddr\<close> on an address with a colon; the groups still to come are counted down.\<close>

definition valid_ipv4 :: "string \<Rightarrow> bool" where
  "valid_ipv4 s \<longleftrightarrow> length (split_byte CHR ''.'' s) = 4 \<and>
     list_all (\<lambda>p. p \<noteq> [] \<and> list_all is_digit_char p \<and> digits_val p \<le> 255 \<and>
       length p \<le> 3 \<and> (length p > 1 \<longrightarrow> hd p \<noteq> CHR ''0'')) (split_byte CHR ''.'' s)"

fun valid_groups :: "nat \<Rightarrow> bool \<Rightarrow> string list \<Rightarrow> bool" where
  "valid_groups n gap [] \<longleftrightarrow> (if gap then 0 < n else n = 0)"
| "valid_groups n gap (g # gs) \<longleftrightarrow>
     (if g = [] then \<not> gap \<and> valid_groups n True gs
      else if gs = [] \<and> CHR ''.'' \<in> set g then valid_ipv4 g \<and> (if gap then 2 < n else n = 2)
      else 0 < n \<and> length g \<le> 4 \<and> list_all (\<lambda>c. hex_val c \<noteq> None) g \<and>
        valid_groups (n - 1) gap gs)"

definition valid_ipv6 :: "string \<Rightarrow> bool" where
  "valid_ipv6 s =
     (let (addr, zone, has_zone) = cut_byte CHR ''%'' s in
      if CHR '':'' \<notin> set addr \<or> has_zone \<and> zone = [] then False
      else if has_prefix addr '':'' \<and> \<not> has_prefix addr ''::'' then False
      else if has_suffix addr '':'' \<and> \<not> has_suffix addr ''::'' then False
      else if addr = ''::'' then True
      else let gs = split_byte CHR '':'' addr;
               gs1 = (if has_prefix addr ''::'' then tl gs else gs);
               gs2 = (if has_suffix addr ''::'' then butlast gs1 else gs1)
           in valid_groups 8 False gs2)"

definition parse_host :: "string \<Rightarrow> string option" where
  "parse_host host =
     (case last_index_byte host CHR ''['' of
        Some (Suc n) \<Rightarrow> None
      | Some 0 \<Rightarrow>
          (case last_index_byte host CHR '']'' of
             None \<Rightarrow> None
           | Some i \<Rightarrow>
               let port = drop (Suc i) host; name = drop 1 (take i host);
                   un = (case index_str name ''%25'' of
                       None \<Rightarrow> unescape EncHost name
                     | Some z \<Rightarrow> (case (unescape EncHost (take z name), unescape EncZone (drop z name)) of
                           (Some a, Some b) \<Rightarrow> Some (a @ b) | _ \<Rightarrow> None))
               in if \<not> valid_optional_port port then None
                  else (case (unescape EncHost port, un) of
                      (Some p, Some h) \<Rightarrow>
                        (if valid_ipv6 h then Some (''['' @ h @ '']'' @ p) else None)
                    | _ \<Rightarrow> None))
      | None \<Rightarrow>
          (case index_byte host CHR '':'' of
             Some i \<Rightarrow> (if valid_optional_port (drop i host) then unescape EncHost host else None)
           | None \<Rightarrow> unescape EncHost host))"

definition valid_userinfo :: "string \<Rightarrow> bool" where
  "valid_userinfo s \<longleftrightarrow> list_all (\<lambda>c. is_alpha_char c \<or> is_digit_char c \<or>
     c \<in> set ''-._:~!$&'()*+,;=%@'') s"

definition parse_userinfo :: "string \<Rightarrow> (string \<times> string option) option" where
  "parse_userinfo s =
     (if \<not> valid_userinfo s then None
      else let (name, pass, found) = cut_byte CHR '':'' s in
        (case (unescape EncUser name, unescape EncUser pass) of
           (Some n, Some p) \<Rightarrow> Some (n, if found then Some p else None)
         | _ \<Rightarrow> None))"

definition parse_authority :: "url \<Rightarrow> string \<Rightarrow> url option" where
  "parse_authority u auth =
     (case last_index_byte auth CHR ''@'' of
        None \<Rightarrow> map_option (\<lambda>h. u\<lparr>u_host := h\<rparr>) (parse_host auth)
      | Some i \<Rightarrow> (case (parse_host (drop (Suc i) auth), parse_userinfo (take i auth)) of
            (Some h, Some ui) \<Rightarrow> Some (u\<lparr>u_host := h, u_user := Some ui\<rparr>)
          | _ \<Rightarrow> None))"

definition has_ctl :: "string \<Rightarrow> bool" where
  "has_ctl s \<longleftrightarrow> list_ex (\<lambda>c. of_char c < (0x20::nat) \<or> c = CHR 0x7F) s"

text \<open>What follows the scheme and the query: authority and path.\<close>

definition parse_hier :: "url \<Rightarrow> string \<Rightarrow> url option" where
  "parse_hier u rest =
     (if \<not> has_prefix rest ''/'' \<and> u_scheme u \<noteq> [] then Some (u\<lparr>u_opaque := rest\<rparr>)
      else if \<not> has_prefix rest ''/'' \<and> CHR '':'' \<in> set (fst (cut_byte CHR ''/'' rest)) then None
      else if (u_scheme u \<noteq> [] \<or> \<not> has_prefix rest ''///'') \<and> has_prefix rest ''//'' then
        (let auth = takeWhile (\<lambda>c. c \<noteq> CHR ''/'') (drop 2 rest);
             path = dropWhile (\<lambda>c. c \<noteq> CHR ''/'') (drop 2 rest)
         in case parse_authority u auth of None \<Rightarrow> None | Some u' \<Rightarrow> set_path u' path)
      else set_path (if u_scheme u \<noteq> [] \<and> has_prefix rest ''/'' then u\<lparr>u_omit_host := True\<rparr> else u) rest)"

definition parse_no_fragment :: "string \<Rightarrow> url option" where
  "parse_no_fragment raw =
     (if has_ctl raw then None
      else if raw = ''*'' then Some (empty_url\<lparr>u_path := ''*''\<rparr>)
      else case get_scheme_at [] raw of
          None \<Rightarrow> None
        | Some (scheme, rest) \<Rightarrow>
            let u = empty_url\<lparr>u_scheme := to_lower scheme\<rparr>;
                (front, query, _) = cut_byte CHR ''?'' rest
            in if has_suffix rest ''?'' \<and> length (filter (\<lambda>c. c = CHR ''?'') rest) = 1
               then parse_hier (u\<lparr>u_force_query := True\<rparr>) (butlast rest)
               else parse_hier (u\<lparr>u_query := query\<rparr>) front)"

definition url_parse :: "string \<Rightarrow> url option" where
  "url_parse raw =
     (let (front, frag, _) = cut_byte CHR ''#'' raw in
      case parse_no_fragment front of
        None \<Rightarrow> None
      | Some u \<Rightarrow>
          if frag = [] then Some u
          else map_option (\<lambda>f. u\<lparr>u_fragment := f,
            u_rawfragment := (if escape EncFragment f = frag then [] else frag)\<rparr>)
            (unescape EncFragment frag))"

section \<open>String and ResolveReference\<close>

definition userinfo_string :: "string \<times> string option \<Rightarrow> string" where
  "userinfo_string ui = escape EncUser (fst ui) @
     (case snd ui of None \<Rightarrow> [] | Some p \<Rightarrow> '':'' @ escape EncUser p)"

definition url_string :: "url \<Rightarrow> string" where
  "url_string u =
     (let pre = (if u_scheme u \<noteq> [] then u_scheme u @ '':'' else []);
          body = (if u_opaque u \<noteq> [] then pre @ u_opaque u
            else let auth =
                  (if (u_scheme u \<noteq> [] \<or> u_host u \<noteq> [] \<or> u_user u \<noteq> None) \<and>
                      \<not> (u_omit_host u \<and> u_host u = [] \<and> u_user u = None)
                   then (if u_host u \<noteq> [] \<or> u_path u \<noteq> [] \<or> u_user u \<noteq> None then ''//'' else []) @
                     (case u_user u of None \<Rightarrow> [] | Some ui \<Rightarrow> userinfo_string ui @ ''@'') @
                     escape EncHost (u_host u)
                   else []);
                path = escaped_path u;
                path1 = (if path \<noteq> [] \<and> hd path \<noteq> CHR ''/'' \<and> u_host u \<noteq> [] then ''/'' @ path else path);
                path2 = (if pre @ auth = [] \<and> path1 = path \<and>
                    CHR '':'' \<in> set (fst (cut_byte CHR ''/'' path)) then ''./'' @ path1 else path1)
            in pre @ auth @ path2)
      in body @ (if u_force_query u \<or> u_query u \<noteq> [] then ''?'' @ u_query u else [])
           @ (if u_fragment u \<noteq> [] then ''#'' @ escaped_fragment u else []))"

text \<open>The loop of \<^verbatim>\<open>resolvePath\<close>: the text written so far after its leading slash, and
  whether the next element is the first.\<close>

fun resolve_elems :: "string \<Rightarrow> bool \<Rightarrow> string list \<Rightarrow> string" where
  "resolve_elems dst first [] = dst"
| "resolve_elems dst first (e # es) =
     (if e = ''.'' then resolve_elems dst False es
      else if e = ''..'' then
        (case last_index_byte dst CHR ''/'' of
           None \<Rightarrow> resolve_elems [] True es
         | Some i \<Rightarrow> resolve_elems (take i dst) first es)
      else resolve_elems ((if first then dst else dst @ ''/'') @ e) False es)"

definition resolve_path :: "string \<Rightarrow> string \<Rightarrow> string" where
  "resolve_path base r =
     (let full = (if r = [] then base
            else if hd r \<noteq> CHR ''/'' then
              (case last_index_byte base CHR ''/'' of
                 None \<Rightarrow> r | Some i \<Rightarrow> take (Suc i) base @ r)
            else r)
      in if full = [] then []
         else let es = split_byte CHR ''/'' full;
                  d = resolve_elems [] True es;
                  out = ''/'' @ d @ (if last es = ''.'' \<or> last es = ''..'' then ''/'' else [])
              in if has_prefix out ''//'' then tl out else out)"

definition set_path_or_keep :: "url \<Rightarrow> string \<Rightarrow> url" where
  "set_path_or_keep u p = (case set_path u p of None \<Rightarrow> u | Some u' \<Rightarrow> u')"

definition resolve_reference :: "url \<Rightarrow> url \<Rightarrow> url" where
  "resolve_reference u r =
     (let v = (if u_scheme r = [] then r\<lparr>u_scheme := u_scheme u\<rparr> else r) in
      if u_scheme r \<noteq> [] \<or> u_host r \<noteq> [] \<or> u_user r \<noteq> None
      then set_path_or_keep v (resolve_path (escaped_path r) [])
      else if u_opaque r \<noteq> [] then v\<lparr>u_user := None, u_host := [], u_path := []\<rparr>
      else let v1 = (if u_path r = [] \<and> \<not> u_force_query r \<and> u_query r = []
                  then (if u_fragment r = []
                        then v\<lparr>u_query := u_query u, u_fragment := u_fragment u,
                               u_rawfragment := u_rawfragment u\<rparr>
                        else v\<lparr>u_query := u_query u\<rparr>)
                  else v)
           in if u_path r = [] \<and> u_opaque u \<noteq> []
              then v1\<lparr>u_opaque := u_opaque u, u_user := None, u_host := [], u_path := []\<rparr>
              else set_path_or_keep (v1\<lparr>u_host := u_host u, u_user := u_user u\<rparr>)
                (resolve_path (escaped_path u) (escaped_path r)))"

section \<open>Facts\<close>

lemma url_parse_no_ctl: "url_parse raw = Some u \<Longrightarrow> \<not> has_ctl (fst (cut_byte CHR ''#'' raw))"
  by (auto simp: url_parse_def parse_no_fragment_def split: prod.splits if_splits)

end
