(* ===== verification/Upstream.thy ===== *)
theory Upstream
  imports GoUrl
begin

text \<open>
  \<^verbatim>\<open>internal/core/upstream\<close>: the ordered origins of a channel with the policy that picks one
  (\<^verbatim>\<open>source.go\<close>), and the resolution of a link through the servers of a proxy (\<^verbatim>\<open>resolve.go\<close>).
  \<^verbatim>\<open>rand.IntN\<close> is the parameter \<open>roll\<close>, documented to return a number below its argument; a Go
  \<^verbatim>\<open>int\<close> is an \<^typ>\<open>int\<close>.
\<close>

type_synonym headers = "(string \<times> string) list"

record upstream =
  up_id :: string
  up_url :: string
  up_headers :: headers
  up_candidates :: "string list"
  up_transcode :: bool
  up_revision :: string

record source =
  src_policy :: string
  src_upstreams :: "upstream list"
  src_fixed_index :: int
  src_transcode :: bool
  src_revision :: string

record proxy_ref =
  pr_policy :: string
  pr_servers :: "string list"
  pr_fixed_index :: int

definition policy_fixed :: string where "policy_fixed = ''fixed''"
definition policy_random :: string where "policy_random = ''random''"
definition policy_failover :: string where "policy_failover = ''failover''"
definition policy_fallback :: string where "policy_fallback = ''fallback''"

lemmas policy_defs = policy_fixed_def policy_random_def policy_failover_def policy_fallback_def

section \<open>source.go\<close>

definition fixed_source :: "upstream \<Rightarrow> source" where
  "fixed_source up = \<lparr> src_policy = policy_fixed, src_upstreams = [up], src_fixed_index = 0,
     src_transcode = up_transcode up, src_revision = up_revision up \<rparr>"

definition parse_pick_policy :: "string \<Rightarrow> string \<Rightarrow> bool \<Rightarrow> string + string" where
  "parse_pick_policy raw kind allow_fallback =
     (let p = to_lower (trim_space raw) in
      if p = [] \<or> p = policy_fixed then Inr policy_fixed
      else if p = policy_random then Inr policy_random
      else if p = policy_failover then Inr policy_failover
      else if p = policy_fallback \<and> allow_fallback then Inr policy_failover
      else Inl (kind @ '' policy must be fixed, random, or failover''))"

definition parse_policy :: "string \<Rightarrow> string + string" where
  "parse_policy raw = parse_pick_policy raw ''upstream'' True"

text \<open>\<^verbatim>\<open>Normalize\<close>: \<open>None\<close> is \<^verbatim>\<open>ErrEmpty\<close>.\<close>

definition normalize_source :: "source \<Rightarrow> source option" where
  "normalize_source src =
     (if src_upstreams src = [] then None
      else let clean = filter (\<lambda>u. \<not> blank (up_url u)) (src_upstreams src) in
        if clean = [] then None
        else Some (src\<lparr>
          src_upstreams := clean,
          src_policy := (case parse_policy (src_policy src) of Inl _ \<Rightarrow> policy_fixed | Inr p \<Rightarrow> p),
          src_fixed_index := (if src_fixed_index src < 0 \<or> src_fixed_index src \<ge> int (length clean)
            then 0 else src_fixed_index src)\<rparr>))"

definition pick_index :: "(nat \<Rightarrow> nat) \<Rightarrow> string \<Rightarrow> nat \<Rightarrow> int \<Rightarrow> int" where
  "pick_index roll policy n fixed =
     (if n = 0 then 0
      else if policy = policy_random then int (roll n)
      else if policy = policy_fixed \<and> 0 \<le> fixed \<and> fixed < int n then fixed
      else 0)"

definition start_index :: "(nat \<Rightarrow> nat) \<Rightarrow> source \<Rightarrow> int" where
  "start_index roll s = pick_index roll (src_policy s) (length (src_upstreams s)) (src_fixed_index s)"

definition fetch_urls :: "upstream \<Rightarrow> string list" where
  "fetch_urls u =
     (if up_candidates u \<noteq> [] then up_candidates u
      else if \<not> blank (up_url u) then [up_url u] else [])"

definition is_fallback :: "source \<Rightarrow> bool" where
  "is_fallback s \<longleftrightarrow> src_policy s = policy_failover \<or> src_policy s = policy_fallback"

definition host_of :: "string \<Rightarrow> string" where
  "host_of raw = (case url_parse raw of None \<Rightarrow> [] | Some u \<Rightarrow> u_host u)"

section \<open>resolve.go\<close>

definition parse_proxy_policy :: "string \<Rightarrow> string + string" where
  "parse_proxy_policy raw = parse_pick_policy raw ''proxy'' False"

definition join_link :: "string \<Rightarrow> string \<Rightarrow> string" where
  "join_link server link =
     trim_right_char CHR ''/'' (trim_space server) @ ''/'' @ trim_left_char CHR ''/'' (trim_space link)"

definition stable_primary :: "string \<Rightarrow> proxy_ref option \<Rightarrow> string" where
  "stable_primary link proxy =
     (let l = trim_space link in
      case proxy of
        None \<Rightarrow> l
      | Some p \<Rightarrow>
          if pr_servers p = [] then l
          else let idx = (if pr_policy p = policy_fixed
                 then pick_index (\<lambda>_. 0) policy_fixed (length (pr_servers p)) (pr_fixed_index p) else 0)
               in join_link (pr_servers p ! nat idx) l)"

definition resolve :: "(nat \<Rightarrow> nat) \<Rightarrow> string \<Rightarrow> proxy_ref option \<Rightarrow> string list" where
  "resolve roll link proxy =
     (let l = trim_space link; plain = (if l = [] then [] else [l]) in
      case proxy of
        None \<Rightarrow> plain
      | Some p \<Rightarrow>
          if pr_servers p = [] then plain
          else if pr_policy p = policy_random then
            [join_link (pr_servers p ! nat (pick_index roll policy_random (length (pr_servers p)) 0)) l]
          else if pr_policy p = policy_fixed then
            [join_link (pr_servers p ! nat (pick_index roll policy_fixed (length (pr_servers p)) (pr_fixed_index p))) l]
          else map (\<lambda>srv. join_link srv l) (pr_servers p))"

definition valid_proxied_link :: "string \<Rightarrow> bool" where
  "valid_proxied_link raw =
     (let s = trim_space raw in
      s \<noteq> [] \<and> \<not> contains_str s ''://'' \<and>
      \<not> list_ex (\<lambda>w. sublist w s) space_runes \<and> CHR 0x00 \<notin> set s)"

section \<open>Facts\<close>

lemma pick_index_range:
  assumes "\<And>m. 0 < m \<Longrightarrow> roll m < m" "0 < n"
  shows "0 \<le> pick_index roll p n i \<and> pick_index roll p n i < int n"
  using assms by (simp add: pick_index_def)

lemma pick_index_roll: "p \<noteq> policy_random \<Longrightarrow> pick_index roll p n i = pick_index roll' p n i"
  by (simp add: pick_index_def)

lemma parse_pick_policy_Inr: "parse_pick_policy raw kind fb = Inr p \<Longrightarrow>
  p \<in> {policy_fixed, policy_random, policy_failover}"
  by (auto simp: parse_pick_policy_def Let_def split: if_splits)

lemma parse_pick_policy_canonical:
  "p \<in> {policy_fixed, policy_random, policy_failover} \<Longrightarrow> parse_pick_policy p kind fb = Inr p"
  by (elim insertE; simp add: policy_defs; code_simp?)

lemma normalize_source_Some:
  assumes "normalize_source src = Some s"
  shows "src_upstreams s \<noteq> []" "\<forall>u \<in> set (src_upstreams s). \<not> blank (up_url u)"
    "src_policy s \<in> {policy_fixed, policy_random, policy_failover}"
    "0 \<le> src_fixed_index s" "src_fixed_index s < int (length (src_upstreams s))"
  using assms parse_pick_policy_Inr [of "src_policy src" "''upstream''" True]
  by (auto simp: normalize_source_def Let_def parse_policy_def filter_empty_conv
      split: if_splits sum.splits)

lemma fetch_urls_nonempty: "\<not> blank (up_url u) \<Longrightarrow> fetch_urls u \<noteq> []"
  by (simp add: fetch_urls_def)

end
