(* ===== verification/Transcode.thy ===== *)
theory Transcode
  imports Upstream
begin

text \<open>
  \<^verbatim>\<open>internal/core/transcode\<close>: the ffmpeg profile and its normalisation (\<^verbatim>\<open>profile.go\<close>), the
  command line (\<^verbatim>\<open>ffmpeg.go\<close>), and the signals that end the process group (\<^verbatim>\<open>process_unix.go\<close>).
  Durations are \<^typ>\<open>int\<close>s of nanoseconds.  The headers are visited in the order of their list.
\<close>

section \<open>profile.go\<close>

definition seconds :: "int \<Rightarrow> int" where "seconds n = n * 1000000000"
definition milliseconds :: "int \<Rightarrow> int" where "milliseconds n = n * 1000000"

record profile =
  ffmpeg_path :: string
  video_crf :: int
  video_preset :: string
  audio_bitrate_kbps :: int
  max_height :: int
  startup_timeout :: int

definition default_profile :: profile where
  "default_profile = \<lparr> ffmpeg_path = ''ffmpeg'', video_crf = 23, video_preset = ''veryfast'',
     audio_bitrate_kbps = 128, max_height = 0, startup_timeout = seconds 30 \<rparr>"

definition normalize_profile :: "profile \<Rightarrow> profile" where
  "normalize_profile p =
     (let def = default_profile;
          unset = video_crf p = 0 \<and> blank (video_preset p) \<and> audio_bitrate_kbps p = 0 \<and>
            startup_timeout p = 0
      in \<lparr> ffmpeg_path = (if blank (ffmpeg_path p) then ffmpeg_path def else trim_space (ffmpeg_path p)),
           video_crf = (if unset then video_crf def
             else if video_crf p < 0 \<or> video_crf p > 51 then video_crf def else video_crf p),
           video_preset = (if blank (video_preset p) then video_preset def else trim_space (video_preset p)),
           audio_bitrate_kbps = (if audio_bitrate_kbps p \<le> 0 then audio_bitrate_kbps def
             else audio_bitrate_kbps p),
           max_height = (if max_height p < 0 then 0 else max_height p),
           startup_timeout = (if startup_timeout p \<le> 0 then startup_timeout def
             else startup_timeout p) \<rparr>)"

definition valid_profile :: "profile \<Rightarrow> bool" where
  "valid_profile p \<longleftrightarrow> ffmpeg_path p \<noteq> [] \<and> trim_space (ffmpeg_path p) = ffmpeg_path p \<and>
     video_preset p \<noteq> [] \<and> trim_space (video_preset p) = video_preset p \<and>
     0 \<le> video_crf p \<and> video_crf p \<le> 51 \<and> 0 < audio_bitrate_kbps p \<and> 0 \<le> max_height p \<and>
     0 < startup_timeout p"

lemma normalize_profile_id: "valid_profile p \<Longrightarrow> normalize_profile p = p"
  by (simp add: valid_profile_def normalize_profile_def Let_def)

lemma trim_ffmpeg: "trim_space ''ffmpeg'' = ''ffmpeg''" "trim_space ''veryfast'' = ''veryfast''"
  by code_simp+

lemma normalize_profile_valid: "valid_profile (normalize_profile p)"
  by (auto simp: valid_profile_def normalize_profile_def Let_def default_profile_def seconds_def
      trim_ffmpeg)

section \<open>ffmpeg.go\<close>

definition default_user_agent :: string where "default_user_agent = ''tvr/1.0''"

definition header_unsafe :: "string \<Rightarrow> bool" where
  "header_unsafe s \<longleftrightarrow> CHR 0x0D \<in> set s \<or> CHR 0x0A \<in> set s \<or> CHR 0x00 \<in> set s"

text \<open>The loop over the headers: the user agent and the other headers, keyed by trimmed name.\<close>

fun scan_headers :: "headers \<Rightarrow> string \<times> headers \<Rightarrow> string + string \<times> headers" where
  "scan_headers [] acc = Inr acc"
| "scan_headers ((k0, v) # hs) (ua, out) =
     (let k = trim_space k0 in
      if k = [] then scan_headers hs (ua, out)
      else if header_unsafe k \<or> header_unsafe v then Inl (''invalid header '' @ k)
      else if equal_fold k ''User-Agent'' then scan_headers hs (if blank v then ua else v, out)
      else scan_headers hs (ua, aput k v out))"

definition crlf :: string where "crlf = [CHR 0x0D, CHR 0x0A]"

definition header_block :: "headers \<Rightarrow> string" where
  "header_block hs = concat (map (\<lambda>k. k @ '': '' @ the (map_of hs k) @ crlf)
     (sort (map fst hs)))"

definition scale_filter :: "int \<Rightarrow> string" where
  "scale_filter h =
     (if 0 < h then ''scale=w=-2:h='' @ [CHR 0x27] @ ''trunc(min(ih'' @ [CHR 0x5C, CHR '',''] @ show_int h @
        '')/2)*2'' @ [CHR 0x27]
      else ''scale=trunc(iw/2)*2:trunc(ih/2)*2'')"

definition output_args :: "profile \<Rightarrow> string list" where
  "output_args p =
     [''-map'', ''0:v:0'', ''-map'', ''0:a:0?'', ''-sn'', ''-dn'',
      ''-vsync'', ''cfr'', ''-c:v'', ''libx264'', ''-preset'', video_preset p,
      ''-profile:v'', ''main'', ''-bf'', ''0'', ''-flags'', ''+cgop'',
      ''-x264-params'', ''repeat-headers=1:aud=1'', ''-crf'', show_int (video_crf p),
      ''-pix_fmt'', ''yuv420p'', ''-g'', ''50'', ''-keyint_min'', ''25'',
      ''-sc_threshold'', ''0'', ''-bsf:v'', ''dump_extra'', ''-c:a'', ''aac'',
      ''-b:a'', show_int (audio_bitrate_kbps p) @ ''k'', ''-ar'', ''48000'', ''-ac'', ''2'',
      ''-vf'', scale_filter (max_height p), ''-mpegts_flags'', ''+resend_headers'',
      ''-muxdelay'', ''0.1'', ''-muxpreload'', ''0.1'', ''-pcr_period'', ''20'',
      ''-avoid_negative_ts'', ''make_zero'', ''-f'', ''mpegts'', ''pipe:1'']"

definition build_args :: "profile \<Rightarrow> upstream \<Rightarrow> string + string list" where
  "build_args p up =
     (if blank (up_url up) then Inl ''upstream url is required''
      else bindE (scan_headers (up_headers up) (default_user_agent, [])) (\<lambda>(ua, hs).
        Inr ([''-hide_banner'', ''-loglevel'', ''warning'', ''-nostdin'',
              ''-protocol_whitelist'', ''http,https,tcp,tls,crypto,httpproxy'',
              ''-user_agent'', ua, ''-fflags'', ''+genpts'']
            @ (if header_block hs \<noteq> [] then [''-headers'', header_block hs] else [])
            @ [''-i'', up_url up] @ output_args p)))"

lemma scan_headers_safe:
  "scan_headers hs (ua, out) = Inr (ua', out') \<Longrightarrow> amap out \<Longrightarrow>
   \<not> header_unsafe ua \<Longrightarrow> \<forall>(k, v) \<in> set out. \<not> header_unsafe k \<and> \<not> header_unsafe v \<Longrightarrow>
   amap out' \<and> \<not> header_unsafe ua' \<and> (\<forall>(k, v) \<in> set out'. \<not> header_unsafe k \<and> \<not> header_unsafe v)"
proof (induction hs "(ua, out)" arbitrary: ua out rule: scan_headers.induct)
  case (2 k0 v hs ua out)
  have put: "\<forall>(k', v') \<in> set (aput k v out). \<not> header_unsafe k' \<and> \<not> header_unsafe v'"
    if "\<not> header_unsafe k" "\<not> header_unsafe v"
       "\<forall>(k, v) \<in> set out. \<not> header_unsafe k \<and> \<not> header_unsafe v" for k
    using that by (induction k v out rule: aput.induct) auto
  show ?case
    using 2 put by (auto simp: Let_def split: if_splits)
qed simp

lemma header_unsafe_append [simp]: "header_unsafe (s @ t) \<longleftrightarrow> header_unsafe s \<or> header_unsafe t"
  by (auto simp: header_unsafe_def)

text \<open>The lines of the header block: one per header, no line break inside any of them.\<close>

definition header_lines :: "headers \<Rightarrow> string list" where
  "header_lines hs = map (\<lambda>k. k @ '': '' @ the (map_of hs k)) (sort (map fst hs))"

lemma header_block_lines: "header_block hs = concat (map (\<lambda>l. l @ crlf) (header_lines hs))"
  by (simp only: header_block_def header_lines_def map_map o_def append_assoc)

lemma header_lines_safe:
  assumes "\<forall>(k, v) \<in> set hs. \<not> header_unsafe k \<and> \<not> header_unsafe v"
  shows "\<forall>l \<in> set (header_lines hs). \<not> header_unsafe l"
proof -
  have "\<not> header_unsafe (k @ '': '' @ the (map_of hs k))" if "k \<in> fst ` set hs" for k
  proof -
    from that obtain x where "(k, x) \<in> set hs" by auto
    then obtain v where v: "map_of hs k = Some v" using weak_map_of_SomeI by fast
    from map_of_SomeD [OF this] assms have "\<not> header_unsafe k" "\<not> header_unsafe v" by auto
    with v show ?thesis by (simp add: header_unsafe_def)
  qed
  then show ?thesis by (auto simp: header_lines_def)
qed

section \<open>process_unix.go\<close>

datatype signal = SIGTERM | SIGKILL

text \<open>The signals sent to the process group, with their times: the escalation is cancelled when
  the returned function runs before the grace time is over.\<close>

definition terminate_signals :: "bool \<Rightarrow> int \<Rightarrow> int option \<Rightarrow> (int \<times> signal) list" where
  "terminate_signals started grace cancelled =
     (if \<not> started then []
      else (0, SIGTERM) #
        (case cancelled of
           Some t \<Rightarrow> (if t < grace then [] else [(grace, SIGKILL)])
         | None \<Rightarrow> [(grace, SIGKILL)]))"

section \<open>Properties\<close>

text \<open>C29: Normalising a profile gives a usable one (non-blank path and preset, CRF within 0 to 51,
  positive bitrate and timeout) and changes nothing when the profile is usable already.\<close>

theorem normalize_profile_canonical:
  "valid_profile (normalize_profile p) \<and>
   (normalize_profile p = p \<longleftrightarrow> valid_profile p)"
  using normalize_profile_valid [of p] normalize_profile_id [of p] by metis



end
