(* ===== verification/Mpegts.thy ===== *)
theory Mpegts
  imports Prelude "HOL-Library.Word"
begin

unbundle bit_operations_syntax

text \<open>
  \<^verbatim>\<open>internal/core/mpegts/frame.go\<close>: framing of MPEG-TS byte streams into packets of 188 bytes
  and the header bits the relay looks at.  A byte is a word of 8 bits.

  \<open>extract_framed\<close> is called on every read with the bytes carried over from the last one
  (\<open>feed\<close>, the part of \<^verbatim>\<open>copyMPEGTS\<close> in \<^verbatim>\<open>internal/core/stream/copy.go\<close> that depends on it).  The locale
  \<open>framing\<close> is what that client needs of a framer; it shows that the packets delivered do not
  depend on how the bytes were cut into reads.
\<close>

type_synonym byte = "8 word"

definition packet_size :: nat where "packet_size = 188"
definition sync_byte :: byte where "sync_byte = 0x47"

section \<open>frame.go\<close>

fun find_sync :: "byte list \<Rightarrow> nat option" where
  "find_sync [] = None"
| "find_sync (b # bs) = (if b = sync_byte then Some 0 else map_option Suc (find_sync bs))"

text \<open>The bytes of the whole packets in front, as the loop on \<^verbatim>\<open>end\<close> counts them.\<close>

function framed_len :: "byte list \<Rightarrow> nat" where
  "framed_len bs =
     (if packet_size \<le> length bs \<and> hd bs = sync_byte
      then packet_size + framed_len (drop packet_size bs) else 0)"
  by pat_completeness auto
termination
  by (relation "measure length") (auto simp: packet_size_def)

declare framed_len.simps [simp del]

definition extract_framed :: "byte list \<Rightarrow> byte list \<times> byte list" where
  "extract_framed bs = (case find_sync bs of
      None \<Rightarrow>
        (if packet_size - 1 < length bs then ([], drop (length bs - (packet_size - 1)) bs)
         else ([], bs))
    | Some start \<Rightarrow>
        let n = framed_len (drop start bs)
        in if n = 0 then ([], drop start bs)
           else (take n (drop start bs), drop (start + n) bs))"

definition framed :: "byte list \<Rightarrow> byte list option" where
  "framed bs =
     (let f = fst (extract_framed bs) in if length f < packet_size then None else Some f)"

definition pid :: "byte list \<Rightarrow> 16 word" where
  "pid pkt =
     (if length pkt < 3 then 0
      else push_bit 8 (ucast (pkt ! 1 AND 0x1f)) OR ucast (pkt ! 2))"

definition has_pusi :: "byte list \<Rightarrow> bool" where
  "has_pusi pkt \<longleftrightarrow> 1 < length pkt \<and> pkt ! 1 AND 0x40 \<noteq> 0"

definition has_random_access :: "byte list \<Rightarrow> bool" where
  "has_random_access pkt \<longleftrightarrow>
     (if length pkt < 6 \<or> pkt ! 0 \<noteq> sync_byte then False
      else let afc = drop_bit 4 (pkt ! 3) AND 0x3; af_len = unat (pkt ! 4)
           in (afc = 2 \<or> afc = 3) \<and> \<not> (af_len < 1 \<or> length pkt < 5 + af_len)
              \<and> pkt ! 5 AND 0x40 \<noteq> 0)"

section \<open>Facts about framing\<close>

text \<open>A run of packets: whole packets, each with the sync byte in front.\<close>

definition packets :: "byte list \<Rightarrow> bool" where
  "packets bs \<longleftrightarrow> packet_size dvd length bs \<and>
     (\<forall>i < length bs div packet_size. bs ! (i * packet_size) = sync_byte)"

text \<open>A well-formed stream cut anywhere: the sync byte at every multiple of the packet size.\<close>

definition aligned :: "byte list \<Rightarrow> bool" where
  "aligned bs \<longleftrightarrow> (\<forall>i < length bs. packet_size dvd i \<longrightarrow> bs ! i = sync_byte)"

lemma find_sync_None: "find_sync bs = None \<longleftrightarrow> sync_byte \<notin> set bs"
  by (induction bs) auto

lemma find_sync_Some:
  "find_sync bs = Some i \<Longrightarrow> i < length bs \<and> bs ! i = sync_byte \<and> sync_byte \<notin> set (take i bs)"
  by (induction bs arbitrary: i) (auto split: if_splits)

lemma find_sync_skip: "sync_byte \<notin> set g \<Longrightarrow>
  find_sync (g @ bs) = map_option (\<lambda>i. length g + i) (find_sync bs)"
  by (induction g; cases "find_sync bs") auto

lemma framed_len_0: "\<not> (packet_size \<le> length bs \<and> hd bs = sync_byte) \<Longrightarrow> framed_len bs = 0"
  by (subst framed_len.simps) (simp only: if_False)

lemma framed_len_step: "packet_size \<le> length bs \<Longrightarrow> hd bs = sync_byte \<Longrightarrow>
  framed_len bs = packet_size + framed_len (drop packet_size bs)"
  by (subst framed_len.simps) simp

lemma framed_len_le: "framed_len bs \<le> length bs"
proof (induction bs rule: framed_len.induct)
  case (1 bs)
  then show ?case by (subst framed_len.simps) (auto simp: packet_size_def)
qed

lemma framed_len_dvd: "packet_size dvd framed_len bs"
proof (induction bs rule: framed_len.induct)
  case (1 bs)
  then show ?case by (subst framed_len.simps) auto
qed

lemma packets_Nil [simp]: "packets []"
  by (simp add: packets_def)

lemma packets_append:
  assumes "packets a" "packets b"
  shows "packets (a @ b)"
proof -
  obtain k where k: "length a = k * packet_size"
    using assms(1) by (auto simp: packets_def dvd_def mult.commute)
  have "(a @ b) ! (i * packet_size) = sync_byte" if i: "i < length (a @ b) div packet_size" for i
  proof (cases "i < k")
    case True
    then have "i * packet_size < length a" by (simp add: k packet_size_def)
    with True assms(1) k show ?thesis by (simp add: nth_append packets_def packet_size_def)
  next
    case False
    then have "i * packet_size = length a + (i - k) * packet_size"
      by (simp add: k algebra_simps flip: add_mult_distrib)
    moreover from False i k have "i - k < length b div packet_size"
      by (simp add: packet_size_def)
    ultimately show ?thesis using assms(2) by (simp add: packets_def nth_append)
  qed
  with assms show ?thesis by (simp add: packets_def)
qed

lemma packets_framed: "packets (take (framed_len bs) bs)"
proof (induction bs rule: framed_len.induct)
  case (1 bs)
  show ?case
  proof (cases "packet_size \<le> length bs \<and> hd bs = sync_byte")
    case True
    let ?r = "drop packet_size bs"
    have "take (framed_len bs) bs = take packet_size bs @ take (framed_len ?r) ?r"
      using True by (simp add: framed_len_step take_add)
    moreover have "packets (take packet_size bs)"
      using True by (cases bs) (auto simp: packets_def packet_size_def)
    ultimately show ?thesis using 1 True packets_append by simp
  qed (simp add: framed_len_0)
qed

text \<open>What is left does not start with a whole packet.\<close>

lemma framed_len_maximal:
  "length (drop (framed_len bs) bs) < packet_size \<or> hd (drop (framed_len bs) bs) \<noteq> sync_byte"
proof (induction bs rule: framed_len.induct)
  case (1 bs)
  show ?case
  proof (cases "packet_size \<le> length bs \<and> hd bs = sync_byte")
    case True
    then have "framed_len bs = packet_size + framed_len (drop packet_size bs)"
      by (simp add: framed_len_step)
    with 1 True show ?thesis by (simp add: add.commute)
  next
    case False
    then have "framed_len bs = 0" by (rule framed_len_0)
    with False show ?thesis by auto
  qed
qed

lemma extract_framed_sync:
  assumes "find_sync bs = Some s"
  shows "fst (extract_framed bs) @ snd (extract_framed bs) = drop s bs"
    and "fst (extract_framed bs) = take (framed_len (drop s bs)) (drop s bs)"
proof -
  have "drop (s + framed_len (drop s bs)) bs = drop (framed_len (drop s bs)) (drop s bs)"
    by (simp add: add.commute)
  with assms show "fst (extract_framed bs) @ snd (extract_framed bs) = drop s bs"
    by (simp add: extract_framed_def Let_def del: drop_drop)
  from assms show "fst (extract_framed bs) = take (framed_len (drop s bs)) (drop s bs)"
    by (simp add: extract_framed_def Let_def)
qed

lemma extract_framed_packets: "packets (fst (extract_framed bs))"
  by (cases "find_sync bs")
     (simp_all add: extract_framed_sync(2) packets_framed, simp add: extract_framed_def)

lemma aligned_drop: "aligned bs \<Longrightarrow> aligned (drop packet_size bs)"
  by (auto simp: aligned_def packet_size_def)

lemma framed_len_aligned: "aligned bs \<Longrightarrow> framed_len bs = length bs div packet_size * packet_size"
proof (induction bs rule: framed_len.induct)
  case (1 bs)
  show ?case
  proof (cases "packet_size \<le> length bs")
    case True
    then have "hd bs = sync_byte"
      using 1(2) by (cases bs) (auto simp: aligned_def packet_size_def)
    with 1 True have "framed_len bs =
        packet_size + length (drop packet_size bs) div packet_size * packet_size"
      by (simp add: framed_len_step aligned_drop)
    with True show ?thesis
      by (simp add: packet_size_def le_div_geq)
  next
    case False
    then show ?thesis by (simp add: framed_len_0)
  qed
qed

lemma find_sync_aligned: "aligned bs \<Longrightarrow> bs \<noteq> [] \<Longrightarrow> find_sync bs = Some 0"
proof -
  assume "aligned bs" "bs \<noteq> []"
  then have "bs ! 0 = sync_byte" unfolding aligned_def by blast
  with \<open>bs \<noteq> []\<close> show ?thesis by (cases bs) simp_all
qed

lemma aligned_take: "aligned bs \<Longrightarrow> aligned (take n bs)"
  by (auto simp: aligned_def)

text \<open>The whole packets in front of an aligned stream, and what is left of it.\<close>

definition whole :: "nat \<Rightarrow> nat" where "whole n = n div packet_size * packet_size"

lemma extract_framed_aligned:
  assumes "aligned bs"
  shows "extract_framed bs = (take (whole (length bs)) bs, drop (whole (length bs)) bs)"
proof (cases bs)
  case Nil
  then show ?thesis by (simp add: extract_framed_def whole_def)
next
  case (Cons b r)
  have "find_sync bs = Some 0"
    by (rule find_sync_aligned [OF assms]) (simp add: Cons)
  with framed_len_aligned [OF assms] show ?thesis
    by (auto simp: extract_framed_def Let_def whole_def)
qed

section \<open>Reads of any size\<close>

text \<open>What \<^verbatim>\<open>copyMPEGTS\<close> does with one read: frame the carry and the new bytes, deliver the
  packets, carry the rest over.\<close>

definition feed :: "('b list \<Rightarrow> 'b list \<times> 'b list) \<Rightarrow> 'b list \<times> 'b list \<Rightarrow> 'b list
    \<Rightarrow> 'b list \<times> 'b list" where
  "feed split st chunk =
     (let (f, rest) = split (fst st @ chunk) in (rest, snd st @ f))"

text \<open>
  The interface of a framer: on a well-formed stream (\<open>ok\<close>) it cuts at the last packet
  boundary, \<open>whole\<close>; bytes that cannot start a packet (\<open>junk\<close>) deliver nothing and do not
  hinder what follows them.
\<close>

lemma feed_eq: "feed split st c =
  (snd (split (fst st @ c)), snd st @ fst (split (fst st @ c)))"
  by (simp add: feed_def case_prod_beta)

locale framing =
  fixes split :: "'b list \<Rightarrow> 'b list \<times> 'b list"
    and ok :: "'b list \<Rightarrow> bool" and junk :: "'b list \<Rightarrow> bool" and boundary :: "nat \<Rightarrow> nat"
  assumes split_ok: "ok bs \<Longrightarrow> split bs = (take (boundary (length bs)) bs, drop (boundary (length bs)) bs)"
    and split_junk: "junk g \<Longrightarrow> fst (split g) = [] \<and> junk (snd (split g))"
    and split_skip: "junk g \<Longrightarrow> ok bs \<Longrightarrow> bs \<noteq> [] \<Longrightarrow> split (g @ bs) = split bs"
    and ok_take: "ok (a @ b) \<Longrightarrow> ok a"
    and ok_drop: "ok bs \<Longrightarrow> ok (drop (boundary n) bs)"
    and junk_append: "junk (a @ b) \<longleftrightarrow> junk a \<and> junk b"
    and junk_Nil: "junk []"
    and boundary_le: "boundary n \<le> n"
    and boundary_add: "boundary (boundary m + n) = boundary m + boundary n"
begin

lemma feed_ok:
  assumes "ok (a @ c)"
  shows "feed split (drop (boundary (length a)) a, take (boundary (length a)) a) c =
    (drop (boundary (length (a @ c))) (a @ c), take (boundary (length (a @ c))) (a @ c))"
proof -
  define w where "w = boundary (length a)"
  have w: "w \<le> length a" unfolding w_def by (rule boundary_le)
  have d: "drop w a @ c = drop w (a @ c)" using w by simp
  have "ok (drop w a @ c)" unfolding d unfolding w_def by (rule ok_drop) (rule assms)
  then have "split (drop w a @ c) = (take (boundary (length (drop w a @ c))) (drop w a @ c),
      drop (boundary (length (drop w a @ c))) (drop w a @ c))"
    by (rule split_ok)
  moreover have "boundary (length (a @ c)) = w + boundary (length (drop w a @ c))"
    using boundary_add [of "length a" "length (drop w a @ c)"] w by (simp add: w_def)
  ultimately show ?thesis
    using w by (simp add: feed_eq take_add add.commute flip: w_def)
qed

lemma feeds:
  "ok bs \<Longrightarrow> junk g \<Longrightarrow> concat cs = g @ bs \<Longrightarrow>
   (if bs = [] then snd (foldl (feed split) ([], []) cs) = [] \<and> junk (fst (foldl (feed split) ([], []) cs))
    else foldl (feed split) ([], []) cs =
      (drop (boundary (length bs)) bs, take (boundary (length bs)) bs))"
proof (induction cs arbitrary: g bs rule: rev_induct)
  case Nil
  then show ?case by (simp add: junk_Nil)
next
  case (snoc c cs)
  let ?st = "foldl (feed split) ([], []) cs"
  have eq: "concat cs @ c = g @ bs" using snoc.prems(3) by simp
  have start: ?case if "snd ?st = []" "junk (fst ?st)" "c = c1 @ bs" "junk c1" for c1
  proof -
    have "junk (fst ?st @ c1)" using that by (simp add: junk_append)
    from split_junk [OF this] split_skip [OF this snoc.prems(1)] that show ?thesis
      by (cases "bs = []") (simp_all add: feed_eq split_ok [OF snoc.prems(1)])
  qed
  from eq consider (before) c1 where "g = concat cs @ c1" "c = c1 @ bs"
    | (within) b1 where "concat cs = g @ b1" "bs = b1 @ c"
    by (auto simp: append_eq_append_conv2)
  then show ?case
  proof cases
    case before
    have oke: "ok []" using ok_take [of "[]" bs] snoc.prems(1) by simp
    from before snoc.prems(2) have "junk (concat cs)" "junk c1" by (simp_all add: junk_append)
    with snoc.IH [OF oke, of "concat cs"] before show ?thesis by (intro start [of c1]) simp_all
  next
    case within
    have okb: "ok b1" using ok_take within snoc.prems(1) by simp
    show ?thesis
    proof (cases "b1 = []")
      case True
      with snoc.IH [OF okb snoc.prems(2) within(1)] within show ?thesis
        by (intro start [of "[]"]) (simp_all add: junk_Nil)
    next
      case False
      with snoc.IH [OF okb snoc.prems(2) within(1)] have "?st =
        (drop (boundary (length b1)) b1, take (boundary (length b1)) b1)" by simp
      with feed_ok [of b1 c] snoc.prems(1) within False show ?thesis by simp
    qed
  qed
qed

lemma feeds_out:
  assumes "ok bs" "junk g" "concat cs = g @ bs"
  shows "snd (foldl (feed split) ([], []) cs) = take (boundary (length bs)) bs"
  using feeds [OF assms] by (auto split: if_splits)

end

lemma sync_free_extract: "sync_byte \<notin> set g \<Longrightarrow>
  fst (extract_framed g) = [] \<and> sync_byte \<notin> set (snd (extract_framed g))"
proof -
  assume "sync_byte \<notin> set g"
  then have "find_sync g = None" "\<forall>n. sync_byte \<notin> set (drop n g)"
    by (auto simp: find_sync_None dest: in_set_dropD)
  then show ?thesis using \<open>sync_byte \<notin> set g\<close> by (simp add: extract_framed_def)
qed

lemma extract_framed_skip:
  assumes "sync_byte \<notin> set g" "aligned bs" "bs \<noteq> []"
  shows "extract_framed (g @ bs) = extract_framed bs"
proof -
  have "find_sync (g @ bs) = Some (length g)" "find_sync bs = Some 0"
    using find_sync_skip [OF assms(1), of bs] find_sync_aligned [OF assms(2,3)] by simp_all
  then show ?thesis by (simp add: extract_framed_def Let_def)
qed

lemma whole_le: "whole n \<le> n"
  by (simp add: whole_def)

lemma whole_add: "whole (whole m + n) = whole m + whole n"
  by (simp add: whole_def packet_size_def algebra_simps)

lemma aligned_drop_whole:
  assumes "aligned bs"
  shows "aligned (drop (whole n) bs)"
  unfolding aligned_def
proof (intro allI impI)
  fix i
  assume i: "i < length (drop (whole n) bs)" "packet_size dvd i"
  have "packet_size dvd whole n + i" using i(2) by (simp add: whole_def)
  with i(1) assms show "drop (whole n) bs ! i = sync_byte" by (simp add: aligned_def)
qed

interpretation mpegts: framing extract_framed aligned "\<lambda>g. sync_byte \<notin> set g" whole
proof
  show "aligned (a @ b) \<Longrightarrow> aligned a" for a b
    using aligned_take [of "a @ b" "length a"] by simp
qed (simp_all add: extract_framed_aligned sync_free_extract extract_framed_skip whole_le whole_add
    aligned_drop_whole)

section \<open>Loss of alignment\<close>

text \<open>
  One call emits one run only: a packet followed by a byte that is not the sync byte ends it.
  A stream of packets with such a byte between them (204-byte or 192-byte packets, say) yields
  one packet per read, however many packets the read brings.
\<close>

definition spaced :: "byte list \<Rightarrow> byte list \<Rightarrow> nat \<Rightarrow> byte list" where
  "spaced pkt gap m = concat (replicate m (pkt @ gap))"

definition gapped :: "byte list \<Rightarrow> byte list \<Rightarrow> bool" where
  "gapped pkt gap \<longleftrightarrow>
     length pkt = packet_size \<and> hd pkt = sync_byte \<and> gap \<noteq> [] \<and> sync_byte \<notin> set gap"

lemma spaced_add: "spaced pkt gap (m + n) = spaced pkt gap m @ spaced pkt gap n"
  by (simp add: spaced_def replicate_add)

lemma length_spaced: "length (spaced pkt gap m) = m * (length pkt + length gap)"
  by (induction m) (simp_all add: spaced_def)

lemma extract_framed_one:
  assumes "gapped pkt gap" "sync_byte \<notin> set g"
  shows "extract_framed (g @ pkt @ gap @ rest) = (pkt, gap @ rest)"
proof -
  obtain p where p: "pkt = sync_byte # p" "length p = 187"
    using assms(1) by (cases pkt) (auto simp: gapped_def packet_size_def)
  obtain h t where gap: "gap = h # t" "h \<noteq> sync_byte"
    using assms(1) by (cases gap) (auto simp: gapped_def)
  have "find_sync (g @ pkt @ gap @ rest) = Some (length g)"
    using find_sync_skip [OF assms(2), of "pkt @ gap @ rest"] p by simp
  moreover have "framed_len (pkt @ gap @ rest) = packet_size"
    using framed_len_step [of "pkt @ gap @ rest"] framed_len_0 [of "gap @ rest"] p gap
    by (simp add: packet_size_def)
  ultimately show ?thesis using p by (simp add: extract_framed_def packet_size_def)
qed

text \<open>After \<open>k\<close> reads of \<open>m\<close> packets each, \<open>k\<close> packets are out and the others in the carry.\<close>

lemma feed_spaced:
  assumes "gapped pkt gap" "0 < m" "0 < k"
  shows "foldl (feed extract_framed) ([], []) (replicate k (spaced pkt gap m)) =
    (gap @ spaced pkt gap (k * m - k), concat (replicate k pkt))"
  using \<open>0 < k\<close>
proof (induction k rule: nat_induct_non_zero)
  case 1
  obtain n where n: "m = Suc n" using assms(2) by (cases m) simp_all
  have "spaced pkt gap m = [] @ pkt @ gap @ spaced pkt gap n"
    by (simp add: n spaced_def)
  with extract_framed_one [OF assms(1), of "[]" "spaced pkt gap n"] n show ?case
    by (simp add: feed_eq)
next
  case (Suc k)
  have m: "k * m - k + m = Suc (Suc k * m - Suc k)"
    using assms(2) by (cases m) simp_all
  have "gap @ spaced pkt gap (k * m - k) @ spaced pkt gap m =
        gap @ pkt @ gap @ spaced pkt gap (Suc k * m - Suc k)"
    by (simp flip: spaced_add add: m) (simp add: spaced_def)
  moreover have "sync_byte \<notin> set gap" using assms(1) by (simp add: gapped_def)
  moreover have rs: "replicate (Suc k) x = replicate k x @ [x]" for x :: "byte list"
    by (simp add: replicate_append_same)
  ultimately show ?case
    using extract_framed_one [OF assms(1), of gap] Suc.IH
    unfolding rs by (simp add: feed_eq)
qed

section \<open>Properties\<close>

text \<open>C13: However an MPEG-TS stream is cut into reads, and whatever bytes without a sync byte
  come before it, the relay delivers exactly its whole packets, in order.\<close>

theorem reads_deliver_packets:
  assumes "aligned bs" "sync_byte \<notin> set g" "concat chunks = g @ bs"
  shows "snd (foldl (feed extract_framed) ([], []) chunks) =
    take (length bs div packet_size * packet_size) bs"
  using mpegts.feeds_out [OF assms] by (simp add: whole_def)

lemma reads_deliver_packets_witness:
  "snd (foldl (feed extract_framed) ([], [])
     [[0, 1], [2, 0x47] @ replicate 100 0, replicate 87 0 @ [0x47, 1]]) =
   0x47 # replicate 187 0"
proof -
  let ?bs = "(0x47 # replicate 187 0) @ [0x47, 1 :: byte]"
  have al: "aligned ?bs"
    unfolding aligned_def
  proof (intro allI impI)
    fix i assume i: "i < length ?bs" "packet_size dvd i"
    then obtain q where q: "i = 188 * q" by (auto simp: packet_size_def dvd_def)
    with i(1) have "q = 0 \<or> q = 1" by auto
    with q show "?bs ! i = sync_byte" by (auto simp: sync_byte_def nth_append)
  qed
  have "concat [[0, 1], [2, 0x47] @ replicate 100 0, replicate 87 0 @ [0x47, 1]] =
    [0, 1, 2] @ ?bs"
    using replicate_add [of 100 87 "0::byte"] by simp
  from reads_deliver_packets [OF al _ this] show ?thesis by (simp add: sync_byte_def packet_size_def)
qed

text \<open>C27: What extract_framed returns is cut from the input without a byte lost after the first
  sync byte: whole packets, each starting with the sync byte, followed by the carry, which
  holds no further whole packet at its start.\<close>

theorem extract_framed_spec:
  "(case find_sync bs of
      None \<Rightarrow> fst (extract_framed bs) = [] \<and>
        snd (extract_framed bs) = drop (length bs - (packet_size - 1)) bs
    | Some s \<Rightarrow>
        fst (extract_framed bs) @ snd (extract_framed bs) = drop s bs \<and>
        packets (fst (extract_framed bs)) \<and>
        \<not> (packet_size \<le> length (snd (extract_framed bs)) \<and>
           hd (snd (extract_framed bs)) = sync_byte))"
proof (cases "find_sync bs")
  case None
  then show ?thesis by (simp add: extract_framed_def)
next
  case (Some s)
  let ?d = "drop s bs"
  have "fst (extract_framed bs) = take (framed_len ?d) ?d"
    by (rule extract_framed_sync(2) [OF Some])
  with extract_framed_sync(1) [OF Some]
  have "snd (extract_framed bs) = drop (framed_len ?d) ?d"
    by (metis append_take_drop_id same_append_eq)
  with Some framed_len_maximal [of ?d] extract_framed_sync(1) [OF Some]
    extract_framed_packets [of bs]
  show ?thesis by auto
qed

text \<open>C28: A stream whose packets are followed by extra bytes (packets of 192 or 204 bytes) yields
  one packet per read, whatever the read brings, and the carry grows without bound.\<close>

theorem extra_bytes_grow_carry:
  assumes "gapped pkt gap" "0 < m" "0 < k"
  shows "snd (foldl (feed extract_framed) ([], []) (replicate k (spaced pkt gap m))) =
      concat (replicate k pkt) \<and>
    length (fst (foldl (feed extract_framed) ([], []) (replicate k (spaced pkt gap m)))) =
      length gap + (k * m - k) * (188 + length gap)"
  using feed_spaced [OF assms] assms(1)
  by (simp add: length_spaced gapped_def packet_size_def)

lemma extra_bytes_grow_carry_witness:
  "length (fst (foldl (feed extract_framed) ([], [])
     (replicate 1000 (spaced (0x47 # replicate 187 0) [0, 0, 0, 0] 32)))) = 5952004"
  using extra_bytes_grow_carry [of "0x47 # replicate 187 0" "[0, 0, 0, 0]" 32 1000]
  by (simp add: gapped_def packet_size_def sync_byte_def)

end
