(* ===== verification/Session.thy ===== *)
theory Session
  imports Transcode Mpegts
begin

text \<open>
  \<^verbatim>\<open>internal/core/stream/session.go\<close>: the live session of one channel, shared by its viewers.

  The record \<open>session\<close> has the fields of the Go struct.  A viewer's channel is the list of the
  chunks queued in it and its capacity; the map of viewers is the list of all viewers ever
  added, where \<open>v_in\<close> says that the viewer is still in the map (a reader goes on draining the
  channel of a viewer that left it).  A cancel function is the number of the pump context it
  cancels, \<open>s_cancelled\<close> are the contexts cancelled so far.  \<open>s_ready_done\<close> says that
  \<^verbatim>\<open>readyOnce\<close> has run, which is when \<^verbatim>\<open>readyCh\<close> is closed.  Each operation is one critical
  section of the session's mutex, or a sequence of them that no other goroutine can tell from
  one; the time of day is an argument.
\<close>

section \<open>Errors and status\<close>

text \<open>The sentinel errors, errors with a text of their own, and \<^verbatim>\<open>fmt.Errorf\<close> with \<^verbatim>\<open>%w\<close> twice.\<close>

datatype stream_err =
    ErrClosed | ErrUpstreamFailed | ErrReadyTimeout | ErrStaleRevision | ErrChannelBlocked
  | ErrStreamEnded | ErrSessionStopped | ErrCanceled | ErrEOF
  | ErrMsg string | ErrPair stream_err stream_err

fun err_text :: "stream_err \<Rightarrow> string" where
  "err_text ErrClosed = ''stream manager closed''"
| "err_text ErrUpstreamFailed = ''stream upstream failed''"
| "err_text ErrReadyTimeout = ''stream readiness timeout''"
| "err_text ErrStaleRevision = ''stream channel revision is stale''"
| "err_text ErrChannelBlocked = ''stream channel is blocked''"
| "err_text ErrStreamEnded = ''stream ended''"
| "err_text ErrSessionStopped = ''stream session stopped''"
| "err_text ErrCanceled = ''context canceled''"
| "err_text ErrEOF = ''EOF''"
| "err_text (ErrMsg m) = m"
| "err_text (ErrPair a b) = err_text a @ '': '' @ err_text b"

text \<open>\<^verbatim>\<open>errors.Is\<close> of an error that may be nil.\<close>

fun err_is :: "stream_err \<Rightarrow> stream_err \<Rightarrow> bool" where
  "err_is (ErrPair a b) t \<longleftrightarrow> ErrPair a b = t \<or> err_is a t \<or> err_is b t"
| "err_is e t \<longleftrightarrow> e = t"

definition errors_is :: "stream_err option \<Rightarrow> stream_err \<Rightarrow> bool" where
  "errors_is e t = (case e of None \<Rightarrow> False | Some x \<Rightarrow> err_is x t)"

record status =
  st_channel :: string
  st_state :: string
  st_viewers :: nat
  st_last_error :: string
  st_bytes_sent :: nat
  st_connected_at :: string
  st_upstream_id :: string
  st_upstream_host :: string

record options =
  o_buffer_size :: nat
  o_idle_timeout :: int
  o_conn_timeout :: int

section \<open>The session\<close>

record viewer =
  v_id :: nat
  v_ch :: "byte list list"
  v_cap :: nat
  v_closed :: bool
  v_wait_keyframe :: bool
  v_in :: bool

record session =
  s_channel :: string
  s_epoch :: nat
  s_opts :: options
  s_profile :: profile
  s_ready_timeout :: int
  s_source :: source
  s_upstream :: upstream
  s_current_index :: int
  s_candidate_index :: int
  s_attempts :: nat
  s_ready_watch :: bool
  s_viewers :: "viewer list"
  s_next_id :: nat
  s_state :: string
  s_last_error :: string
  s_bytes_sent :: nat
  s_connected :: string
  s_pat :: "byte list"
  s_pmts :: "(16 word \<times> byte list) list"
  s_seen_rai :: bool
  s_pump_cancel :: "nat option"
  s_next_pump :: nat
  s_cancelled :: "nat list"
  s_stopped :: bool
  s_attempt_timed_out :: bool
  s_ready_done :: bool
  s_ready_err :: "stream_err option"
  s_ever_ready :: bool

definition no_upstream :: upstream where
  "no_upstream = \<lparr> up_id = [], up_url = [], up_headers = [], up_candidates = [],
     up_transcode = False, up_revision = [] \<rparr>"

section \<open>The walk over upstreams and their fetch URLs\<close>

text \<open>The index the code uses: out of range is 0.\<close>

definition clamp_index :: "int \<Rightarrow> nat \<Rightarrow> nat" where
  "clamp_index i n = (if i < 0 \<or> int n \<le> i then 0 else nat i)"

definition apply_current_upstream :: "session \<Rightarrow> session" where
  "apply_current_upstream s =
     (let ups = src_upstreams (s_source s) in
      if ups = [] then s
      else let idx = clamp_index (s_current_index s) (length ups);
               up = ups ! idx;
               cands = fetch_urls up;
               ci = clamp_index (s_candidate_index s) (length cands)
           in s\<lparr>s_current_index := int idx,
                s_candidate_index := int ci,
                s_upstream := up\<lparr>up_url := (if cands \<noteq> [] then cands ! ci else up_url up),
                  up_transcode := src_transcode (s_source s),
                  up_revision := src_revision (s_source s)\<rparr>,
                s_pat := [], s_pmts := [], s_seen_rai := False\<rparr>)"

definition current_cands :: "session \<Rightarrow> string list" where
  "current_cands s =
     (let ups = src_upstreams (s_source s)
      in fetch_urls (ups ! clamp_index (s_current_index s) (length ups)))"

definition advance :: "session \<Rightarrow> session" where
  "advance s =
     (let n = length (src_upstreams (s_source s)) in
      if n = 0 then s
      else if s_candidate_index s + 1 < int (length (current_cands s))
      then s\<lparr>s_candidate_index := s_candidate_index s + 1\<rparr>
      else if is_fallback (s_source s)
      then s\<lparr>s_candidate_index := 0,
             s_current_index := int (Suc (clamp_index (s_current_index s) n) mod n)\<rparr>
      else s\<lparr>s_candidate_index := 0\<rparr>)"

definition should_walk :: "session \<Rightarrow> bool" where
  "should_walk s \<longleftrightarrow>
     (if is_fallback (s_source s) then True
      else if src_upstreams (s_source s) = [] then False
      else 1 < length (current_cands s))"

definition attempt_budget :: "session \<Rightarrow> nat" where
  "attempt_budget s =
     (if is_fallback (s_source s)
      then sum_list (map (\<lambda>u. max 1 (length (fetch_urls u))) (src_upstreams (s_source s)))
      else if src_upstreams (s_source s) = [] then 1
      else max 1 (length (current_cands s)))"

definition new_session :: "(nat \<Rightarrow> nat) \<Rightarrow> string \<Rightarrow> source \<Rightarrow> options \<Rightarrow> profile \<Rightarrow> session" where
  "new_session roll ch src0 opts prof =
     (let src = (case normalize_source src0 of None \<Rightarrow>
            \<lparr> src_policy = [], src_upstreams = [], src_fixed_index = 0, src_transcode = False,
              src_revision = [] \<rparr> | Some s \<Rightarrow> s);
          rt = (if src_transcode src
                then (if startup_timeout prof \<le> 0 then seconds 30 else startup_timeout prof)
                else o_conn_timeout opts)
      in apply_current_upstream
           \<lparr> s_channel = ch, s_epoch = 0, s_opts = opts, s_profile = prof, s_ready_timeout = rt,
             s_source = src, s_upstream = no_upstream, s_current_index = start_index roll src,
             s_candidate_index = 0, s_attempts = 0, s_ready_watch = False, s_viewers = [],
             s_next_id = 0, s_state = ''connecting'', s_last_error = [], s_bytes_sent = 0,
             s_connected = [], s_pat = [], s_pmts = [], s_seen_rai = False, s_pump_cancel = None,
             s_next_pump = 0, s_cancelled = [], s_stopped = False, s_attempt_timed_out = False,
             s_ready_done = False, s_ready_err = None, s_ever_ready = False \<rparr>)"

section \<open>Viewers\<close>

definition attached :: "session \<Rightarrow> viewer list" where
  "attached s = filter v_in (s_viewers s)"

definition viewer_count :: "session \<Rightarrow> nat" where
  "viewer_count s = length (attached s)"

definition find_viewer :: "session \<Rightarrow> nat \<Rightarrow> viewer option" where
  "find_viewer s i = find (\<lambda>v. v_id v = i) (s_viewers s)"

definition map_viewer :: "nat \<Rightarrow> (viewer \<Rightarrow> viewer) \<Rightarrow> session \<Rightarrow> session" where
  "map_viewer i f s = s\<lparr>s_viewers := map (\<lambda>v. if v_id v = i then f v else v) (s_viewers s)\<rparr>"

text \<open>Closing a viewer's channel and deleting it from the map.\<close>

definition drop_viewer :: "viewer \<Rightarrow> viewer" where
  "drop_viewer v = v\<lparr>v_closed := True, v_in := False\<rparr>"

definition cancel_pump :: "session \<Rightarrow> session" where
  "cancel_pump s = (case s_pump_cancel s of None \<Rightarrow> s
     | Some p \<Rightarrow> s\<lparr>s_pump_cancel := None, s_cancelled := p # s_cancelled s\<rparr>)"

text \<open>\<^verbatim>\<open>startupPacketsLocked\<close> (in \<^verbatim>\<open>copy.go\<close>): the last PAT and the PMTs.\<close>

definition startup_packets :: "session \<Rightarrow> byte list" where
  "startup_packets s =
     (if s_pat s = [] \<and> s_pmts s = [] then []
      else (if length (s_pat s) = packet_size then s_pat s else []) @
        concat (map (\<lambda>(_, p). if length p = packet_size then p else []) (s_pmts s)))"

text \<open>A send that does not block: \<open>None\<close> when the buffer is full.\<close>

definition try_send :: "byte list \<Rightarrow> viewer \<Rightarrow> viewer option" where
  "try_send c v = (if length (v_ch v) < v_cap v then Some (v\<lparr>v_ch := v_ch v @ [c]\<rparr>) else None)"

definition add_viewer :: "nat \<Rightarrow> session \<Rightarrow> nat \<times> session" where
  "add_viewer buf s =
     (let i = Suc (s_next_id s);
          v = \<lparr> v_id = i, v_ch = [], v_cap = buf, v_closed = False, v_wait_keyframe = False,
                v_in = True \<rparr>;
          v' = (if src_transcode (s_source s) \<and> s_ever_ready s \<and> s_seen_rai s
                then v\<lparr>v_wait_keyframe := True\<rparr>
                else let startup = startup_packets s in
                  if startup \<noteq> [] then (case try_send startup v of None \<Rightarrow> v | Some w \<Rightarrow> w) else v)
      in (i, s\<lparr>s_next_id := i, s_viewers := s_viewers s @ [v']\<rparr>))"

definition remove_viewer :: "nat \<Rightarrow> session \<Rightarrow> session" where
  "remove_viewer i s =
     (let s1 = map_viewer i (\<lambda>v. if v_in v then drop_viewer v else v) s
      in if attached s1 = [] then cancel_pump (s1\<lparr>s_state := ''idle''\<rparr>) else s1)"

section \<open>Readiness, status, stop\<close>

definition stop_ready_watch :: "session \<Rightarrow> session" where
  "stop_ready_watch s = s\<lparr>s_ready_watch := False\<rparr>"

definition mark_ready :: "string \<Rightarrow> session \<Rightarrow> session" where
  "mark_ready now s0 =
     (let s = stop_ready_watch s0 in
      if s_ready_done s then s
      else s\<lparr>s_ready_done := True, s_ever_ready := True, s_connected := now\<rparr>)"

definition fail_ready :: "stream_err option \<Rightarrow> session \<Rightarrow> session" where
  "fail_ready e s =
     (if s_ready_done s then s
      else let err = (case e of None \<Rightarrow> ErrUpstreamFailed | Some x \<Rightarrow> x)
           in s\<lparr>s_ready_done := True, s_ready_err := Some err, s_state := ''error'',
                s_last_error := err_text err\<rparr>)"

definition stop :: "session \<Rightarrow> session" where
  "stop s =
     (if s_stopped s then s
      else let s1 = cancel_pump (s\<lparr>s_stopped := True,
             s_viewers := map (\<lambda>v. if v_in v then drop_viewer v else v) (s_viewers s),
             s_state := ''idle''\<rparr>)
           in if s_ever_ready s1 then s1 else fail_ready (Some ErrSessionStopped) s1)"

definition finish_status :: "session \<Rightarrow> status" where
  "finish_status s =
     (let st = \<lparr> st_channel = s_channel s, st_state = ''idle'', st_viewers = 0,
                 st_last_error = [], st_bytes_sent = s_bytes_sent s,
                 st_connected_at = s_connected s, st_upstream_id = up_id (s_upstream s),
                 st_upstream_host = host_of (up_url (s_upstream s)) \<rparr>
      in if errors_is (s_ready_err s) ErrSessionStopped then st
         else if s_ready_err s \<noteq> None \<or> s_state s = ''error'' \<or>
                 \<not> s_ever_ready s \<and> \<not> blank (s_last_error s)
         then st\<lparr>st_state := ''error'',
                 st_last_error := (case s_ready_err s of
                     Some e \<Rightarrow> (if s_last_error s = [] then err_text e else s_last_error s)
                   | None \<Rightarrow> s_last_error s)\<rparr>
         else st)"

definition session_status :: "session \<Rightarrow> status" where
  "session_status s =
     (let viewers = viewer_count s;
          state = (if viewers = 0 \<and> (s_state s = ''streaming'' \<or> s_state s = ''connecting'')
                   then ''idle'' else s_state s);
          (state', last) =
            (if errors_is (s_ready_err s) ErrSessionStopped
             then (if viewers = 0 then (''idle'', []) else (state, s_last_error s))
             else case s_ready_err s of
                 Some e \<Rightarrow> (if s_ever_ready s then (state, s_last_error s)
                   else (''error'', if s_last_error s = [] then err_text e else s_last_error s))
               | None \<Rightarrow> (state, s_last_error s))
      in \<lparr> st_channel = s_channel s, st_state = state', st_viewers = viewers,
           st_last_error = last, st_bytes_sent = s_bytes_sent s,
           st_connected_at = s_connected s, st_upstream_id = up_id (s_upstream s),
           st_upstream_host = host_of (up_url (s_upstream s)) \<rparr>)"

definition map_ready_err :: "stream_err option \<Rightarrow> stream_err option" where
  "map_ready_err e = (if errors_is e ErrSessionStopped then Some ErrUpstreamFailed else e)"

text \<open>\<^verbatim>\<open>waitReady\<close> returns once \<^verbatim>\<open>readyCh\<close> is closed; \<open>None\<close> is that it still blocks.\<close>

definition wait_ready :: "session \<Rightarrow> stream_err option option" where
  "wait_ready s = (if s_ready_done s then Some (map_ready_err (s_ready_err s)) else None)"

definition ready_watch_timeout :: "session \<Rightarrow> int" where
  "ready_watch_timeout s =
     (let t = (if s_ready_timeout s \<le> 0 then o_conn_timeout (s_opts s) else s_ready_timeout s)
      in if t \<le> 0 then seconds 10 else t)"

definition arm_ready_watch :: "session \<Rightarrow> session" where
  "arm_ready_watch s = s\<lparr>s_attempt_timed_out := False, s_ready_watch := True\<rparr>"

text \<open>The timer of \<^verbatim>\<open>armReadyWatch\<close> fires: the attempt on context \<open>p\<close> is given up.\<close>

definition ready_watch_fires :: "nat \<Rightarrow> session \<Rightarrow> session" where
  "ready_watch_fires p s =
     (if s_ever_ready s \<or> s_stopped s then s
      else s\<lparr>s_attempt_timed_out := True, s_cancelled := p # s_cancelled s\<rparr>)"

definition begin_pump :: "session \<Rightarrow> nat \<times> session" where
  "begin_pump s0 =
     (let s = cancel_pump s0; p = s_next_pump s
      in (p, s\<lparr>s_pump_cancel := Some p, s_next_pump := Suc p\<rparr>))"

definition set_state :: "string \<Rightarrow> string \<Rightarrow> session \<Rightarrow> session" where
  "set_state st msg s =
     (let st' = (if viewer_count s = 0 \<and> (st = ''streaming'' \<or> st = ''connecting'')
                 then ''idle'' else st)
      in if s_state s = st' \<and> s_last_error s = msg then s
         else s\<lparr>s_state := st', s_last_error := msg\<rparr>)"

section \<open>A viewer's reader\<close>

datatype read_out = GotBytes "byte list" | GotEOF | Blocked

record reader =
  r_viewer :: nat
  r_buf :: "byte list"

text \<open>\<^verbatim>\<open>viewerReader.Read\<close> with room for \<open>n\<close> bytes: empty chunks are skipped.\<close>

fun first_chunk :: "byte list list \<Rightarrow> (byte list \<times> byte list list) option" where
  "first_chunk [] = None"
| "first_chunk (c # cs) = (if c = [] then first_chunk cs else Some (c, cs))"

definition reader_read :: "nat \<Rightarrow> reader \<Rightarrow> session \<Rightarrow> read_out \<times> reader \<times> session" where
  "reader_read n r s =
     (if r_buf r \<noteq> [] then (GotBytes (take n (r_buf r)), r\<lparr>r_buf := drop n (r_buf r)\<rparr>, s)
      else case find_viewer s (r_viewer r) of
        None \<Rightarrow> (Blocked, r, s)
      | Some v \<Rightarrow>
          (case first_chunk (v_ch v) of
             Some (c, rest) \<Rightarrow>
               (GotBytes (take n c), r\<lparr>r_buf := drop n c\<rparr>,
                map_viewer (r_viewer r) (\<lambda>w. w\<lparr>v_ch := rest\<rparr>) s)
           | None \<Rightarrow>
               let s1 = map_viewer (r_viewer r) (\<lambda>w. w\<lparr>v_ch := []\<rparr>) s
               in if v_closed v then (GotEOF, r, remove_viewer (r_viewer r) s1)
                  else (Blocked, r, s1)))"

end
