(* ===== verification/Pump.thy ===== *)
theory Pump
  imports Session
begin

text \<open>
  \<^verbatim>\<open>internal/core/stream/copy.go\<close> and \<^verbatim>\<open>pump.go\<close>: how a session reads its upstream and what it hands
  to its viewers.

  The goroutines of a session interleave at the calls that block.  A schedule (\<open>sched\<close>) lists
  what happens in order: a read of the upstream, or an operation of another goroutine.
  \<open>copy_mpegts\<close> runs the copy loop along a schedule; \<open>run_session\<close> runs the session's main loop on
  the list of the outcomes of its waits and pumps.
\<close>

section \<open>copy.go: what a packet tells\<close>

definition pat_pid :: "16 word" where "pat_pid = 0"
definition max_probe_bytes :: nat where "max_probe_bytes = 256 * 1024"

text \<open>The payload of a packet that starts a table, past the adaptation field and the pointer.\<close>

definition table_start :: "byte list \<Rightarrow> nat option" where
  "table_start pkt =
     (let start = (if pkt ! 3 AND 0x20 \<noteq> 0 then 5 + unat (pkt ! 4) else 4) in
      if length pkt \<le> start then None
      else let i = start + 1 + unat (pkt ! start) in if length pkt \<le> i then None else Some i)"

definition observe_packet :: "byte list \<Rightarrow> session \<Rightarrow> session" where
  "observe_packet pkt s =
     (if length pkt \<noteq> packet_size \<or> pkt ! 0 \<noteq> sync_byte then s
      else let rai = has_random_access pkt in
        if \<not> has_pusi pkt \<and> \<not> rai then s
        else let s1 = (if rai then s\<lparr>s_seen_rai := True\<rparr> else s) in
          if \<not> has_pusi pkt then s1
          else if pid pkt = pat_pid then s1\<lparr>s_pat := pkt\<rparr>
          else case table_start pkt of
              None \<Rightarrow> s1
            | Some i \<Rightarrow> (if pkt ! i = 0x02 then s1\<lparr>s_pmts := aput (pid pkt) pkt (s_pmts s1)\<rparr> else s1))"

function packet_list :: "byte list \<Rightarrow> byte list list" where
  "packet_list bs =
     (if packet_size \<le> length bs then take packet_size bs # packet_list (drop packet_size bs) else [])"
  by pat_completeness auto
termination
  by (relation "measure length") (auto simp: packet_size_def)

declare packet_list.simps [simp del]

definition observe_framed :: "byte list \<Rightarrow> session \<Rightarrow> session" where
  "observe_framed bs s = foldl (\<lambda>s p. observe_packet p s) s (packet_list bs)"

function keyframe_suffix :: "byte list \<Rightarrow> byte list option" where
  "keyframe_suffix bs =
     (if packet_size \<le> length bs
      then (if has_random_access (take packet_size bs) then Some bs
            else keyframe_suffix (drop packet_size bs))
      else None)"
  by pat_completeness auto
termination
  by (relation "measure length") (auto simp: packet_size_def)

declare keyframe_suffix.simps [simp del]

section \<open>copy.go: delivery\<close>

text \<open>
  What \<^verbatim>\<open>broadcast\<close> does to one viewer: skipped while it waits for a keyframe, else given the
  chunk, or dropped when its buffer is full.
\<close>

definition deliver :: "byte list \<Rightarrow> byte list \<Rightarrow> viewer \<Rightarrow> viewer" where
  "deliver startup pkt v =
     (if \<not> v_in v then v
      else case (if v_wait_keyframe v
                 then map_option (\<lambda>cut. if startup \<noteq> [] then startup @ cut else cut) (keyframe_suffix pkt)
                 else Some pkt) of
          None \<Rightarrow> v
        | Some out \<Rightarrow>
            let w = v\<lparr>v_wait_keyframe := False\<rparr> in
            (case try_send out w of Some w' \<Rightarrow> w' | None \<Rightarrow> drop_viewer w))"

definition broadcast :: "byte list \<Rightarrow> session \<Rightarrow> session" where
  "broadcast pkt s =
     (let s1 = s\<lparr>s_bytes_sent := s_bytes_sent s + length pkt,
                 s_viewers := map (deliver (startup_packets s) pkt) (s_viewers s)\<rparr>
      in if attached s1 = [] then cancel_pump (s1\<lparr>s_state := ''idle''\<rparr>) else s1)"

definition burst_size :: nat where "burst_size = packet_size * 32"

function bursts :: "byte list \<Rightarrow> byte list list" where
  "bursts bs =
     (if packet_size \<le> length bs
      then (let n = (if burst_size > length bs then length bs - length bs mod packet_size
                     else burst_size - burst_size mod packet_size)
            in if n < packet_size then [] else take n bs # bursts (drop n bs))
      else [])"
  by pat_completeness auto
termination
  by (relation "measure length") (auto simp: packet_size_def burst_size_def Let_def split: if_splits)

declare bursts.simps [simp del]

definition broadcast_framed :: "byte list \<Rightarrow> session \<Rightarrow> session" where
  "broadcast_framed bs s = foldl (\<lambda>s c. broadcast c s) (observe_framed bs s) (bursts bs)"

section \<open>copy.go: the copy loop\<close>

record copy_opts =
  co_max_bytes :: nat
  co_segment :: bool

record copy_state =
  cs_carry :: "byte list"
  cs_probed :: nat
  cs_total :: nat
  cs_got_media :: bool
  cs_reading :: bool

definition copy_start :: copy_state where
  "copy_start = \<lparr> cs_carry = [], cs_probed = 0, cs_total = 0, cs_got_media = False,
     cs_reading = False \<rparr>"

datatype outcome = Running copy_state | Returned "stream_err option"

definition msg_too_big :: "nat \<Rightarrow> stream_err" where
  "msg_too_big n = ErrMsg (''segment exceeds '' @ show_nat n @ '' bytes'')"

text \<open>The bytes of one read: the error that ends the loop, or the state after it.\<close>

definition copy_bytes ::
    "string \<Rightarrow> copy_opts \<Rightarrow> byte list \<Rightarrow> copy_state \<Rightarrow> session \<Rightarrow> (stream_err + copy_state) \<times> session" where
  "copy_bytes now opts bs c s =
     (if bs = [] then (Inr c, s)
      else let total = (if 0 < co_max_bytes opts then cs_total c + length bs else cs_total c) in
        if 0 < co_max_bytes opts \<and> co_max_bytes opts < total
        then (Inl (msg_too_big (co_max_bytes opts)), s)
        else let (f, rest) = extract_framed (cs_carry c @ bs);
                 c1 = c\<lparr>cs_total := total, cs_carry := rest\<rparr>
             in if f \<noteq> []
                then (Inr (c1\<lparr>cs_got_media := True\<rparr>),
                      mark_ready now (set_state ''streaming'' [] (broadcast_framed f s)))
                else if \<not> co_segment opts \<and> \<not> s_ever_ready s
                then (let c2 = c1\<lparr>cs_probed := cs_probed c + length bs\<rparr> in
                      if max_probe_bytes < cs_probed c2
                      then (Inl (ErrMsg ''no mpeg-ts sync in probe window''), s) else (Inr c2, s))
                else (Inr c1, s))"

definition copy_end :: "copy_opts \<Rightarrow> stream_err \<Rightarrow> copy_state \<Rightarrow> session \<Rightarrow> stream_err option" where
  "copy_end opts e c s =
     (if s_stopped s \<or> err_is e ErrCanceled then None
      else if err_is e ErrEOF then
        (if co_segment opts
         then (if \<not> cs_got_media c then Some (ErrMsg ''segment is not mpeg-ts'') else None)
         else if \<not> s_ever_ready s then Some (ErrMsg ''upstream closed before mpeg-ts ready'')
         else Some (ErrMsg ''upstream closed''))
      else Some e)"

text \<open>
  One turn of the loop on context \<open>p\<close> is the checks in front, after which the goroutine blocks in
  \<^verbatim>\<open>Read\<close> (\<open>cs_reading\<close>), and the return of \<^verbatim>\<open>Read\<close> with bytes and an error.
\<close>

definition copy_check :: "nat \<Rightarrow> copy_state \<Rightarrow> session \<Rightarrow> outcome" where
  "copy_check p c s =
     (if s_stopped s \<or> p \<in> set (s_cancelled s) \<or> viewer_count s = 0 then Returned None
      else Running (c\<lparr>cs_reading := True\<rparr>))"

definition copy_read ::
    "string \<Rightarrow> copy_opts \<Rightarrow> byte list \<Rightarrow> stream_err option \<Rightarrow> copy_state \<Rightarrow> session
      \<Rightarrow> outcome \<times> session" where
  "copy_read now opts bs e c s =
     (case copy_bytes now opts bs (c\<lparr>cs_reading := False\<rparr>) s of
        (Inl err, s1) \<Rightarrow> (Returned (Some err), s1)
      | (Inr c1, s1) \<Rightarrow>
          (case e of None \<Rightarrow> (Running c1, s1) | Some err \<Rightarrow> (Returned (copy_end opts err c1 s1), s1)))"

text \<open>What the other goroutines do meanwhile, the checks and the reads, in the order in which
  they happen.  A check while the goroutine reads, or a read while it does not, is no step.\<close>

datatype sched =
    Join nat | Leave nat | Take nat nat | Halt | WatchFires nat
  | Check | Read "byte list" "stream_err option"

fun env_step :: "sched \<Rightarrow> session \<Rightarrow> session" where
  "env_step (Join buf) s = snd (add_viewer buf s)"
| "env_step (Leave i) s = remove_viewer i s"
| "env_step (Take i n) s = snd (snd (reader_read n \<lparr> r_viewer = i, r_buf = [] \<rparr> s))"
| "env_step Halt s = stop s"
| "env_step (WatchFires p) s = ready_watch_fires p s"
| "env_step Check s = s"
| "env_step (Read _ _) s = s"

fun copy_mpegts ::
    "string \<Rightarrow> nat \<Rightarrow> copy_opts \<Rightarrow> sched list \<Rightarrow> copy_state \<Rightarrow> session \<Rightarrow> outcome \<times> session" where
  "copy_mpegts now p opts [] c s = (Running c, s)"
| "copy_mpegts now p opts (Check # evs) c s =
     (if cs_reading c then copy_mpegts now p opts evs c s
      else case copy_check p c s of
          Running c1 \<Rightarrow> copy_mpegts now p opts evs c1 s
        | Returned r \<Rightarrow> (Returned r, s))"
| "copy_mpegts now p opts (Read bs e # evs) c s =
     (if \<not> cs_reading c then copy_mpegts now p opts evs c s
      else case copy_read now opts bs e c s of
          (Running c1, s1) \<Rightarrow> copy_mpegts now p opts evs c1 s1
        | (Returned r, s1) \<Rightarrow> (Returned r, s1))"
| "copy_mpegts now p opts (ev # evs) c s = copy_mpegts now p opts evs c (env_step ev s)"

section \<open>pump.go\<close>

text \<open>\<^verbatim>\<open>classifyPumpErr\<close>.\<close>

definition classify_pump_err :: "stream_err option \<Rightarrow> session \<Rightarrow> stream_err option" where
  "classify_pump_err e s =
     (if s_stopped s \<or> viewer_count s = 0 then None
      else if s_attempt_timed_out s \<and> \<not> s_ever_ready s then Some ErrReadyTimeout
      else e)"

text \<open>The backoff of the main loop, in nanoseconds.\<close>

definition next_backoff :: "int \<Rightarrow> int" where
  "next_backoff b = (if b < seconds 15 then b * 2 else b)"

datatype pump_next = Exit | Again int

text \<open>
  \<^verbatim>\<open>handlePumpError\<close>; \<open>stopped_in_wait\<close> says that \<^verbatim>\<open>stopCh\<close> was closed before the backoff was over.
\<close>

definition handle_pump_error ::
    "bool \<Rightarrow> stream_err \<Rightarrow> int \<Rightarrow> session \<Rightarrow> pump_next \<times> session" where
  "handle_pump_error stopped_in_wait e backoff s =
     (let walk = should_walk s in
      if \<not> s_ever_ready s then
        (if walk then
           (let s1 = s\<lparr>s_attempts := Suc (s_attempts s)\<rparr> in
            if attempt_budget s1 \<le> s_attempts s1
            then (Exit, fail_ready (Some (ErrPair ErrUpstreamFailed e)) s1)
            else (Again backoff, advance s1))
         else (Exit, fail_ready (Some (ErrPair ErrUpstreamFailed e)) s))
      else if err_is e ErrStreamEnded \<and> \<not> walk then (Exit, s)
      else let s1 = (if walk then advance s else s);
               s2 = set_state ''error'' (err_text e) s1
           in if stopped_in_wait then (Exit, s2) else (Again (next_backoff backoff), s2))"

text \<open>The start of \<^verbatim>\<open>pumpOnce\<close>: the upstream of the attempt, its context, the readiness timer.\<close>

definition pump_start :: "session \<Rightarrow> nat \<times> session" where
  "pump_start s0 = (let (p, s) = begin_pump (apply_current_upstream s0) in (p, arm_ready_watch s))"

text \<open>And its end: \<^verbatim>\<open>stopReadyWatch\<close> and \<^verbatim>\<open>cancel\<close> are deferred.\<close>

definition pump_end :: "nat \<Rightarrow> stream_err option \<Rightarrow> session \<Rightarrow> stream_err option \<times> session" where
  "pump_end p e s =
     (classify_pump_err e s, (stop_ready_watch s)\<lparr>s_cancelled := p # s_cancelled s\<rparr>)"

text \<open>The waiting of the main loop while the session has no viewer: each round stops and resets
  the idle timer and then waits for the first of \<^verbatim>\<open>stopCh\<close>, that timer, and 200 ms.\<close>

datatype idle_event = StopClosed | IdleTimerFired | PollElapsed

definition poll_interval :: int where "poll_interval = milliseconds 200"

text \<open>Which timer of the two set at the start of a round fires first (either, at equal times).\<close>

definition timer_possible :: "session \<Rightarrow> idle_event \<Rightarrow> bool" where
  "timer_possible s ev \<longleftrightarrow>
     (case ev of StopClosed \<Rightarrow> s_stopped s
      | IdleTimerFired \<Rightarrow> o_idle_timeout (s_opts s) \<le> poll_interval
      | PollElapsed \<Rightarrow> poll_interval \<le> o_idle_timeout (s_opts s))"

datatype idle_next = IdleExit | IdleContinue | IdlePump

definition idle_round :: "idle_event \<Rightarrow> session \<Rightarrow> idle_next" where
  "idle_round ev s =
     (case ev of
        StopClosed \<Rightarrow> IdleExit
      | IdleTimerFired \<Rightarrow> (if viewer_count s = 0 then IdleExit else IdlePump)
      | PollElapsed \<Rightarrow> (if viewer_count s = 0 then IdleContinue else IdlePump))"

text \<open>
  The main loop of \<^verbatim>\<open>run\<close>, one turn per element of the list: what the goroutines did since the
  last turn, the idle event if the session has no viewer, what the pump of this turn did (a
  session transformer with the error it returned), and whether the session was stopped during
  the backoff.
\<close>

record turn =
  t_env :: "session \<Rightarrow> session"
  t_idle :: idle_event
  t_woken :: "session \<Rightarrow> session"
  t_pump :: "nat \<Rightarrow> session \<Rightarrow> stream_err option \<times> session"
  t_stop_in_wait :: bool

definition run_pump :: "turn \<Rightarrow> int \<Rightarrow> session \<Rightarrow> pump_next \<times> session" where
  "run_pump t backoff s =
     (let (p, s1) = pump_start s;
          (e, s2) = t_pump t p s1;
          (e', s3) = pump_end p e s2
      in if s_stopped s3 then (Exit, s3)
         else if viewer_count s3 = 0 then (Again backoff, s3)
         else case e' of None \<Rightarrow> (Again (seconds 1), s3)
           | Some err \<Rightarrow> handle_pump_error (t_stop_in_wait t) err backoff s3)"

definition run_turn :: "turn \<Rightarrow> int \<Rightarrow> session \<Rightarrow> pump_next \<times> session" where
  "run_turn t backoff s0 =
     (let s = t_env t s0 in
      if viewer_count s = 0 then
        (let s' = t_woken t s in
         case idle_round (t_idle t) s' of
           IdleExit \<Rightarrow> (Exit, s')
         | IdleContinue \<Rightarrow> (Again backoff, s')
         | IdlePump \<Rightarrow> run_pump t backoff s')
      else run_pump t backoff s)"

text \<open>The deferred function of \<^verbatim>\<open>run\<close>: the session as it is left, and its last status.\<close>

definition run_exit :: "session \<Rightarrow> status \<times> session" where
  "run_exit s =
     (let s1 = (if s_ever_ready s then s else fail_ready (Some ErrUpstreamFailed) s)
      in (finish_status s1, stop s1))"

fun run_session :: "turn list \<Rightarrow> int \<Rightarrow> session \<Rightarrow> status option \<times> session" where
  "run_session [] backoff s = (None, s)"
| "run_session (t # ts) backoff s =
     (case run_turn t backoff s of
        (Exit, s1) \<Rightarrow> (let (st, s2) = run_exit s1 in (Some st, s2))
      | (Again b, s1) \<Rightarrow> run_session ts b s1)"

section \<open>The walk over the fetch URLs\<close>

text \<open>The URL an attempt fetches.\<close>

definition attempt_url :: "session \<Rightarrow> string" where
  "attempt_url s = up_url (s_upstream (apply_current_upstream s))"

definition walk_ok :: "session \<Rightarrow> bool" where
  "walk_ok s \<longleftrightarrow> src_upstreams (s_source s) \<noteq> [] \<and>
     (\<forall>u \<in> set (src_upstreams (s_source s)). fetch_urls u \<noteq> [])"

definition at_pos :: "session \<Rightarrow> nat \<Rightarrow> nat \<Rightarrow> bool" where
  "at_pos s i j \<longleftrightarrow> s_current_index s = int i \<and> s_candidate_index s = int j \<and>
     i < length (src_upstreams (s_source s)) \<and>
     j < length (fetch_urls (src_upstreams (s_source s) ! i))"

lemma at_pos_cands: "at_pos s i j \<Longrightarrow> current_cands s = fetch_urls (src_upstreams (s_source s) ! i)"
  by (simp add: at_pos_def current_cands_def clamp_index_def Let_def)

lemma attempt_url_at: "at_pos s i j \<Longrightarrow> attempt_url s = fetch_urls (src_upstreams (s_source s) ! i) ! j"
  by (auto simp: at_pos_def attempt_url_def apply_current_upstream_def clamp_index_def Let_def)

lemma apply_at: "at_pos s i j \<Longrightarrow> at_pos (apply_current_upstream s) i j"
  by (auto simp: at_pos_def apply_current_upstream_def clamp_index_def Let_def)

lemma apply_source [simp]: "s_source (apply_current_upstream s) = s_source s"
  by (simp add: apply_current_upstream_def Let_def)

lemma advance_source [simp]: "s_source (advance s) = s_source s"
  by (simp add: advance_def Let_def)

lemma advance_funpow_source [simp]: "s_source ((advance ^^ k) s) = s_source s"
  by (induction k) simp_all

lemma advance_next: "at_pos s i j \<Longrightarrow> Suc j < length (fetch_urls (src_upstreams (s_source s) ! i)) \<Longrightarrow>
  at_pos (advance s) i (Suc j)"
  using at_pos_cands [of s i j] by (auto simp: at_pos_def advance_def Let_def)

lemma advance_wrap:
  assumes "at_pos s i j" "Suc j = length (fetch_urls (src_upstreams (s_source s) ! i))"
    "is_fallback (s_source s)" "walk_ok s"
  shows "at_pos (advance s) (Suc i mod length (src_upstreams (s_source s))) 0"
  using assms at_pos_cands [OF assms(1)]
  by (simp add: at_pos_def advance_def Let_def walk_ok_def clamp_index_def)

text \<open>The attempts from the first URL of an upstream on go through its URLs, then on to the next.\<close>

lemma walk_one:
  "at_pos s i j \<Longrightarrow> j + m < length (fetch_urls (src_upstreams (s_source s) ! i)) \<Longrightarrow>
   at_pos ((advance ^^ m) s) i (j + m)"
proof (induction m)
  case (Suc m)
  then have "at_pos ((advance ^^ m) s) i (j + m)" by simp
  from advance_next [OF this] Suc.prems show ?case by simp
qed simp

lemma walk_urls_one:
  assumes "at_pos s i 0"
  shows "map (\<lambda>k. attempt_url ((advance ^^ k) s))
      [0..<length (fetch_urls (src_upstreams (s_source s) ! i))] =
    fetch_urls (src_upstreams (s_source s) ! i)"
proof (rule nth_equalityI)
  fix k
  assume "k < length (map (\<lambda>k. attempt_url ((advance ^^ k) s))
      [0..<length (fetch_urls (src_upstreams (s_source s) ! i))])"
  then have k: "k < length (fetch_urls (src_upstreams (s_source s) ! i))" by simp
  from walk_one [OF assms, of k] k have "at_pos ((advance ^^ k) s) i k" by simp
  from attempt_url_at [OF this] k
  show "map (\<lambda>k. attempt_url ((advance ^^ k) s))
      [0..<length (fetch_urls (src_upstreams (s_source s) ! i))] ! k =
    fetch_urls (src_upstreams (s_source s) ! i) ! k" by simp
qed simp

lemma funpow_shift: "map (\<lambda>k. f ((g ^^ k) s)) [n..<n + m] = map (\<lambda>k. f ((g ^^ k) ((g ^^ n) s))) [0..<m]"
  by (rule nth_equalityI) (simp_all add: funpow_add add.commute)

lemma walk_urls:
  assumes "is_fallback (s_source s)" "walk_ok s" "at_pos s i 0"
    "i + m \<le> length (src_upstreams (s_source s))"
  shows "map (\<lambda>k. attempt_url ((advance ^^ k) s))
      [0..<sum_list (map (\<lambda>u. length (fetch_urls u)) (take m (drop i (src_upstreams (s_source s)))))] =
    concat (map fetch_urls (take m (drop i (src_upstreams (s_source s)))))"
  using assms
proof (induction m arbitrary: s i)
  case (Suc m)
  let ?ups = "src_upstreams (s_source s)" and ?n = "length (fetch_urls (src_upstreams (s_source s) ! i))"
  have ts: "take (Suc m) (drop i ?ups) = ?ups ! i # take m (drop (Suc i) ?ups)"
    using Suc.prems(4) by (simp add: Cons_nth_drop_Suc [symmetric])
  have n: "0 < ?n" using Suc.prems(2,3) by (auto simp: at_pos_def)
  define s' where "s' = (advance ^^ ?n) s"
  have src: "s_source s' = s_source s" by (simp add: s'_def)
  have rest: "map (\<lambda>k. attempt_url ((advance ^^ k) s'))
      [0..<sum_list (map (\<lambda>u. length (fetch_urls u)) (take m (drop (Suc i) ?ups)))] =
    concat (map fetch_urls (take m (drop (Suc i) ?ups)))"
  proof (cases m)
    case (Suc m')
    then have lt: "Suc i < length ?ups" using Suc.prems(4) by simp
    have "at_pos ((advance ^^ (?n - 1)) s) i (?n - 1)"
      using walk_one [OF Suc.prems(3), of "?n - 1"] n by simp
    from advance_wrap [OF this] n Suc.prems(1,2)
    have "at_pos (advance ((advance ^^ (?n - 1)) s)) (Suc i mod length ?ups) 0"
      by (simp add: walk_ok_def)
    then have "at_pos s' (Suc i) 0"
      using n lt by (simp add: s'_def flip: funpow.simps(2) comp_apply [of advance])
    with Suc.IH [of s' "Suc i"] Suc.prems show ?thesis by (simp add: src walk_ok_def)
  qed simp
  show ?case
    using walk_urls_one [OF Suc.prems(3)] rest funpow_shift [of attempt_url advance s ?n]
    by (simp add: ts upt_add_eq_append [of 0] s'_def)
qed simp

definition walk_list :: "source \<Rightarrow> string list" where
  "walk_list src = concat (map fetch_urls (src_upstreams src))"

lemma walk_from_first:
  assumes "is_fallback (s_source s)" "walk_ok s" "at_pos s 0 0" "k < length (walk_list (s_source s))"
  shows "attempt_url ((advance ^^ k) s) = walk_list (s_source s) ! k"
proof -
  let ?ups = "src_upstreams (s_source s)"
  have len: "length (walk_list (s_source s)) = sum_list (map (\<lambda>u. length (fetch_urls u)) ?ups)"
    by (simp add: walk_list_def length_concat comp_def)
  have "map (\<lambda>k. attempt_url ((advance ^^ k) s)) [0..<length (walk_list (s_source s))] =
      walk_list (s_source s)"
    using walk_urls [OF assms(1-3), of "length ?ups"] unfolding len by (simp add: walk_list_def)
  from arg_cong [OF this, of "\<lambda>xs. xs ! k"] assms(4) show ?thesis by simp
qed

lemma attempt_budget_walk:
  assumes "is_fallback (s_source s)" "walk_ok s"
  shows "attempt_budget s = length (walk_list (s_source s))"
proof -
  have "sum_list (map (\<lambda>u. max 1 (length (fetch_urls u))) (src_upstreams (s_source s))) =
        sum_list (map (\<lambda>u. length (fetch_urls u)) (src_upstreams (s_source s)))"
    using assms(2) by (intro arg_cong [of _ _ sum_list] map_cong)
      (auto simp: walk_ok_def max_def Suc_leI)
  with assms(1) show ?thesis
    by (simp add: attempt_budget_def walk_list_def length_concat comp_def)
qed

text \<open>Sessions at the same place of the walk.\<close>

definition same_walk :: "session \<Rightarrow> session \<Rightarrow> bool" where
  "same_walk s t \<longleftrightarrow> s_source s = s_source t \<and> s_current_index s = s_current_index t \<and>
     s_candidate_index s = s_candidate_index t"

lemma same_walk_advance: "same_walk s t \<Longrightarrow> same_walk (advance s) (advance t)"
  by (simp add: same_walk_def advance_def current_cands_def Let_def)

lemma same_walk_url: "same_walk s t \<Longrightarrow> src_upstreams (s_source s) \<noteq> [] \<Longrightarrow> attempt_url s = attempt_url t"
  by (simp add: same_walk_def attempt_url_def apply_current_upstream_def Let_def)

lemma at_pos_exists: "walk_ok s \<Longrightarrow> at_pos s 0 0 \<Longrightarrow> is_fallback (s_source s) \<Longrightarrow>
  \<exists>i j. at_pos ((advance ^^ k) s) i j"
proof (induction k)
  case (Suc k)
  then obtain i j where p: "at_pos ((advance ^^ k) s) i j" by blast
  show ?case
  proof (cases "Suc j < length (fetch_urls (src_upstreams (s_source s) ! i))")
    case True
    with advance_next [OF p] show ?thesis by auto
  next
    case False
    with p have "Suc j = length (fetch_urls (src_upstreams (s_source s) ! i))"
      by (simp add: at_pos_def)
    with advance_wrap [OF p] Suc.prems have "\<exists>i'. at_pos (advance ((advance ^^ k) s)) i' 0"
      by (auto simp: walk_ok_def)
    then show ?thesis by auto
  qed
qed auto

lemma same_walk_apply: "at_pos s i j \<Longrightarrow> same_walk (apply_current_upstream s) s"
  by (auto simp: same_walk_def at_pos_def apply_current_upstream_def clamp_index_def Let_def)

lemma same_walk_at: "same_walk s t \<Longrightarrow> at_pos s i j = at_pos t i j"
  by (simp add: same_walk_def at_pos_def)

section \<open>Attempts that all fail before the session is ready\<close>

definition failing_turn :: "(string \<Rightarrow> stream_err) \<Rightarrow> turn" where
  "failing_turn err = \<lparr> t_env = id, t_idle = PollElapsed, t_woken = id,
     t_pump = (\<lambda>p s. (Some (err (up_url (s_upstream s))), s)), t_stop_in_wait = False \<rparr>"

definition waiting :: "session \<Rightarrow> bool" where
  "waiting s \<longleftrightarrow> 0 < viewer_count s \<and> \<not> s_stopped s \<and> \<not> s_ever_ready s \<and> \<not> s_ready_done s"

lemma viewer_count_cong: "s_viewers s = s_viewers t \<Longrightarrow> viewer_count s = viewer_count t"
  by (simp add: viewer_count_def attached_def)

lemma apply_frame [simp]:
  "s_viewers (apply_current_upstream s) = s_viewers s"
  "s_stopped (apply_current_upstream s) = s_stopped s"
  "s_ever_ready (apply_current_upstream s) = s_ever_ready s"
  "s_ready_done (apply_current_upstream s) = s_ready_done s"
  "s_attempts (apply_current_upstream s) = s_attempts s"
  "s_state (apply_current_upstream s) = s_state s"
  "s_opts (apply_current_upstream s) = s_opts s"
  by (simp_all add: apply_current_upstream_def Let_def)

lemma cancel_pump_frame [simp]:
  "s_viewers (cancel_pump s) = s_viewers s" "s_stopped (cancel_pump s) = s_stopped s"
  "s_ever_ready (cancel_pump s) = s_ever_ready s" "s_ready_done (cancel_pump s) = s_ready_done s"
  "s_attempts (cancel_pump s) = s_attempts s" "s_source (cancel_pump s) = s_source s"
  "s_current_index (cancel_pump s) = s_current_index s" "s_state (cancel_pump s) = s_state s"
  "s_candidate_index (cancel_pump s) = s_candidate_index s" "s_opts (cancel_pump s) = s_opts s"
  "s_ready_err (cancel_pump s) = s_ready_err s" "s_upstream (cancel_pump s) = s_upstream s"
  "s_bytes_sent (cancel_pump s) = s_bytes_sent s" "s_last_error (cancel_pump s) = s_last_error s"
  by (simp_all add: cancel_pump_def split: option.splits)

lemma advance_frame [simp]:
  "s_viewers (advance s) = s_viewers s" "s_stopped (advance s) = s_stopped s"
  "s_ever_ready (advance s) = s_ever_ready s" "s_ready_done (advance s) = s_ready_done s"
  "s_attempts (advance s) = s_attempts s"
  by (simp_all add: advance_def Let_def)

lemma failing_turn_step:
  assumes w: "waiting s" and fb: "is_fallback (s_source s)"
  defines "a \<equiv> apply_current_upstream s"
  shows "if attempt_budget s \<le> Suc (s_attempts s)
    then \<exists>s'. run_turn (failing_turn err) b s = (Exit, s') \<and> s_ready_done s' \<and> \<not> s_ever_ready s' \<and>
           s_ready_err s' = Some (ErrPair ErrUpstreamFailed (err (attempt_url s)))
    else \<exists>s'. run_turn (failing_turn err) b s = (Again b, s') \<and> waiting s' \<and>
           s_attempts s' = Suc (s_attempts s) \<and> same_walk s' (advance a)"
proof -
  obtain p s1 where ps: "pump_start s = (p, s1)" by (cases "pump_start s")
  have s1: "s_source s1 = s_source s" "s_viewers s1 = s_viewers s" "\<not> s_stopped s1"
    "\<not> s_ever_ready s1" "\<not> s_ready_done s1" "s_attempts s1 = s_attempts s"
    "up_url (s_upstream s1) = attempt_url s" "\<not> s_attempt_timed_out s1" "same_walk s1 a"
    using ps w
    by (auto simp: pump_start_def begin_pump_def arm_ready_watch_def Let_def waiting_def
        attempt_url_def same_walk_def a_def)
  have vc: "viewer_count s1 = viewer_count s" using s1(2) by (rule viewer_count_cong)
  define s3 where "s3 = (stop_ready_watch s1)\<lparr>s_cancelled := p # s_cancelled s1\<rparr>"
  have s3: "s_source s3 = s_source s" "s_viewers s3 = s_viewers s" "\<not> s_stopped s3"
    "\<not> s_ever_ready s3" "\<not> s_ready_done s3" "s_attempts s3 = s_attempts s" "same_walk s3 a"
    using s1 by (simp_all add: s3_def stop_ready_watch_def same_walk_def)
  have vc3: "viewer_count s3 = viewer_count s" using s3(2) by (rule viewer_count_cong)
  have walk: "should_walk s3" using fb s3(1) by (simp add: should_walk_def)
  have bud: "attempt_budget (s3\<lparr>s_attempts := n\<rparr>) = attempt_budget s" for n
    using s3(1) fb by (simp add: attempt_budget_def)
  have run: "run_turn (failing_turn err) b s =
      handle_pump_error False (err (attempt_url s)) b s3"
    using w s1 vc vc3 s3 ps
    by (simp add: run_turn_def failing_turn_def run_pump_def pump_end_def classify_pump_err_def
        waiting_def s3_def Let_def stop_ready_watch_def)
  show ?thesis
  proof (cases "attempt_budget s \<le> Suc (s_attempts s)")
    case True
    then show ?thesis
      unfolding run using s3 walk bud
      by (simp add: handle_pump_error_def Let_def fail_ready_def)
  next
    case False
    have "same_walk (advance (s3\<lparr>s_attempts := Suc (s_attempts s3)\<rparr>)) (advance a)"
      by (rule same_walk_advance) (use s3(7) in \<open>simp add: same_walk_def\<close>)
    moreover have "waiting (advance (s3\<lparr>s_attempts := Suc (s_attempts s3)\<rparr>))"
      using w s3 viewer_count_cong [of "advance (s3\<lparr>s_attempts := Suc (s_attempts s3)\<rparr>)" s]
      by (simp add: waiting_def)
    ultimately show ?thesis
      unfolding run using False s3 walk bud by (simp add: handle_pump_error_def Let_def)
  qed
qed

lemma same_walk_funpow: "same_walk s t \<Longrightarrow> same_walk ((advance ^^ k) s) ((advance ^^ k) t)"
  by (induction k) (simp_all add: same_walk_advance)

lemma same_walk_trans: "same_walk s t \<Longrightarrow> same_walk t u \<Longrightarrow> same_walk s u"
  by (simp add: same_walk_def)

lemma same_walk_source: "same_walk s t \<Longrightarrow> s_source s = s_source t"
  by (simp add: same_walk_def)

lemma failing_turns:
  "waiting s \<Longrightarrow> is_fallback (s_source s) \<Longrightarrow> walk_ok s \<Longrightarrow> at_pos s i j \<Longrightarrow>
   s_attempts s + k < attempt_budget s \<Longrightarrow>
   \<exists>s'. run_session (replicate k (failing_turn err)) b s = (None, s') \<and> waiting s' \<and>
     s_attempts s' = s_attempts s + k \<and> same_walk s' ((advance ^^ k) s)"
proof (induction k arbitrary: s i j)
  case 0
  then show ?case by (simp add: same_walk_def)
next
  case (Suc k)
  have nb: "\<not> attempt_budget s \<le> Suc (s_attempts s)" using Suc.prems(5) by simp
  from failing_turn_step [OF Suc.prems(1,2), of err b] nb
  obtain s1 where s1: "run_turn (failing_turn err) b s = (Again b, s1)" "waiting s1"
    "s_attempts s1 = Suc (s_attempts s)" "same_walk s1 (advance (apply_current_upstream s))"
    by auto
  have sw: "same_walk s1 (advance s)"
    by (rule same_walk_trans [OF s1(4)], rule same_walk_advance, rule same_walk_apply)
       (rule Suc.prems(4))
  have src: "s_source s1 = s_source s" using same_walk_source [OF sw] by simp
  have "\<exists>i j. at_pos s1 i j"
  proof (cases "Suc j < length (fetch_urls (src_upstreams (s_source s) ! i))")
    case True
    with advance_next [OF Suc.prems(4)] sw show ?thesis by (auto simp: same_walk_at)
  next
    case False
    with Suc.prems(4) have "Suc j = length (fetch_urls (src_upstreams (s_source s) ! i))"
      by (simp add: at_pos_def)
    from advance_wrap [OF Suc.prems(4) this Suc.prems(2,3)] sw show ?thesis
      by (auto simp: same_walk_at)
  qed
  then obtain i' j' where "at_pos s1 i' j'" by blast
  moreover have "walk_ok s1" "is_fallback (s_source s1)"
    using Suc.prems(2,3) src by (simp_all add: walk_ok_def)
  moreover have "attempt_budget s1 = attempt_budget s"
    using Suc.prems(2) src by (simp add: attempt_budget_def)
  ultimately obtain s' where s': "run_session (replicate k (failing_turn err)) b s1 = (None, s')"
    "waiting s'" "s_attempts s' = s_attempts s1 + k" "same_walk s' ((advance ^^ k) s1)"
    using Suc.IH [of s1 i' j'] s1(2,3) Suc.prems(5) by auto
  have "same_walk s' ((advance ^^ Suc k) s)"
    using same_walk_trans [OF s'(4) same_walk_funpow [OF sw]]
    by (simp only: funpow_Suc_right comp_def)
  with s1 s' show ?case by (intro exI [of _ s']) simp
qed

lemma run_session_append:
  "fst (run_session ts b s) = None \<Longrightarrow>
   \<exists>b'. run_session (ts @ us) b s = run_session us b' (snd (run_session ts b s))"
  by (induction ts arbitrary: b s) (auto split: prod.splits pump_next.splits)

lemma failing_exit:
  assumes "waiting s" "is_fallback (s_source s)" "attempt_budget s \<le> Suc (s_attempts s)"
    and "\<And>u. \<not> err_is (err u) ErrSessionStopped"
  shows "\<exists>st. fst (run_session (failing_turn err # ts) b s) = Some st \<and> st_state st = ''error''"
proof -
  from failing_turn_step [OF assms(1,2), of err b] assms(3)
  obtain s1 where "run_turn (failing_turn err) b s = (Exit, s1)" "s_ready_done s1"
    "\<not> s_ever_ready s1" "s_ready_err s1 = Some (ErrPair ErrUpstreamFailed (err (attempt_url s)))"
    by auto
  moreover from this have "fail_ready (Some ErrUpstreamFailed) s1 = s1" by (simp add: fail_ready_def)
  ultimately show ?thesis
    using assms(4) by (simp add: run_exit_def Let_def finish_status_def errors_is_def)
qed

section \<open>The idle wait\<close>

lemma idle_forever:
  assumes "viewer_count s = 0" "\<not> s_stopped s" "poll_interval < o_idle_timeout (s_opts s)"
    and "\<forall>t \<in> set ts. t_env t = id \<and> t_woken t = id \<and> timer_possible s (t_idle t)"
  shows "run_session ts b s = (None, s)"
  using assms(4)
proof (induction ts)
  case (Cons t ts)
  then have "t_idle t = PollElapsed"
    using assms(2,3) by (cases "t_idle t") (auto simp: timer_possible_def)
  with Cons assms(1) show ?case by (simp add: run_turn_def idle_round_def)
qed simp

section \<open>Chunks\<close>

lemma concat_bursts: "packet_size dvd length bs \<Longrightarrow> concat (bursts bs) = bs"
proof (induction bs rule: bursts.induct)
  case (1 bs)
  show ?case
  proof (cases "packet_size \<le> length bs")
    case True
    define n where "n = (if burst_size > length bs then length bs - length bs mod packet_size
      else burst_size - burst_size mod packet_size)"
    have n: "n = min burst_size (length bs)"
      using 1(2) by (auto simp: n_def burst_size_def min_def)
    then have ge: "\<not> n < packet_size" using True by (simp add: burst_size_def)
    have dvd: "packet_size dvd length (drop n bs)"
      using 1(2) n by (auto simp: burst_size_def min_def intro: dvd_diff_nat)
    have "bursts bs = take n bs # bursts (drop n bs)"
      using True ge by (subst bursts.simps) (simp add: n_def [symmetric] Let_def)
    moreover have "concat (bursts (drop n bs)) = drop n bs"
      using 1(1) [OF True n_def ge] dvd by simp
    ultimately show ?thesis by simp
  next
    case False
    with 1(2) have "bs = []" by (cases bs) (auto dest: dvd_imp_le simp: packet_size_def)
    then show ?thesis by (simp add: bursts.simps packet_size_def)
  qed
qed

lemma framed_dvd: "packet_size dvd length (fst (extract_framed bs))"
  using extract_framed_packets [of bs] by (simp add: packets_def)

section \<open>Properties\<close>

text \<open>C22: While no attempt has succeeded, a failover session tries every fetch URL of every
  upstream exactly once, in order: attempt k fetches URL k, and after the last of them the
  session ends with an error status.\<close>

theorem failover_tries_every_url:
  assumes "waiting s" "is_fallback (s_source s)" "walk_ok s" "at_pos s 0 0" "s_attempts s = 0"
    and "\<And>u. \<not> err_is (err u) ErrSessionStopped"
  shows "(\<forall>k < length (walk_list (s_source s)).
      fst (run_session (replicate k (failing_turn err)) b s) = None \<and>
      attempt_url (snd (run_session (replicate k (failing_turn err)) b s)) =
        walk_list (s_source s) ! k) \<and>
    (\<exists>st. fst (run_session (replicate (length (walk_list (s_source s))) (failing_turn err)) b s) = Some st
      \<and> st_state st = ''error'')"
proof -
  let ?T = "failing_turn err" and ?W = "walk_list (s_source s)"
  have bud: "attempt_budget s = length ?W" using assms(2,3) by (rule attempt_budget_walk)
  have step: "\<exists>s'. run_session (replicate k ?T) b s = (None, s') \<and> waiting s' \<and> s_attempts s' = k \<and>
      same_walk s' ((advance ^^ k) s)" if "k < length ?W" for k
    using failing_turns [OF assms(1-4), of k err b] that bud assms(5) by simp
  have ne: "src_upstreams (s_source s) \<noteq> []" using assms(3) by (simp add: walk_ok_def)
  have first: "fst (run_session (replicate k ?T) b s) = None \<and>
      attempt_url (snd (run_session (replicate k ?T) b s)) = ?W ! k" if k: "k < length ?W" for k
  proof -
    from step [OF k] obtain s' where s': "run_session (replicate k ?T) b s = (None, s')"
      "same_walk s' ((advance ^^ k) s)" by blast
    have "attempt_url s' = attempt_url ((advance ^^ k) s)"
      by (rule same_walk_url [OF s'(2)]) (use s'(2) ne in \<open>simp add: same_walk_source\<close>)
    with walk_from_first [OF assms(2-4) k] s' show ?thesis by simp
  qed
  have pos: "0 < length ?W"
    using assms(3) by (cases "src_upstreams (s_source s)") (auto simp: walk_ok_def walk_list_def)
  then obtain n where n: "length ?W = Suc n" by (cases "length ?W") simp_all
  from step [of n] n obtain s' where s': "run_session (replicate n ?T) b s = (None, s')"
    "waiting s'" "s_attempts s' = n" "same_walk s' ((advance ^^ n) s)" by auto
  have "is_fallback (s_source s')" "attempt_budget s' \<le> Suc (s_attempts s')"
    using s'(3) n bud assms(2) same_walk_source [OF s'(4)] by (simp_all add: attempt_budget_def)
  with failing_exit [OF s'(2)] assms(6)
  have ex: "\<exists>st. fst (run_session [?T] b' s') = Some st \<and> st_state st = ''error''" for b'
    by blast
  have "replicate (Suc n) ?T = replicate n ?T @ [?T]" by (simp add: replicate_append_same)
  with run_session_append [of "replicate n ?T" b s "[?T]"] s'(1) ex n
  have "\<exists>st. fst (run_session (replicate (length ?W) ?T) b s) = Some st \<and> st_state st = ''error''"
    by auto
  with first show ?thesis by blast
qed

lemma failover_tries_every_url_witness:
  "let up = (\<lambda>u c. \<lparr> up_id = u, up_url = u, up_headers = [], up_candidates = c,
        up_transcode = False, up_revision = [] \<rparr>);
      src = \<lparr> src_policy = ''failover'', src_upstreams = [up ''a'' [], up ''b'' [''c'', ''d'']],
        src_fixed_index = 0, src_transcode = False, src_revision = [] \<rparr>;
      s = snd (add_viewer 8 (new_session (\<lambda>_. 0) ''ch'' src
        \<lparr> o_buffer_size = 8, o_idle_timeout = 1, o_conn_timeout = 1 \<rparr> default_profile))
   in attempt_url (snd (run_session (replicate 2 (failing_turn ErrMsg)) (seconds 1) s)) = ''d''"
proof -
  let ?up = "(\<lambda>u c. \<lparr> up_id = u, up_url = u, up_headers = [], up_candidates = c,
        up_transcode = False, up_revision = [] \<rparr>) :: string \<Rightarrow> string list \<Rightarrow> upstream"
  let ?src = "\<lparr> src_policy = ''failover'', src_upstreams = [?up ''a'' [], ?up ''b'' [''c'', ''d'']],
        src_fixed_index = 0, src_transcode = False, src_revision = [] \<rparr>"
  have n: "normalize_source ?src = Some ?src" by code_simp
  define s where "s = snd (add_viewer 8 (new_session (\<lambda>_. 0) ''ch'' ?src
        \<lparr> o_buffer_size = 8, o_idle_timeout = 1, o_conn_timeout = 1 \<rparr> default_profile))"
  have tr: "trim_space ''a'' = ''a''" "trim_space ''b'' = ''b''" by code_simp+
  have src: "s_source s = ?src"
    unfolding s_def new_session_def n by (simp add: add_viewer_def Let_def)
  have "waiting s" "at_pos s 0 0" "s_attempts s = 0"
    unfolding s_def new_session_def n
    by (simp_all add: add_viewer_def Let_def waiting_def viewer_count_def attached_def at_pos_def
        apply_current_upstream_def start_index_def pick_index_def clamp_index_def startup_packets_def
        fetch_urls_def tr policy_defs)
  moreover have "is_fallback (s_source s)" "walk_ok s"
    by (simp_all add: src is_fallback_def policy_defs walk_ok_def fetch_urls_def tr)
  ultimately have "attempt_url (snd (run_session (replicate 2 (failing_turn ErrMsg)) (seconds 1) s)) =
      walk_list ?src ! 2"
    using failover_tries_every_url [of s ErrMsg "seconds 1"]
    by (simp add: src walk_list_def fetch_urls_def tr)
  then show ?thesis by (simp add: walk_list_def fetch_urls_def tr s_def Let_def)
qed



text \<open>The wait between failed attempts of a session that was ready once doubles from 1 s to
  16 s and stays there.\<close>

theorem backoff_bounded: "(next_backoff ^^ n) (seconds 1) = seconds (2 ^ min n 4)"
proof (induction n)
  case (Suc n)
  have "(next_backoff ^^ Suc n) (seconds 1) = next_backoff (seconds (2 ^ min n 4))"
    by (simp add: Suc)
  moreover have "n = 0 \<or> n = 1 \<or> n = 2 \<or> n = 3 \<or> 4 \<le> n" by linarith
  then have "next_backoff (seconds (2 ^ min n 4)) = seconds (2 ^ min (Suc n) 4)"
    by (elim disjE) (simp_all add: min_def next_backoff_def seconds_def)
  ultimately show ?case by simp
qed simp

end
