(* ===== verification/Manager.thy ===== *)
theory Manager
  imports Pump
begin

text \<open>
  \<^verbatim>\<open>internal/core/stream/manager.go\<close>: one session per channel, with the admission of viewers and
  the status that outlives a session.

  The maps of the Go struct are association lists.  A session that left the map but still runs
  is in \<open>m_detached\<close>; a pointer to a session is its channel with its epoch, which
  \<^verbatim>\<open>startSession\<close> makes unique.  \<open>m_exits\<close> are the sessions whose \<^verbatim>\<open>run\<close> has returned and which
  have stopped, with their last status, and whether \<^verbatim>\<open>onIdle\<close> has run: what is left of their
  deferred function.  The relation \<open>mstep\<close> interleaves the operations with the sessions.
\<close>

record manager =
  m_opts :: options
  m_sessions :: "(string \<times> session) list"
  m_revisions :: "(string \<times> string) list"
  m_blocked :: "string list"
  m_sticky :: "(string \<times> status) list"
  m_epochs :: "(string \<times> nat) list"
  m_profile :: profile
  m_closed :: bool
  m_detached :: "session list"
  m_exits :: "((string \<times> nat) \<times> status \<times> bool) list"

section \<open>Operations\<close>

definition new_manager :: "options \<Rightarrow> profile \<Rightarrow> manager" where
  "new_manager opts prof =
     \<lparr> m_opts = \<lparr> o_buffer_size = (if o_buffer_size opts < 8 then 1024 else o_buffer_size opts),
         o_idle_timeout = (if o_idle_timeout opts \<le> 0 then seconds 30 else o_idle_timeout opts),
         o_conn_timeout = (if o_conn_timeout opts \<le> 0 then seconds 10 else o_conn_timeout opts) \<rparr>,
       m_sessions = [], m_revisions = [], m_blocked = [], m_sticky = [], m_epochs = [],
       m_profile = normalize_profile prof, m_closed = False, m_detached = [], m_exits = [] \<rparr>"

definition epoch_of :: "manager \<Rightarrow> string \<Rightarrow> nat" where
  "epoch_of m ch = (case map_of (m_epochs m) ch of None \<Rightarrow> 0 | Some e \<Rightarrow> e)"

definition session_key :: "session \<Rightarrow> string \<times> nat" where
  "session_key s = (s_channel s, s_epoch s)"

text \<open>A session taken out of the map goes on running until it is stopped.\<close>

definition detach :: "string \<Rightarrow> manager \<Rightarrow> manager" where
  "detach ch m = (case map_of (m_sessions m) ch of None \<Rightarrow> m
     | Some s \<Rightarrow> m\<lparr>m_sessions := adel ch (m_sessions m), m_detached := s # m_detached m\<rparr>)"

definition start_session :: "(nat \<Rightarrow> nat) \<Rightarrow> string \<Rightarrow> source \<Rightarrow> manager \<Rightarrow> session \<times> manager" where
  "start_session roll ch src m =
     (let e = Suc (epoch_of m ch);
          s = (new_session roll ch src (m_opts m) (m_profile m))\<lparr>s_epoch := e\<rparr>
      in (s, m\<lparr>m_sticky := adel ch (m_sticky m), m_epochs := aput ch e (m_epochs m),
               m_sessions := aput ch s (m_sessions m)\<rparr>))"

definition retire_session :: "string \<Rightarrow> manager \<Rightarrow> session option \<times> manager" where
  "retire_session ch m =
     (map_of (m_sessions m) ch,
      detach ch (m\<lparr>m_sticky := adel ch (m_sticky m),
                   m_epochs := aput ch (Suc (epoch_of m ch)) (m_epochs m)\<rparr>))"

text \<open>The part of \<^verbatim>\<open>Subscribe\<close> under the mutex, in its steps: the revision is recorded, a stopped
  session makes room, one with the other mode is retired, and the session is found or started.\<close>

definition note_revision :: "string \<Rightarrow> source \<Rightarrow> manager \<Rightarrow> manager" where
  "note_revision ch src m =
     (if src_revision src \<noteq> [] then m\<lparr>m_revisions := aput ch (src_revision src) (m_revisions m)\<rparr> else m)"

definition reap_stopped :: "string \<Rightarrow> manager \<Rightarrow> manager" where
  "reap_stopped ch m = (case map_of (m_sessions m) ch of
     None \<Rightarrow> m | Some s \<Rightarrow> (if s_stopped s then detach ch m else m))"

definition retire_other_mode :: "string \<Rightarrow> source \<Rightarrow> manager \<Rightarrow> session option \<times> manager" where
  "retire_other_mode ch src m = (case map_of (m_sessions m) ch of
     None \<Rightarrow> (None, m)
   | Some s \<Rightarrow> (if src_transcode (s_source s) \<noteq> src_transcode src then retire_session ch m else (None, m)))"

definition get_session :: "(nat \<Rightarrow> nat) \<Rightarrow> string \<Rightarrow> source \<Rightarrow> manager \<Rightarrow> session \<times> manager" where
  "get_session roll ch src m = (case map_of (m_sessions m) ch of
     None \<Rightarrow> start_session roll ch src m | Some s \<Rightarrow> (s, m))"

definition stale_revision :: "string \<Rightarrow> source \<Rightarrow> manager \<Rightarrow> bool" where
  "stale_revision ch src m \<longleftrightarrow> (case map_of (m_revisions m) ch of
     None \<Rightarrow> False | Some cur \<Rightarrow> src_revision src \<noteq> [] \<and> cur \<noteq> src_revision src)"

record subscription =
  sub_key :: "string \<times> nat"
  sub_viewer :: nat
  sub_stale :: "session option"

definition subscribe ::
    "(nat \<Rightarrow> nat) \<Rightarrow> string \<Rightarrow> source \<Rightarrow> manager \<Rightarrow> (stream_err + subscription) \<times> manager" where
  "subscribe roll ch src0 m =
     (if ch = [] then (Inl (ErrMsg ''invalid channel id''), m)
      else case normalize_source src0 of
        None \<Rightarrow> (Inl (ErrMsg ''upstream url is required''), m)
      | Some src \<Rightarrow>
          if m_closed m then (Inl ErrClosed, m)
          else if ch \<in> set (m_blocked m) then (Inl ErrChannelBlocked, m)
          else if stale_revision ch src m then (Inl ErrStaleRevision, m)
          else
            let (stale, m3) = retire_other_mode ch src (reap_stopped ch (note_revision ch src m));
                (s, m4) = get_session roll ch src m3;
                (v, s') = add_viewer (o_buffer_size (m_opts m)) s
            in (Inr \<lparr> sub_key = session_key s', sub_viewer = v, sub_stale = stale \<rparr>,
                m4\<lparr>m_sessions := aput ch s' (m_sessions m4)\<rparr>))"

definition publish_channel ::
    "string \<Rightarrow> string \<Rightarrow> bool \<Rightarrow> manager \<Rightarrow> (stream_err + session option) \<times> manager" where
  "publish_channel ch revision invalidate m =
     (if ch = [] then (Inl (ErrMsg ''invalid channel id''), m)
      else let m1 = m\<lparr>m_blocked := filter (\<lambda>c. c \<noteq> ch) (m_blocked m),
                  m_revisions := (if revision \<noteq> [] then aput ch revision (m_revisions m) else m_revisions m)\<rparr>
           in if invalidate then (let (s, m2) = retire_session ch m1 in (Inr s, m2)) else (Inr None, m1))"

definition block_channel :: "string \<Rightarrow> manager \<Rightarrow> (stream_err + session option) \<times> manager" where
  "block_channel ch m =
     (if ch = [] then (Inl (ErrMsg ''invalid channel id''), m)
      else let m1 = m\<lparr>m_blocked := (if ch \<in> set (m_blocked m) then m_blocked m else ch # m_blocked m),
                  m_revisions := adel ch (m_revisions m)\<rparr>;
               (s, m2) = retire_session ch m1
           in (Inr s, m2))"

fun retire_all :: "string list \<Rightarrow> manager \<Rightarrow> session list \<times> manager" where
  "retire_all [] m = ([], m)"
| "retire_all (ch # chs) m =
     (let (s, m1) = retire_session ch m; (ss, m2) = retire_all chs m1
      in (case s of None \<Rightarrow> ss | Some x \<Rightarrow> x # ss, m2))"

definition apply_profile :: "profile \<Rightarrow> manager \<Rightarrow> session list \<times> manager" where
  "apply_profile prof m =
     (let m1 = m\<lparr>m_profile := normalize_profile prof\<rparr>
      in retire_all (map fst (filter (\<lambda>(_, s). src_transcode (s_source s)) (m_sessions m1))) m1)"

definition close_manager :: "manager \<Rightarrow> session list \<times> manager" where
  "close_manager m = retire_all (map fst (m_sessions m)) (m\<lparr>m_closed := True\<rparr>)"

definition manager_status :: "manager \<Rightarrow> string \<Rightarrow> status" where
  "manager_status m ch =
     (case map_of (m_sessions m) ch of
        Some s \<Rightarrow> session_status s
      | None \<Rightarrow> (case map_of (m_sticky m) ch of
            Some st \<Rightarrow> st
          | None \<Rightarrow> \<lparr> st_channel = ch, st_state = ''idle'', st_viewers = 0, st_last_error = [],
              st_bytes_sent = 0, st_connected_at = [], st_upstream_id = [], st_upstream_host = [] \<rparr>))"

definition all_statuses :: "manager \<Rightarrow> status list" where
  "all_statuses m =
     (let act = map (\<lambda>(_, s). session_status s) (m_sessions m)
      in act @ map snd (filter (\<lambda>(ch, _). ch \<notin> set (map st_channel act)) (m_sticky m)))"

definition remember_finish :: "string \<times> nat \<Rightarrow> status \<Rightarrow> manager \<Rightarrow> manager" where
  "remember_finish key st m =
     (let (ch, e) = key in
      if epoch_of m ch \<noteq> e then m
      else if map_of (m_sessions m) ch \<noteq> None then m
      else if st_state st = ''error'' \<and> \<not> blank (st_last_error st)
      then m\<lparr>m_sticky := aput ch (st\<lparr>st_channel := ch, st_viewers := 0\<rparr>) (m_sticky m)\<rparr>
      else m\<lparr>m_sticky := adel ch (m_sticky m)\<rparr>)"

definition remove_session :: "string \<times> nat \<Rightarrow> manager \<Rightarrow> manager" where
  "remove_session key m =
     (case map_of (m_sessions m) (fst key) of
        None \<Rightarrow> m
      | Some s \<Rightarrow> (if session_key s = key then detach (fst key) m else m))"

section \<open>The sessions and the manager together\<close>

text \<open>Changing a session through its pointer, wherever it is.\<close>

definition on_session :: "string \<times> nat \<Rightarrow> (session \<Rightarrow> session) \<Rightarrow> manager \<Rightarrow> manager" where
  "on_session key f m =
     (let g = (\<lambda>s. if session_key s = key then f s else s)
      in m\<lparr>m_sessions := map (\<lambda>(ch, s). (ch, g s)) (m_sessions m),
           m_detached := map g (m_detached m)\<rparr>)"

definition find_session :: "string \<times> nat \<Rightarrow> manager \<Rightarrow> session option" where
  "find_session key m = find (\<lambda>s. session_key s = key) (map snd (m_sessions m) @ m_detached m)"

text \<open>What a session does on its own keeps its channel and its epoch.\<close>

definition own_step :: "(session \<Rightarrow> session) \<Rightarrow> bool" where
  "own_step f \<longleftrightarrow> (\<forall>s. s_channel (f s) = s_channel s \<and> s_epoch (f s) = s_epoch s)"

text \<open>The deferred function of \<^verbatim>\<open>run\<close> up to \<^verbatim>\<open>stop\<close>, then \<^verbatim>\<open>onIdle\<close>, then \<^verbatim>\<open>onFinish\<close>.\<close>

definition exit_stop :: "string \<times> nat \<Rightarrow> manager \<Rightarrow> manager" where
  "exit_stop key m =
     (case find_session key m of
        None \<Rightarrow> m
      | Some s \<Rightarrow> (on_session key (\<lambda>x. snd (run_exit x)) m)\<lparr>m_exits := (key, fst (run_exit s), False) # m_exits m\<rparr>)"

definition exit_idle :: "string \<times> nat \<Rightarrow> status \<Rightarrow> manager \<Rightarrow> manager" where
  "exit_idle key st m =
     (let m1 = remove_session key m
      in m1\<lparr>m_exits := (key, st, True) # filter (\<lambda>x. fst x \<noteq> key) (m_exits m1)\<rparr>)"

definition exit_finish :: "string \<times> nat \<Rightarrow> status \<Rightarrow> manager \<Rightarrow> manager" where
  "exit_finish key st m =
     (let m1 = remember_finish key st m
      in m1\<lparr>m_exits := filter (\<lambda>x. fst x \<noteq> key) (m_exits m1),
            m_detached := filter (\<lambda>s. session_key s \<noteq> key) (m_detached m1)\<rparr>)"

inductive mstep :: "manager \<Rightarrow> manager \<Rightarrow> bool" where
  subscribe: "subscribe roll ch src m = (r, m') \<Longrightarrow> mstep m m'"
| publish: "publish_channel ch revision invalidate m = (r, m') \<Longrightarrow> mstep m m'"
| block: "block_channel ch m = (r, m') \<Longrightarrow> mstep m m'"
| profile: "apply_profile p m = (r, m') \<Longrightarrow> mstep m m'"
| close: "close_manager m = (r, m') \<Longrightarrow> mstep m m'"
| own: "own_step f \<Longrightarrow> mstep m (on_session key f m)"
| exit_stop: "mstep m (exit_stop key m)"
| exit_idle: "(key, st, False) \<in> set (m_exits m) \<Longrightarrow> mstep m (exit_idle key st m)"
| exit_finish: "(key, st, True) \<in> set (m_exits m) \<Longrightarrow> mstep m (exit_finish key st m)"

inductive reachable :: "manager \<Rightarrow> bool" where
  init: "reachable (new_manager opts prof)"
| step: "reachable m \<Longrightarrow> mstep m m' \<Longrightarrow> reachable m'"

section \<open>The invariant\<close>

definition live :: "manager \<Rightarrow> session list" where
  "live m = map snd (m_sessions m) @ m_detached m"

definition minv :: "manager \<Rightarrow> bool" where
  "minv m \<longleftrightarrow> amap (m_sessions m) \<and> amap (m_sticky m) \<and>
     (\<forall>ch s. map_of (m_sessions m) ch = Some s \<longrightarrow> s_channel s = ch \<and> s_epoch s = epoch_of m ch) \<and>
     (\<forall>s \<in> set (m_detached m). s_epoch s \<le> epoch_of m (s_channel s)) \<and>
     distinct (map session_key (live m)) \<and>
     (\<forall>ch st. map_of (m_sticky m) ch = Some st \<longrightarrow> map_of (m_sessions m) ch = None \<and>
        st_state st = ''error'' \<and> \<not> blank (st_last_error st) \<and> st_channel st = ch \<and>
        st_viewers st = 0) \<and>
     (\<forall>ch \<in> set (m_blocked m). map_of (m_sessions m) ch = None) \<and>
     (m_closed m \<longrightarrow> m_sessions m = [])"

lemma minvD:
  assumes "minv m"
  shows "amap (m_sessions m)" "amap (m_sticky m)"
    "map_of (m_sessions m) ch = Some s \<Longrightarrow> s_channel s = ch \<and> s_epoch s = epoch_of m ch"
    "x \<in> set (m_detached m) \<Longrightarrow> s_epoch x \<le> epoch_of m (s_channel x)"
    "distinct (map session_key (live m))"
    "map_of (m_sticky m) ch = Some st \<Longrightarrow> map_of (m_sessions m) ch = None \<and>
        st_state st = ''error'' \<and> \<not> blank (st_last_error st) \<and> st_channel st = ch \<and> st_viewers st = 0"
    "ch \<in> set (m_blocked m) \<Longrightarrow> map_of (m_sessions m) ch = None"
    "m_closed m \<Longrightarrow> m_sessions m = []"
  using assms unfolding minv_def by blast+

lemma minvI:
  assumes "amap (m_sessions m)" "amap (m_sticky m)"
    "\<And>ch s. map_of (m_sessions m) ch = Some s \<Longrightarrow> s_channel s = ch \<and> s_epoch s = epoch_of m ch"
    "\<And>s. s \<in> set (m_detached m) \<Longrightarrow> s_epoch s \<le> epoch_of m (s_channel s)"
    "distinct (map session_key (live m))"
    "\<And>ch st. map_of (m_sticky m) ch = Some st \<Longrightarrow> map_of (m_sessions m) ch = None \<and>
        st_state st = ''error'' \<and> \<not> blank (st_last_error st) \<and> st_channel st = ch \<and> st_viewers st = 0"
    "\<And>ch. ch \<in> set (m_blocked m) \<Longrightarrow> map_of (m_sessions m) ch = None"
    "m_closed m \<Longrightarrow> m_sessions m = []"
  shows "minv m"
  using assms unfolding minv_def by blast

lemma minv_new: "minv (new_manager opts prof)"
  by (simp add: minv_def new_manager_def live_def)

lemma detach_frame [simp]:
  "m_epochs (detach ch m) = m_epochs m" "m_sticky (detach ch m) = m_sticky m"
  "m_blocked (detach ch m) = m_blocked m" "m_closed (detach ch m) = m_closed m"
  "m_revisions (detach ch m) = m_revisions m" "m_opts (detach ch m) = m_opts m"
  "m_profile (detach ch m) = m_profile m" "epoch_of (detach ch m) = epoch_of m"
  "m_exits (detach ch m) = m_exits m"
  by (simp_all add: detach_def epoch_of_def fun_eq_iff split: option.splits)

lemma detach_sessions [simp]: "m_sessions (detach ch m) = adel ch (m_sessions m)"
  by (simp add: detach_def adel_none split: option.splits)

lemma live_detach:
  assumes "amap (m_sessions m)"
  shows "mset (live (detach ch m)) = mset (live m)"
proof (cases "map_of (m_sessions m) ch")
  case None
  then show ?thesis by (simp add: detach_def)
next
  case (Some s)
  from mset_adel [OF assms Some] Some show ?thesis by (simp add: live_def detach_def)
qed

lemma distinct_mset_map: "mset xs = mset ys \<Longrightarrow> distinct (map f xs) = distinct (map f ys)"
  by (metis mset_map mset_eq_imp_distinct_iff)

lemma minv_detach:
  assumes "minv m"
  shows "minv (detach ch m)"
proof -
  note I = minvD [OF assms]
  have d: "distinct (map session_key (live (detach ch m)))"
    using I(5) distinct_mset_map [OF live_detach [OF I(1), of ch]] by metis
  have e: "s_epoch s \<le> epoch_of m (s_channel s)" if s: "s \<in> set (m_detached (detach ch m))" for s
  proof -
    have "s \<in> set (m_detached m) \<or> map_of (m_sessions m) ch = Some s"
      using s by (auto simp: detach_def split: option.splits)
    with I(3) [of ch s] I(4) [of s] show ?thesis by auto
  qed
  show ?thesis
    unfolding minv_def
    using d e I by auto
qed

lemma minv_own:
  assumes "minv m" "own_step f"
  shows "minv (on_session key f m)"
proof -
  note I = minvD [OF assms(1)]
  define g where "g = (\<lambda>s. if session_key s = key then f s else s)"
  have g: "s_channel (g s) = s_channel s" "s_epoch (g s) = s_epoch s" for s
    using assms(2) by (simp_all add: g_def own_step_def)
  have key: "session_key (g s) = session_key s" for s by (simp add: session_key_def g)
  have se: "m_sessions (on_session key f m) = map (\<lambda>(ch, s). (ch, g s)) (m_sessions m)"
    and de: "m_detached (on_session key f m) = map g (m_detached m)"
    and fr: "m_sticky (on_session key f m) = m_sticky m" "m_blocked (on_session key f m) = m_blocked m"
      "m_closed (on_session key f m) = m_closed m" "epoch_of (on_session key f m) = epoch_of m"
    by (simp_all add: on_session_def g_def Let_def epoch_of_def fun_eq_iff)
  have mo: "map_of (map (\<lambda>(ch, s). (ch, g s)) kvs) ch = map_option g (map_of kvs ch)" for kvs ch
    by (induction kvs) auto
  have fs: "map fst (map (\<lambda>(ch, s). (ch, g s)) kvs) = map fst kvs" for kvs :: "(string \<times> session) list"
    by (induction kvs) auto
  have sn: "map snd (map (\<lambda>(ch, s). (ch, g s)) kvs) = map g (map snd kvs)" for kvs :: "(string \<times> session) list"
    by (induction kvs) auto
  have am: "amap (map (\<lambda>(ch, s). (ch, g s)) kvs) = amap kvs" for kvs :: "(string \<times> session) list"
    by (simp only: amap_def fs)
  have "map session_key (live (on_session key f m)) = map session_key (live m)"
    unfolding live_def se de sn by (simp add: key)
  with I show ?thesis
    unfolding minv_def se de fr mo am by (auto simp: g)
qed

lemma minv_cong:
  assumes "minv m" "m_sessions m' = m_sessions m" "m_detached m' = m_detached m"
    "m_sticky m' = m_sticky m" "m_epochs m' = m_epochs m" "m_closed m' = m_closed m"
    "set (m_blocked m') \<subseteq> set (m_blocked m)"
  shows "minv m'"
proof -
  have "epoch_of m' = epoch_of m" using assms(5) by (simp add: epoch_of_def fun_eq_iff)
  with assms show ?thesis unfolding minv_def live_def by auto
qed

lemma minv_retire:
  assumes "minv m" "retire_session ch m = (r, m')"
  shows "minv m'" "map_of (m_sessions m') ch = None" "m_blocked m' = m_blocked m"
    "m_closed m' = m_closed m" "epoch_of m' ch = Suc (epoch_of m ch)"
    "\<And>ch'. ch' \<noteq> ch \<Longrightarrow> epoch_of m' ch' = epoch_of m ch'"
    "m_sessions m' = adel ch (m_sessions m)" "map_of (m_sticky m') ch = None"
proof -
  define m1 where "m1 = m\<lparr>m_sticky := adel ch (m_sticky m),
    m_epochs := aput ch (Suc (epoch_of m ch)) (m_epochs m)\<rparr>"
  have m': "m' = detach ch m1" using assms(2) by (simp add: retire_session_def m1_def)
  have ep: "epoch_of m1 ch' = (if ch' = ch then Suc (epoch_of m ch) else epoch_of m ch')" for ch'
    by (simp add: m1_def epoch_of_def)
  note I = minvD [OF assms(1)] and D = minvD [OF minv_detach [OF assms(1), of ch]]
  have det: "m_detached (detach ch m1) = m_detached (detach ch m)"
    by (simp add: detach_def m1_def split: option.splits)
  have "live (detach ch m1) = live (detach ch m)"
    by (simp add: live_def det) (simp add: m1_def)
  then have dist: "distinct (map session_key (live m'))" using D(5) m' by simp
  have le: "s_epoch s \<le> epoch_of m1 (s_channel s)" if "s \<in> set (m_detached m')" for s
    using D(4) [of s] that by (auto simp: m' det ep)
  show "minv m'"
    unfolding minv_def
    using dist le I by (auto simp: m' m1_def ep [unfolded m1_def])
  show "map_of (m_sessions m') ch = None" "m_blocked m' = m_blocked m" "m_closed m' = m_closed m"
    "epoch_of m' ch = Suc (epoch_of m ch)" "\<And>ch'. ch' \<noteq> ch \<Longrightarrow> epoch_of m' ch' = epoch_of m ch'"
    "m_sessions m' = adel ch (m_sessions m)" "map_of (m_sticky m') ch = None"
    by (simp_all add: m' ep) (simp_all add: m1_def)
qed

lemma minv_start:
  assumes "minv m" "map_of (m_sessions m) ch = None" "ch \<notin> set (m_blocked m)" "\<not> m_closed m"
    "start_session roll ch src m = (s, m')"
  shows "minv m'" "map_of (m_sessions m') ch = Some s" "s_channel s = ch"
    "m_blocked m' = m_blocked m" "m_closed m' = m_closed m"
proof -
  note I = minvD [OF assms(1)]
  define e where "e = Suc (epoch_of m ch)"
  have chan: "s_channel (new_session roll ch src opts p) = ch" for opts p
    by (simp add: new_session_def Let_def apply_current_upstream_def)
  have s: "s = (new_session roll ch src (m_opts m) (m_profile m))\<lparr>s_epoch := e\<rparr>"
    and m': "m' = m\<lparr>m_sticky := adel ch (m_sticky m), m_epochs := aput ch e (m_epochs m),
               m_sessions := aput ch s (m_sessions m)\<rparr>"
    using assms(5) by (auto simp: start_session_def Let_def e_def)
  have sk: "s_channel s = ch" "s_epoch s = e" by (simp_all add: s chan)
  have ep: "epoch_of m' ch' = (if ch' = ch then e else epoch_of m ch')" for ch'
    by (simp add: m' epoch_of_def)
  have "aput ch s (m_sessions m) = m_sessions m @ [(ch, s)]"
    using assms(2) by (rule aput_new)
  then have live: "mset (live m') = add_mset s (mset (live m))" by (simp add: live_def m')
  have "session_key s \<notin> set (map session_key (live m))"
  proof
    assume "session_key s \<in> set (map session_key (live m))"
    then obtain x where x: "x \<in> set (live m)" "session_key x = session_key s" by auto
    have "s_epoch x \<le> epoch_of m (s_channel x)"
    proof (cases "x \<in> set (m_detached m)")
      case False
      with x(1) obtain c where "(c, x) \<in> set (m_sessions m)" by (auto simp: live_def)
      then have "map_of (m_sessions m) c = Some x" by (simp add: map_of_amap [OF I(1)])
      with I(3) [of c x] show ?thesis by simp
    qed (rule I(4))
    with x(2) sk show False by (simp add: session_key_def e_def)
  qed
  then have "distinct (map session_key (s # live m))" using I(5) by simp
  then have dist: "distinct (map session_key (live m'))"
    using distinct_mset_map [of "live m'" "s # live m" session_key] live by simp
  have se: "map_of (m_sessions m') c = (if c = ch then Some s else map_of (m_sessions m) c)"
    and sy: "map_of (m_sticky m') c = (if c = ch then None else map_of (m_sticky m) c)"
    and fr: "m_detached m' = m_detached m" "m_blocked m' = m_blocked m" "m_closed m' = m_closed m" for c
    by (simp_all add: m')
  have am: "amap (m_sessions m')" "amap (m_sticky m')" using I(1,2) by (simp_all add: m')
  have le: "\<forall>x \<in> set (m_detached m). s_epoch x \<le> epoch_of m' (s_channel x)"
    using I(4) by (auto simp: ep e_def intro: le_SucI)
  show "minv m'"
  proof (rule minvI)
    show "s_channel x = c \<and> s_epoch x = epoch_of m' c" if "map_of (m_sessions m') c = Some x" for c x
      using that I(3) [of c x] sk ep by (cases "c = ch") (simp_all add: se)
    show "map_of (m_sessions m') c = None \<and> st_state x = ''error'' \<and> \<not> blank (st_last_error x) \<and>
        st_channel x = c \<and> st_viewers x = 0" if "map_of (m_sticky m') c = Some x" for c x
      using that I(6) [of c x] by (cases "c = ch") (simp_all add: se sy)
    show "map_of (m_sessions m') c = None" if "c \<in> set (m_blocked m')" for c
      using that I(7) [of c] assms(3) by (cases "c = ch") (simp_all add: se fr)
    show "m_closed m' \<Longrightarrow> m_sessions m' = []" using assms(4) by (simp add: fr)
  qed (use am dist le fr in auto)
  show "map_of (m_sessions m') ch = Some s" "s_channel s = ch" "m_blocked m' = m_blocked m"
    "m_closed m' = m_closed m"
    by (simp_all add: m' sk)
qed

lemma minv_put_session:
  assumes "minv m" "map_of (m_sessions m) ch = Some s" "s_channel s' = s_channel s" "s_epoch s' = s_epoch s"
  shows "minv (m\<lparr>m_sessions := aput ch s' (m_sessions m)\<rparr>)"
proof -
  note I = minvD [OF assms(1)]
  let ?m = "m\<lparr>m_sessions := aput ch s' (m_sessions m)\<rparr>"
  have ep: "epoch_of ?m = epoch_of m" by (simp add: epoch_of_def fun_eq_iff)
  have key: "session_key s' = session_key s" using assms(3,4) by (simp add: session_key_def)
  have keys: "map (session_key \<circ> snd) (aput ch s' kvs) = map (session_key \<circ> snd) kvs"
    if "map_of kvs ch = Some s" for kvs
    using that by (induction kvs) (auto simp: key split: if_splits)
  have st: "map_of (m_sticky m) ch = None"
    using I(6) [of ch] assms(2) by (cases "map_of (m_sticky m) ch") auto
  from keys [OF assms(2)]
  have dist: "distinct (map session_key (live ?m))"
    using I(5) by (simp add: live_def)
  show ?thesis
    unfolding minv_def ep using dist I assms(2-4) st
    by (auto split: if_splits)
qed

lemma add_viewer_frame:
  "add_viewer n s = (v, s') \<Longrightarrow> s_channel s' = s_channel s \<and> s_epoch s' = s_epoch s \<and>
   s_source s' = s_source s"
  by (auto simp: add_viewer_def Let_def)

lemma subscribe_InrD:
  assumes "subscribe roll ch src0 m = (Inr sub, m')"
  obtains src stale m3 s m4 v s' where "normalize_source src0 = Some src" "ch \<noteq> []" "\<not> m_closed m"
    "ch \<notin> set (m_blocked m)" "\<not> stale_revision ch src m"
    "retire_other_mode ch src (reap_stopped ch (note_revision ch src m)) = (stale, m3)"
    "get_session roll ch src m3 = (s, m4)" "add_viewer (o_buffer_size (m_opts m)) s = (v, s')"
    "m' = m4\<lparr>m_sessions := aput ch s' (m_sessions m4)\<rparr>"
    "sub = \<lparr> sub_key = session_key s', sub_viewer = v, sub_stale = stale \<rparr>"
  using assms by (auto simp: subscribe_def Let_def split: if_splits option.splits prod.splits)

lemma subscribe_Inl: "subscribe roll ch src0 m = (Inl e, m') \<Longrightarrow> m' = m"
  by (auto simp: subscribe_def Let_def split: if_splits option.splits prod.splits)

lemma minv_get:
  assumes "minv m" "ch \<notin> set (m_blocked m)" "\<not> m_closed m"
    and "retire_other_mode ch src (reap_stopped ch (note_revision ch src m)) = (stale, m3)"
    and "get_session roll ch src m3 = (s, m4)"
  shows "minv m4 \<and> map_of (m_sessions m4) ch = Some s \<and> m_blocked m4 = m_blocked m \<and> m_closed m4 = m_closed m"
proof -
  let ?m1 = "note_revision ch src m" and ?m2 = "reap_stopped ch (note_revision ch src m)"
  have i1: "minv ?m1" by (rule minv_cong [OF assms(1)]) (auto simp: note_revision_def)
  have b1: "m_blocked ?m1 = m_blocked m" "m_closed ?m1 = m_closed m" by (auto simp: note_revision_def)
  have i2: "minv ?m2" "m_blocked ?m2 = m_blocked m" "m_closed ?m2 = m_closed m"
    using i1 minv_detach [OF i1] b1 by (auto simp: reap_stopped_def split: option.splits)
  have i3: "minv m3" "m_blocked m3 = m_blocked m" "m_closed m3 = m_closed m"
    using assms(4) i2 minv_retire [OF i2(1), of ch stale m3]
    by (auto simp: retire_other_mode_def split: option.splits if_splits)
  show ?thesis
  proof (cases "map_of (m_sessions m3) ch")
    case None
    with assms(5) have "start_session roll ch src m3 = (s, m4)" by (simp add: get_session_def)
    from minv_start [OF i3(1) None _ _ this] assms(2,3) i3 show ?thesis by simp
  next
    case (Some x)
    with assms(5) i3 show ?thesis by (auto simp: get_session_def)
  qed
qed

lemma add_viewer_last:
  "add_viewer n s = (v, s') \<Longrightarrow> last (s_viewers s') \<in> set (s_viewers s') \<and>
   v_id (last (s_viewers s')) = v \<and> v_in (last (s_viewers s'))"
  by (auto simp: add_viewer_def Let_def try_send_def split: option.splits)

lemma minv_subscribe:
  assumes "minv m" "subscribe roll ch src0 m = (r, m')"
  shows "minv m'"
proof (cases r)
  case (Inl e)
  with assms subscribe_Inl show ?thesis by blast
next
  case (Inr sub)
  with assms(2) have "subscribe roll ch src0 m = (Inr sub, m')" by simp
  then show ?thesis
  proof (rule subscribe_InrD)
    fix src stale m3 s m4 v s'
    assume a: "ch \<notin> set (m_blocked m)" "\<not> m_closed m"
      "retire_other_mode ch src (reap_stopped ch (note_revision ch src m)) = (stale, m3)"
      "get_session roll ch src m3 = (s, m4)" "add_viewer (o_buffer_size (m_opts m)) s = (v, s')"
      "m' = m4\<lparr>m_sessions := aput ch s' (m_sessions m4)\<rparr>"
    from minv_get [OF assms(1) a(1-4)] minv_put_session [of m4 ch s s'] add_viewer_frame [OF a(5)]
    show "minv m'" unfolding a(6) by blast
  qed
qed

lemma minv_retire_all:
  assumes "minv m" "retire_all chs m = (r, m')"
  shows "minv m' \<and> m_blocked m' = m_blocked m \<and> m_closed m' = m_closed m"
  using assms
proof (induction chs arbitrary: m r m')
  case (Cons ch chs)
  obtain s m1 where s: "retire_session ch m = (s, m1)" by fastforce
  obtain ss m2 where ss: "retire_all chs m1 = (ss, m2)" by fastforce
  from Cons.prems(2) s ss have "m' = m2" by simp
  with minv_retire [OF Cons.prems(1) s] Cons.IH [of m1 ss m2] ss show ?case by simp
qed simp

lemma retire_all_sessions:
  "retire_all chs m = (r, m') \<Longrightarrow> m_sessions m' = filter (\<lambda>(k, _). k \<notin> set chs) (m_sessions m)"
proof (induction chs arbitrary: m r m')
  case Nil
  then show ?case by simp
next
  case (Cons ch chs)
  obtain s m1 where s: "retire_session ch m = (s, m1)" by fastforce
  obtain ss m2 where ss: "retire_all chs m1 = (ss, m2)" by fastforce
  have "m_sessions m1 = adel ch (m_sessions m)" using s by (auto simp: retire_session_def)
  with Cons.IH [OF ss] Cons.prems s ss show ?case
    by (auto simp: adel_def intro!: filter_cong)
qed

lemma minv_remember:
  assumes "minv m"
  shows "minv (remember_finish key st m)"
proof -
  note I = minvD [OF assms]
  obtain ch e where key: "key = (ch, e)" by (cases key)
  let ?m = "remember_finish key st m"
  have fr: "m_sessions ?m = m_sessions m" "m_detached ?m = m_detached m" "m_blocked ?m = m_blocked m"
    "m_closed ?m = m_closed m" "m_epochs ?m = m_epochs m"
    by (simp_all add: remember_finish_def key)
  then have ep: "epoch_of ?m = epoch_of m" "live ?m = live m"
    by (simp_all add: epoch_of_def fun_eq_iff live_def)
  have am: "amap (m_sticky ?m)" using I(2) by (auto simp: remember_finish_def key)
  have st: "map_of (m_sessions m) c = None \<and> st_state x = ''error'' \<and> \<not> blank (st_last_error x) \<and>
      st_channel x = c \<and> st_viewers x = 0" if "map_of (m_sticky ?m) c = Some x" for c x
    using that I(6) by (auto simp: remember_finish_def key split: if_splits)
  show ?thesis
    unfolding minv_def ep fr using I am st by blast
qed

lemma exit_own: "own_step (\<lambda>s. snd (run_exit s))"
  by (simp add: own_step_def run_exit_def Let_def stop_def fail_ready_def cancel_pump_def split: option.splits)

lemma minv_exit_stop:
  assumes "minv m"
  shows "minv (exit_stop key m)"
proof (cases "find_session key m")
  case (Some s)
  have "minv (on_session key (\<lambda>x. snd (run_exit x)) m)" by (rule minv_own [OF assms exit_own])
  then show ?thesis unfolding exit_stop_def Some by (auto intro: minv_cong)
qed (simp add: exit_stop_def assms)

lemma minv_remove: "minv m \<Longrightarrow> minv (remove_session key m)"
  by (auto simp: remove_session_def minv_detach split: option.splits)

lemma minv_exit_finish:
  assumes "minv m"
  shows "minv (exit_finish key st m)"
proof -
  let ?r = "remember_finish key st m"
  note I = minvD [OF minv_remember [OF assms, of key st]]
  have "distinct (map session_key (map snd (m_sessions ?r) @ filter (\<lambda>s. session_key s \<noteq> key) (m_detached ?r)))"
    using I(5) by (auto simp: live_def distinct_map_filter)
  then show ?thesis
    unfolding exit_finish_def Let_def
    by (intro minvI) (use I in \<open>auto simp: live_def epoch_of_def\<close>)
qed

lemma minv_step: "mstep m m' \<Longrightarrow> minv m \<Longrightarrow> minv m'"
proof (induction rule: mstep.induct)
  case (subscribe roll ch src m r m')
  then show ?case using minv_subscribe by blast
next
  case (publish ch revision invalidate m r m')
  show ?case
  proof (cases "ch = []")
    case False
    define m1 where "m1 = m\<lparr>m_blocked := filter (\<lambda>c. c \<noteq> ch) (m_blocked m),
      m_revisions := (if revision \<noteq> [] then aput ch revision (m_revisions m) else m_revisions m)\<rparr>"
    have i1: "minv m1" by (rule minv_cong [OF publish(2)]) (auto simp: m1_def)
    obtain s m2 where s: "retire_session ch m1 = (s, m2)" by fastforce
    from publish(1) False s i1 minv_retire(1) [OF i1 s] show ?thesis
      by (auto simp: publish_channel_def Let_def m1_def [symmetric] split: if_splits)
  qed (use publish in \<open>simp add: publish_channel_def\<close>)
next
  case (block ch m r m')
  show ?case
  proof (cases "ch = []")
    case False
    define m0 where "m0 = m\<lparr>m_revisions := adel ch (m_revisions m)\<rparr>"
    have i0: "minv m0" by (rule minv_cong [OF block(2)]) (auto simp: m0_def)
    obtain s m2 where s: "retire_session ch m0 = (s, m2)" by fastforce
    note R = minv_retire [OF i0 s]
    define bl where "bl = (if ch \<in> set (m_blocked m) then m_blocked m else ch # m_blocked m)"
    have m': "m' = m2\<lparr>m_blocked := bl\<rparr>"
      using block(1) False s
      by (auto simp: block_channel_def Let_def m0_def bl_def retire_session_def detach_def epoch_of_def
          split: option.splits)
    have "set bl \<subseteq> insert ch (set (m_blocked m2))" using R(3) by (auto simp: bl_def m0_def)
    with minvD [OF R(1)] R(2) show ?thesis
      unfolding m' by (intro minvI) (auto simp: live_def epoch_of_def)
  qed (use block in \<open>simp add: block_channel_def\<close>)
next
  case (profile p m r m')
  have "minv (m\<lparr>m_profile := normalize_profile p\<rparr>)" by (rule minv_cong [OF profile(2)]) auto
  from minv_retire_all [OF this] profile(1) show ?case by (auto simp: apply_profile_def Let_def)
next
  case (close m r m')
  have c: "retire_all (map fst (m_sessions m)) (m\<lparr>m_closed := True\<rparr>) = (r, m')"
    using close(1) by (simp add: close_manager_def)
  obtain r0 m0 where c0: "retire_all (map fst (m_sessions m)) m = (r0, m0)" by fastforce
  have comm: "retire_all chs (x\<lparr>m_closed := True\<rparr>) = (fst (retire_all chs x), (snd (retire_all chs x))\<lparr>m_closed := True\<rparr>)"
    for chs x
  proof (induction chs arbitrary: x)
    case (Cons ch chs)
    have "retire_session ch (x\<lparr>m_closed := True\<rparr>) =
        (fst (retire_session ch x), (snd (retire_session ch x))\<lparr>m_closed := True\<rparr>)"
      by (simp add: retire_session_def detach_def epoch_of_def split: option.splits)
    with Cons.IH show ?case by (simp add: case_prod_beta split: option.splits)
  qed simp
  have m': "m' = m0\<lparr>m_closed := True\<rparr>" using c c0 comm [of "map fst (m_sessions m)" m] by simp
  have "minv m0" using minv_retire_all [OF close(2) c0] by simp
  moreover have "m_sessions m0 = []"
    using retire_all_sessions [OF c0] by (auto simp: filter_empty_conv image_iff)
  ultimately show ?case
    unfolding m' using minvD [of m0] by (intro minvI) (auto simp: live_def epoch_of_def)
next
  case (own f m key)
  then show ?case using minv_own by blast
next
  case (exit_stop m key)
  then show ?case by (rule minv_exit_stop)
next
  case (exit_idle key st m)
  have "minv (remove_session key m)" using exit_idle(2) by (rule minv_remove)
  then show ?case unfolding exit_idle_def Let_def by (rule minv_cong) auto
next
  case (exit_finish key st m)
  then show ?case by (intro minv_exit_finish)
qed

lemma minv_reachable: "reachable m \<Longrightarrow> minv m"
  by (induction rule: reachable.induct) (auto intro: minv_new minv_step)

inductive_cases mstepE: "mstep m m'"

section \<open>Epochs only grow\<close>

lemma detach_epoch: "epoch_of (detach ch m) = epoch_of m"
  by simp

lemma retire_epoch: "retire_session ch m = (r, m') \<Longrightarrow>
  epoch_of m' c = (if c = ch then Suc (epoch_of m c) else epoch_of m c)"
  by (auto simp: retire_session_def epoch_of_def)

lemma retire_all_epoch: "retire_all chs m = (r, m') \<Longrightarrow> epoch_of m c \<le> epoch_of m' c"
proof (induction chs arbitrary: m r m')
  case (Cons ch chs)
  obtain s m1 where s: "retire_session ch m = (s, m1)" by fastforce
  obtain ss m2 where ss: "retire_all chs m1 = (ss, m2)" by fastforce
  from Cons.prems s ss have "m' = m2" by simp
  with Cons.IH [OF ss] retire_epoch [OF s, of c] show ?case by (auto split: if_splits)
qed simp

lemma subscribe_epoch:
  assumes "subscribe roll ch src m = (r, m')"
  shows "epoch_of m c \<le> epoch_of m' c"
proof (cases r)
  case (Inl e)
  with assms subscribe_Inl show ?thesis by fastforce
next
  case (Inr sub)
  with assms have "subscribe roll ch src m = (Inr sub, m')" by simp
  then show ?thesis
  proof (rule subscribe_InrD)
    fix sr stale m3 s m4 v s'
    assume a: "retire_other_mode ch sr (reap_stopped ch (note_revision ch sr m)) = (stale, m3)"
      "get_session roll ch sr m3 = (s, m4)" "m' = m4\<lparr>m_sessions := aput ch s' (m_sessions m4)\<rparr>"
    have "epoch_of (reap_stopped ch (note_revision ch sr m)) = epoch_of m"
      by (auto simp: reap_stopped_def note_revision_def epoch_of_def fun_eq_iff split: option.splits)
    then have "epoch_of m c \<le> epoch_of m3 c"
      using a(1) retire_epoch [of ch _ stale m3 c]
      by (fastforce simp: retire_other_mode_def split: option.splits if_splits)
    also have "epoch_of m3 c \<le> epoch_of m4 c"
      using a(2) by (auto simp: get_session_def start_session_def Let_def epoch_of_def
          split: option.splits if_splits)
    finally show ?thesis using a(3) by (simp add: epoch_of_def)
  qed
qed

lemma remember_epoch: "epoch_of (remember_finish key st m) = epoch_of m"
  by (simp add: remember_finish_def epoch_of_def fun_eq_iff split: prod.splits)

lemma step_epoch: "mstep m m' \<Longrightarrow> epoch_of m c \<le> epoch_of m' c"
proof (induction rule: mstep.induct)
  case (subscribe roll ch src m r m')
  then show ?case by (rule subscribe_epoch)
next
  case (publish ch revision invalidate m r m')
  then show ?case
    by (auto simp: publish_channel_def retire_session_def Let_def epoch_of_def split: if_splits)
next
  case (block ch m r m')
  then show ?case
    by (auto simp: block_channel_def retire_session_def Let_def epoch_of_def split: if_splits)
next
  case (profile p m r m')
  then show ?case
    using retire_all_epoch [of _ "m\<lparr>m_profile := normalize_profile p\<rparr>" r m' c]
    by (auto simp: apply_profile_def Let_def epoch_of_def)
next
  case (close m r m')
  then show ?case
    using retire_all_epoch [of _ "m\<lparr>m_closed := True\<rparr>" r m' c]
    by (auto simp: close_manager_def epoch_of_def)
next
  case (own f m key)
  then show ?case by (simp add: on_session_def epoch_of_def Let_def)
next
  case (exit_stop m key)
  then show ?case by (auto simp: exit_stop_def on_session_def epoch_of_def Let_def split: option.splits)
next
  case (exit_idle key st m)
  have "m_epochs (remove_session key m) = m_epochs m"
    by (simp add: remove_session_def split: option.splits)
  then show ?case by (simp add: exit_idle_def Let_def epoch_of_def)
next
  case (exit_finish key st m)
  have "epoch_of (exit_finish key st m) = epoch_of (remember_finish key st m)"
    by (simp add: exit_finish_def Let_def epoch_of_def fun_eq_iff)
  then show ?case by (simp add: remember_epoch)
qed

section \<open>Properties\<close>

text \<open>C15: In every state the manager can reach, whatever its sessions do: each session in its map
  is the newest of its channel and no other session with its identity is alive; a channel with
  a sticky status has no session and that status is an error with a text and no viewers; a
  blocked channel has no session; and a closed manager has none at all.\<close>

theorem manager_invariant:
  assumes "reachable m"
  shows "(\<forall>ch s. map_of (m_sessions m) ch = Some s \<longrightarrow> s_channel s = ch \<and> s_epoch s = epoch_of m ch) \<and>
    distinct (map session_key (live m)) \<and>
    (\<forall>ch st. map_of (m_sticky m) ch = Some st \<longrightarrow> map_of (m_sessions m) ch = None \<and>
       st_state st = ''error'' \<and> \<not> blank (st_last_error st) \<and> st_viewers st = 0) \<and>
    list_all (\<lambda>ch. map_of (m_sessions m) ch = None) (m_blocked m) \<and>
    (m_closed m \<longrightarrow> m_sessions m = [])"
  using minvD [OF minv_reachable [OF assms]] by (auto simp: list_all_iff)

lemma manager_invariant_witness:
  "m_sessions (snd (close_manager (new_manager
      \<lparr> o_buffer_size = 8, o_idle_timeout = 1, o_conn_timeout = 1 \<rparr> default_profile))) = []"
proof -
  let ?m = "new_manager \<lparr> o_buffer_size = 8, o_idle_timeout = 1, o_conn_timeout = 1 \<rparr> default_profile"
  have "reachable (snd (close_manager ?m))"
    by (rule reachable.step [OF reachable.init mstep.close [OF prod.collapse [symmetric]]])
  from manager_invariant [OF this] show ?thesis
    by (simp add: close_manager_def new_manager_def)
qed

text \<open>C40: A session that was retired (its channel was republished, blocked, or the manager
  closed) never publishes its last status again, however late it ends.\<close>

theorem retired_never_sticky:
  assumes "reachable m" "map_of (m_sessions m) ch = Some s" "retire_session ch m = (r, m1)"
    and "mstep\<^sup>*\<^sup>* m1 m2"
  shows "m_sticky (exit_finish (session_key s) st m2) = m_sticky m2"
proof -
  have s: "s_channel s = ch" "s_epoch s = epoch_of m ch"
    using minvD(3) [OF minv_reachable [OF assms(1)] assms(2)] by auto
  have "epoch_of m1 ch = Suc (epoch_of m ch)" using retire_epoch [OF assms(3), of ch] by simp
  moreover have "epoch_of m1 ch \<le> epoch_of m2 ch"
    using assms(4) by (induction rule: rtranclp_induct) (auto dest: step_epoch [of _ _ ch])
  ultimately have "epoch_of m2 ch \<noteq> s_epoch s" using s(2) by simp
  then show ?thesis
    by (simp add: exit_finish_def Let_def remember_finish_def session_key_def s(1))
qed


text \<open>AllStatuses reports each channel at most once.\<close>

theorem all_statuses_once:
  assumes "reachable m"
  shows "distinct (map st_channel (all_statuses m))"
proof -
  note I = minvD [OF minv_reachable [OF assms]]
  have sc: "st_channel (session_status s) = s_channel s" for s
    by (simp add: session_status_def Let_def split: prod.splits)
  have act: "map st_channel (map (\<lambda>(_, s). session_status s) (m_sessions m)) = map fst (m_sessions m)"
    using I(3) by (auto simp: sc map_of_amap [OF I(1)])
  have st: "map st_channel (map snd (filter P (m_sticky m))) = map fst (filter P (m_sticky m))" for P
    using I(6) by (auto simp: map_of_amap [OF I(2)])
  have "distinct (map fst (filter P (m_sticky m)))" for P
    using I(2) by (simp add: amap_def distinct_map_filter)
  then show ?thesis
    using I(1) unfolding all_statuses_def Let_def map_append act st
    by (force simp: amap_def)
qed

section \<open>Witnesses\<close>

definition demo_options :: options where
  "demo_options = \<lparr> o_buffer_size = 8, o_idle_timeout = 1, o_conn_timeout = 1 \<rparr>"

definition demo_source :: source where
  "demo_source = \<lparr> src_policy = ''fixed'', src_upstreams = [\<lparr> up_id = ''u'', up_url = ''u'',
     up_headers = [], up_candidates = [], up_transcode = False, up_revision = [] \<rparr>],
     src_fixed_index = 0, src_transcode = False, src_revision = ''r1'' \<rparr>"

definition demo_manager :: manager where
  "demo_manager = snd (subscribe (\<lambda>_. 0) ''ch'' demo_source (new_manager demo_options default_profile))"

lemma demo_manager_reachable: "reachable demo_manager"
  unfolding demo_manager_def
  by (rule reachable.step [OF reachable.init mstep.subscribe [OF prod.collapse [symmetric]]])

lemma demo_normal: "normalize_source demo_source = Some demo_source"
  by code_simp

lemma demo_subscribe:
  "\<exists>sub m'. subscribe (\<lambda>_. 0) ''ch'' demo_source (new_manager demo_options default_profile) = (Inr sub, m')
    \<and> map_of (m_sessions m') ''ch'' \<noteq> None"
  by (simp add: subscribe_def demo_normal new_manager_def stale_revision_def note_revision_def
      reap_stopped_def retire_other_mode_def get_session_def case_prod_beta)

lemma retired_never_sticky_witness:
  "\<exists>s. map_of (m_sessions demo_manager) ''ch'' = Some s \<and>
     m_sticky (exit_finish (session_key s) (session_status s) (snd (retire_session ''ch'' demo_manager))) =
       m_sticky (snd (retire_session ''ch'' demo_manager))"
proof -
  obtain s where s: "map_of (m_sessions demo_manager) ''ch'' = Some s"
    using demo_subscribe by (auto simp: demo_manager_def)
  from retired_never_sticky [OF demo_manager_reachable s prod.collapse [symmetric] rtranclp.rtrancl_refl] s
  show ?thesis by blast
qed


lemma all_statuses_once_witness: "distinct (map st_channel (all_statuses demo_manager))"
  by (rule all_statuses_once [OF demo_manager_reachable])

end
