(* ===== verification/Delivery.thy ===== *)
theory Delivery
  imports Pump
begin

text \<open>
  What the viewers of a session receive: the facts about \<^verbatim>\<open>broadcast\<close>, the copy loop and the
  readers taken together.  The bytes a viewer has read, then the rest of its reader's buffer,
  then its queue, are what was broadcast since it joined, until it is dropped; a viewer that
  waits for a keyframe starts with the tables and a random-access packet; the copy loop
  broadcasts what the framer of \<^verbatim>\<open>Mpegts\<close> delivers.
\<close>

section \<open>One viewer in the list\<close>

lemma find_map_id:
  "(\<And>v. v_id (g v) = v_id v) \<Longrightarrow>
   find (\<lambda>v. v_id v = i) (map g vs) = map_option g (find (\<lambda>v. v_id v = i) vs)"
  by (induction vs) auto

lemma find_viewer_map_viewer:
  assumes "\<And>v. v_id (f v) = v_id v"
  shows "find_viewer (map_viewer j f s) i = map_option (\<lambda>v. if i = j then f v else v) (find_viewer s i)"
proof -
  have "find_viewer (map_viewer j f s) i =
      map_option (\<lambda>v. if v_id v = j then f v else v) (find_viewer s i)"
    unfolding find_viewer_def map_viewer_def using assms by (simp add: find_map_id)
  moreover have "find_viewer s i = Some v \<Longrightarrow> v_id v = i" for v
    by (auto simp: find_viewer_def find_Some_iff)
  ultimately show ?thesis by (cases "find_viewer s i") auto
qed

lemma find_viewer_cong: "s_viewers s = s_viewers t \<Longrightarrow> find_viewer s i = find_viewer t i"
  by (simp add: find_viewer_def)

lemma find_viewer_remove: "find_viewer (remove_viewer j s) i =
  map_option (\<lambda>v. if i = j \<and> v_in v then drop_viewer v else v) (find_viewer s i)"
proof -
  let ?f = "\<lambda>v. if v_in v then drop_viewer v else v"
  have "find_viewer (remove_viewer j s) i = find_viewer (map_viewer j ?f s) i"
    by (rule find_viewer_cong) (simp add: remove_viewer_def Let_def)
  then show ?thesis
    by (subst (asm) find_viewer_map_viewer) (auto simp: drop_viewer_def map_option_case split: option.splits)
qed

lemma deliver_id [simp]: "v_id (deliver st p v) = v_id v"
  by (auto simp: deliver_def Let_def try_send_def drop_viewer_def split: option.splits)

lemma find_viewer_broadcast:
  "find_viewer (broadcast p s) i = map_option (deliver (startup_packets s) p) (find_viewer s i)"
proof -
  have "find_viewer (broadcast p s) i =
      find_viewer (s\<lparr>s_viewers := map (deliver (startup_packets s) p) (s_viewers s)\<rparr>) i"
    by (rule find_viewer_cong) (simp add: broadcast_def Let_def)
  then show ?thesis by (simp add: find_viewer_def find_map_id)
qed

lemma find_viewer_join:
  "find_viewer s i = Some v \<Longrightarrow> find_viewer (snd (add_viewer buf s)) i = Some v"
  by (auto simp: find_viewer_def add_viewer_def Let_def find_Some_iff nth_append)

lemma find_viewer_stop: "find_viewer (stop s) i =
  (if s_stopped s then find_viewer s i
   else map_option (\<lambda>v. if v_in v then drop_viewer v else v) (find_viewer s i))"
proof (cases "s_stopped s")
  case False
  have "find_viewer (stop s) i =
      find_viewer (s\<lparr>s_viewers := map (\<lambda>v. if v_in v then drop_viewer v else v) (s_viewers s)\<rparr>) i"
    using False by (intro find_viewer_cong) (simp add: stop_def Let_def fail_ready_def)
  with False show ?thesis by (simp add: find_viewer_def find_map_id drop_viewer_def)
qed (simp add: stop_def)

section \<open>Sends and reads of one viewer\<close>

text \<open>What happens to a session as seen by viewer \<open>i\<close> with its reader: a broadcast, a read, or
  something another goroutine does.\<close>

datatype delivery = Send "byte list" | Recv nat | Other sched

fun other_viewer :: "nat \<Rightarrow> sched \<Rightarrow> bool" where
  "other_viewer i (Take j n) \<longleftrightarrow> i \<noteq> j"
| "other_viewer i _ \<longleftrightarrow> True"

fun stream_step :: "delivery \<Rightarrow> byte list \<times> reader \<times> session \<Rightarrow> byte list \<times> reader \<times> session" where
  "stream_step (Send p) (got, r, s) = (got, r, broadcast p s)"
| "stream_step (Recv n) (got, r, s) =
     (case reader_read n r s of
        (GotBytes bs, r', s') \<Rightarrow> (got @ bs, r', s')
      | (_, r', s') \<Rightarrow> (got, r', s'))"
| "stream_step (Other ev) (got, r, s) = (got, r, env_step ev s)"

fun sent :: "delivery list \<Rightarrow> byte list" where
  "sent [] = []"
| "sent (Send p # ds) = p @ sent ds"
| "sent (_ # ds) = sent ds"

text \<open>Got so far, in the reader's buffer, in the queue.\<close>

definition pending :: "nat \<Rightarrow> byte list \<times> reader \<times> session \<Rightarrow> byte list" where
  "pending i st = (case st of (got, r, s) \<Rightarrow> got @ r_buf r @
     (case find_viewer s i of None \<Rightarrow> [] | Some v \<Rightarrow> concat (v_ch v)))"

definition following :: "nat \<Rightarrow> byte list \<times> reader \<times> session \<Rightarrow> bool" where
  "following i st \<longleftrightarrow> (case st of (got, r, s) \<Rightarrow> r_viewer r = i \<and>
     (\<exists>v. find_viewer s i = Some v \<and> \<not> v_wait_keyframe v))"

definition still_in :: "nat \<Rightarrow> byte list \<times> reader \<times> session \<Rightarrow> bool" where
  "still_in i st \<longleftrightarrow> (case st of (got, r, s) \<Rightarrow> \<exists>v. find_viewer s i = Some v \<and> v_in v)"

lemma first_chunk_Some: "first_chunk cs = Some (c, rest) \<Longrightarrow> concat cs = c @ concat rest"
  by (induction cs) (auto split: if_splits)

lemma first_chunk_None: "first_chunk cs = None \<Longrightarrow> concat cs = []"
  by (induction cs) (auto split: if_splits)

lemma pending_send:
  assumes "following i (got, r, s)"
  shows "following i (stream_step (Send p) (got, r, s)) \<and>
    (if still_in i (stream_step (Send p) (got, r, s))
     then still_in i (got, r, s) \<and>
       pending i (stream_step (Send p) (got, r, s)) = pending i (got, r, s) @ p
     else pending i (stream_step (Send p) (got, r, s)) = pending i (got, r, s))"
proof -
  from assms obtain v where v: "r_viewer r = i" "find_viewer s i = Some v" "\<not> v_wait_keyframe v"
    by (auto simp: following_def)
  show ?thesis
    using v
    by (auto simp: following_def still_in_def pending_def find_viewer_broadcast deliver_def Let_def
        try_send_def drop_viewer_def split: option.splits if_splits)
qed

lemma pending_recv:
  assumes "following i (got, r, s)"
  shows "following i (stream_step (Recv n) (got, r, s)) \<and>
    (still_in i (stream_step (Recv n) (got, r, s)) \<longrightarrow> still_in i (got, r, s)) \<and>
    pending i (stream_step (Recv n) (got, r, s)) = pending i (got, r, s)"
proof -
  from assms obtain v where v: "r_viewer r = i" "find_viewer s i = Some v" "\<not> v_wait_keyframe v"
    by (auto simp: following_def)
  show ?thesis
  proof (cases "r_buf r = []")
    case False
    with v show ?thesis by (auto simp: following_def still_in_def pending_def reader_read_def)
  next
    case True
    show ?thesis
    proof (cases "first_chunk (v_ch v)")
      case None
      with v True first_chunk_None [OF None] show ?thesis
        by (auto simp: following_def still_in_def pending_def reader_read_def Let_def
            find_viewer_remove find_viewer_map_viewer drop_viewer_def)
    next
      case (Some cr)
      then obtain c rest where c: "first_chunk (v_ch v) = Some (c, rest)" by (cases cr) auto
      with v True first_chunk_Some [OF c] show ?thesis
        by (auto simp: following_def still_in_def pending_def reader_read_def
            find_viewer_map_viewer)
    qed
  qed
qed

lemma find_viewer_take:
  assumes "i \<noteq> j"
  shows "find_viewer (env_step (Take j n) s) i = find_viewer s i"
  using assms
  by (auto simp: reader_read_def find_viewer_map_viewer find_viewer_remove Let_def
      option.map_ident split: option.splits)

lemma pending_other:
  assumes "following i (got, r, s)" "other_viewer i ev"
  shows "following i (stream_step (Other ev) (got, r, s)) \<and>
    (still_in i (stream_step (Other ev) (got, r, s)) \<longrightarrow> still_in i (got, r, s)) \<and>
    pending i (stream_step (Other ev) (got, r, s)) = pending i (got, r, s)"
proof -
  from assms obtain v where v: "r_viewer r = i" "find_viewer s i = Some v" "\<not> v_wait_keyframe v"
    by (auto simp: following_def)
  show ?thesis
  proof (cases ev)
    case (Join buf)
    with v find_viewer_join [OF v(2), of buf] show ?thesis
      by (simp add: following_def still_in_def pending_def)
  next
    case (Take j n)
    with assms(2) have "i \<noteq> j" by simp
    from find_viewer_take [OF this] Take v show ?thesis
      by (simp add: following_def still_in_def pending_def)
  next
    case (WatchFires p)
    with v show ?thesis
      by (simp add: following_def still_in_def pending_def ready_watch_fires_def find_viewer_def)
  qed (use v in \<open>auto simp: following_def still_in_def pending_def find_viewer_remove
        find_viewer_stop drop_viewer_def\<close>)
qed

lemma pending_step:
  assumes "following i st" "\<forall>ev. d = Other ev \<longrightarrow> other_viewer i ev"
  shows "following i (stream_step d st)"
    and "still_in i (stream_step d st) \<Longrightarrow>
      still_in i st \<and> pending i (stream_step d st) = pending i st @ sent [d]"
    and "\<not> still_in i (stream_step d st) \<Longrightarrow>
      pending i (stream_step d st) = pending i st \<or> pending i (stream_step d st) = pending i st @ sent [d]"
    and "\<not> still_in i st \<Longrightarrow>
      \<not> still_in i (stream_step d st) \<and> pending i (stream_step d st) = pending i st"
proof -
  obtain got r s where st: "st = (got, r, s)" by (cases st) auto
  have all: "following i (stream_step d st) \<and>
    (if still_in i (stream_step d st)
     then still_in i st \<and> pending i (stream_step d st) = pending i st @ sent [d]
     else pending i (stream_step d st) = pending i st)"
  proof (cases d)
    case (Send p)
    from pending_send [of i got r s p] assms(1) show ?thesis
      unfolding st Send by (simp only: sent.simps append_Nil2) auto
  next
    case (Recv n)
    with pending_recv [of i got r s n] assms(1) show ?thesis
      unfolding st Recv by (simp only: sent.simps append_Nil2) auto
  next
    case (Other ev)
    from pending_other [of i got r s ev] assms(1) assms(2) Other show ?thesis
      unfolding st Other by (simp only: sent.simps append_Nil2) auto
  qed
  then show "following i (stream_step d st)"
    and "still_in i (stream_step d st) \<Longrightarrow>
      still_in i st \<and> pending i (stream_step d st) = pending i st @ sent [d]"
    and "\<not> still_in i (stream_step d st) \<Longrightarrow>
      pending i (stream_step d st) = pending i st \<or> pending i (stream_step d st) = pending i st @ sent [d]"
    and "\<not> still_in i st \<Longrightarrow>
      \<not> still_in i (stream_step d st) \<and> pending i (stream_step d st) = pending i st"
    by (simp_all split: if_splits)
qed

definition stream_run :: "delivery list \<Rightarrow> byte list \<times> reader \<times> session \<Rightarrow> byte list \<times> reader \<times> session" where
  "stream_run ds st = foldl (\<lambda>st d. stream_step d st) st ds"

lemma stream_run_simps [simp]:
  "stream_run [] st = st" "stream_run (d # ds) st = stream_run ds (stream_step d st)"
  by (simp_all add: stream_run_def)

lemma sent_Cons: "sent (d # ds) = sent [d] @ sent ds"
  by (cases d) simp_all

lemma pending_gone:
  "following i st \<Longrightarrow> \<not> still_in i st \<Longrightarrow> \<forall>ev. Other ev \<in> set ds \<longrightarrow> other_viewer i ev \<Longrightarrow>
   pending i (stream_run ds st) = pending i st \<and> \<not> still_in i (stream_run ds st)"
proof (induction ds arbitrary: st)
  case (Cons d ds)
  then have o: "\<forall>ev. d = Other ev \<longrightarrow> other_viewer i ev" by auto
  from pending_step [of i st d, OF Cons.prems(1) o] Cons.prems Cons.IH [of "stream_step d st"]
  show ?case by simp
qed simp

lemma pending_run:
  "following i st \<Longrightarrow> \<forall>ev. Other ev \<in> set ds \<longrightarrow> other_viewer i ev \<Longrightarrow>
   prefix (pending i (stream_run ds st)) (pending i st @ sent ds) \<and>
   (still_in i (stream_run ds st) \<longrightarrow> pending i (stream_run ds st) = pending i st @ sent ds)"
proof (induction ds arbitrary: st)
  case (Cons d ds)
  then have o: "\<forall>ev. d = Other ev \<longrightarrow> other_viewer i ev" by auto
  note step = pending_step [of i st d, OF Cons.prems(1) o]
  have os: "\<forall>ev. Other ev \<in> set ds \<longrightarrow> other_viewer i ev" using Cons.prems(2) by simp
  show ?case
  proof (cases "still_in i (stream_step d st)")
    case True
    with step(2) Cons.IH [OF step(1) os] show ?thesis by (simp add: sent_Cons [of d ds])
  next
    case False
    from pending_gone [OF step(1) False os] step(3) [OF False] show ?thesis
      by (auto simp: sent_Cons [of d ds])
  qed
qed simp

section \<open>Waiting for a keyframe\<close>

lemma keyframe_suffix_Some:
  "keyframe_suffix bs = Some rest \<Longrightarrow>
   suffix rest bs \<and> packet_size \<le> length rest \<and> has_random_access (take packet_size rest)"
proof (induction bs rule: keyframe_suffix.induct)
  case (1 bs)
  show ?case
  proof (cases "packet_size \<le> length bs")
    case True
    with 1 show ?thesis
      by (subst (asm) (2) keyframe_suffix.simps)
         (auto split: if_splits dest: suffix_order.trans [OF _ suffix_drop])
  next
    case False
    with 1(2) show ?thesis by (subst (asm) keyframe_suffix.simps) simp
  qed
qed

section \<open>What the copy loop broadcasts\<close>

lemma broadcast_bytes: "s_bytes_sent (broadcast p s) = s_bytes_sent s + length p"
  by (simp add: broadcast_def Let_def)

lemma observe_bytes: "s_bytes_sent (observe_packet p s) = s_bytes_sent s"
  by (simp add: observe_packet_def Let_def split: option.splits)

lemma observe_framed_bytes: "s_bytes_sent (observe_framed bs s) = s_bytes_sent s"
proof -
  have "s_bytes_sent (foldl (\<lambda>s p. observe_packet p s) s ps) = s_bytes_sent s" for ps
    by (induction ps arbitrary: s) (simp_all add: observe_bytes)
  then show ?thesis by (simp add: observe_framed_def)
qed

lemma broadcast_framed_bytes:
  assumes "packet_size dvd length bs"
  shows "s_bytes_sent (broadcast_framed bs s) = s_bytes_sent s + length bs"
proof -
  have "s_bytes_sent (foldl (\<lambda>s c. broadcast c s) s cs) = s_bytes_sent s + length (concat cs)" for s cs
    by (induction cs arbitrary: s) (simp_all add: broadcast_bytes)
  then show ?thesis
    using concat_bursts [OF assms] by (simp add: broadcast_framed_def observe_framed_bytes)
qed

lemma other_bytes [simp]:
  "s_bytes_sent (set_state a b s) = s_bytes_sent s"
  "s_bytes_sent (mark_ready now s) = s_bytes_sent s"
  "s_bytes_sent (remove_viewer i s) = s_bytes_sent s"
  "s_bytes_sent (snd (add_viewer n s)) = s_bytes_sent s"
  "s_bytes_sent (stop s) = s_bytes_sent s"
  "s_bytes_sent (ready_watch_fires p s) = s_bytes_sent s"
  "s_bytes_sent (map_viewer i f s) = s_bytes_sent s"
  by (simp_all add: set_state_def mark_ready_def remove_viewer_def add_viewer_def stop_def
      ready_watch_fires_def Let_def stop_ready_watch_def fail_ready_def map_viewer_def)

lemma reader_bytes [simp]: "s_bytes_sent (snd (snd (reader_read n r s))) = s_bytes_sent s"
  by (simp add: reader_read_def Let_def split: option.splits)

lemma env_bytes [simp]: "s_bytes_sent (env_step ev s) = s_bytes_sent s"
  by (cases ev) simp_all

lemma feed_pair: "feed split (x, y) c = (snd (split (x @ c)), y @ fst (split (x @ c)))"
  by (simp add: feed_eq)

text \<open>The reads of a schedule that the loop takes: those that return while it reads.\<close>

fun reads :: "bool \<Rightarrow> sched list \<Rightarrow> byte list list" where
  "reads b [] = []"
| "reads b (Check # evs) = reads True evs"
| "reads b (Read bs e # evs) = (if b then bs # reads False evs else reads b evs)"
| "reads b (_ # evs) = reads b evs"

lemma copy_running:
  "copy_mpegts now p opts evs c s = (Running c', s') \<Longrightarrow>
   \<exists>out. foldl (feed extract_framed) (cs_carry c, []) (filter (\<lambda>bs. bs \<noteq> []) (reads (cs_reading c) evs))
       = (cs_carry c', out) \<and>
     s_bytes_sent s' = s_bytes_sent s + length out"
proof (induction now p opts evs c s rule: copy_mpegts.induct)
  case (3 now p opts bs e evs c s)
  show ?case
  proof (cases "cs_reading c")
    case False
    with 3 show ?thesis by simp
  next
    case True
    with 3(3) obtain c1 s1 where r: "copy_read now opts bs e c s = (Running c1, s1)"
      and run: "copy_mpegts now p opts evs c1 s1 = (Running c', s')"
      by (auto split: prod.splits outcome.splits)
    from r have e: "e = None" and cb: "copy_bytes now opts bs (c\<lparr>cs_reading := False\<rparr>) s = (Inr c1, s1)"
      by (auto simp: copy_read_def split: prod.splits sum.splits option.splits)
    have nr: "\<not> cs_reading c1"
      using cb by (auto simp: copy_bytes_def Let_def split: if_splits prod.splits)
    have st: "(if bs = [] then cs_carry c1 = cs_carry c \<and> s_bytes_sent s1 = s_bytes_sent s
        else cs_carry c1 = snd (extract_framed (cs_carry c @ bs)) \<and>
          s_bytes_sent s1 = s_bytes_sent s + length (fst (extract_framed (cs_carry c @ bs))))"
      using cb framed_dvd [of "cs_carry c @ bs"]
      by (auto simp: copy_bytes_def Let_def broadcast_framed_bytes split: if_splits prod.splits)
    have "\<not> \<not> cs_reading c" using True by simp
    from 3(2) [OF this r [symmetric] refl run] nr
    obtain out where out: "foldl (feed extract_framed) (cs_carry c1, [])
        (filter (\<lambda>bs. bs \<noteq> []) (reads False evs)) = (cs_carry c', out)"
      "s_bytes_sent s' = s_bytes_sent s1 + length out" by auto
    have shift: "foldl (feed extract_framed) (x, pre) cs =
        (fst (foldl (feed extract_framed) (x, []) cs), pre @ snd (foldl (feed extract_framed) (x, []) cs))"
      for x and pre :: "byte list" and cs
    proof (induction cs arbitrary: x pre)
      case (Cons a cs)
      show ?case
        using Cons [of "snd (extract_framed (x @ a))" "pre @ fst (extract_framed (x @ a))"]
          Cons [of "snd (extract_framed (x @ a))" "fst (extract_framed (x @ a))"]
        by (simp add: feed_pair)
    qed simp
    show ?thesis
    proof (cases "bs = []")
      case True
      with st out \<open>cs_reading c\<close> show ?thesis by simp
    next
      case False
      with st out True shift [of "cs_carry c1" "fst (extract_framed (cs_carry c @ bs))"
          "filter (\<lambda>bs. bs \<noteq> []) (reads False evs)"]
      show ?thesis by (simp add: feed_pair)
    qed
  qed
next
  case (2 now p opts evs c s)
  show ?case
  proof (cases "cs_reading c")
    case True
    with 2 show ?thesis by simp
  next
    case False
    with 2(3) have "copy_check p c s = Running (c\<lparr>cs_reading := True\<rparr>)"
      by (auto simp: copy_check_def split: if_splits)
    with 2(2) [OF False this] 2(3) False show ?thesis by simp
  qed
qed (simp_all del: env_step.simps)

section \<open>Readiness settles once\<close>

definition settled :: "stream_err option \<Rightarrow> session \<Rightarrow> bool" where
  "settled e s \<longleftrightarrow> s_ready_done s \<and> s_ready_err s = e"

lemma settled_ops:
  "settled e s \<Longrightarrow> settled e (mark_ready now s)"
  "settled e s \<Longrightarrow> settled e (fail_ready x s)"
  "settled e s \<Longrightarrow> settled e (set_state a b s)"
  "settled e s \<Longrightarrow> settled e (broadcast pk s)"
  "settled e s \<Longrightarrow> settled e (observe_packet pk s)"
  "settled e s \<Longrightarrow> settled e (remove_viewer i s)"
  "settled e s \<Longrightarrow> settled e (snd (add_viewer n s))"
  "settled e s \<Longrightarrow> settled e (stop s)"
  "settled e s \<Longrightarrow> settled e (ready_watch_fires p s)"
  "settled e s \<Longrightarrow> settled e (map_viewer i f s)"
  by (simp_all add: settled_def mark_ready_def fail_ready_def set_state_def broadcast_def
      observe_packet_def remove_viewer_def add_viewer_def stop_def ready_watch_fires_def
      map_viewer_def stop_ready_watch_def Let_def split: option.splits)

lemma settled_env: "settled e s \<Longrightarrow> settled e (env_step ev s)"
  by (cases ev) (auto simp: settled_ops reader_read_def Let_def split: option.splits)

lemma settled_fold: "(\<And>x s. settled e s \<Longrightarrow> settled e (f x s)) \<Longrightarrow> settled e s \<Longrightarrow>
  settled e (foldl (\<lambda>s x. f x s) s xs)"
  by (induction xs arbitrary: s) auto

lemma settled_framed: "settled e s \<Longrightarrow> settled e (broadcast_framed bs s)"
  unfolding broadcast_framed_def observe_framed_def by (intro settled_fold settled_ops)

lemma settled_copy: "settled e s \<Longrightarrow> settled e (snd (copy_mpegts now p opts evs c s))"
proof (induction now p opts evs c s rule: copy_mpegts.induct)
  case (3 now p opts bs err evs c s)
  show ?case
  proof (cases "cs_reading c")
    case True
    obtain o1 s1 where r: "copy_read now opts bs err c s = (o1, s1)" by fastforce
    have "settled e s1"
      using r 3(3)
      by (auto simp: copy_read_def copy_bytes_def Let_def settled_ops settled_framed
          split: prod.splits if_splits sum.splits option.splits)
    with 3(2) True r show ?thesis by (cases o1) auto
  qed (use 3 in simp)
next
  case (2 now p opts evs c s)
  then show ?case by (auto split: outcome.splits)
qed (simp_all add: settled_env del: env_step.simps)

lemma settled_wait: "wait_ready s = Some r \<longleftrightarrow> (\<exists>e. settled e s \<and> r = map_ready_err e)"
  by (auto simp: wait_ready_def settled_def)

section \<open>Properties\<close>

lemma concat_nonempty: "concat (filter (\<lambda>b. b \<noteq> []) xs) = concat xs"
  by (induction xs) auto

text \<open>C12: What a viewer has received is always a prefix of its queue when it started followed by
  what was broadcast since, without a gap; while it is attached nothing of that is missing:
  the rest is in its reader's buffer and its queue.  A slow viewer is cut off, never skipped.\<close>

theorem viewer_stream_contiguous:
  assumes "find_viewer s i = Some v" "\<not> v_wait_keyframe v" "r_viewer r = i"
    and "list_all (\<lambda>d. case d of Other ev \<Rightarrow> other_viewer i ev | _ \<Rightarrow> True) ds"
    and "stream_run ds ([], r, s) = (got, r', s')"
  shows "prefix got (r_buf r @ concat (v_ch v) @ sent ds) \<and>
    (case find_viewer s' i of
       None \<Rightarrow> True
     | Some v' \<Rightarrow> v_in v' \<longrightarrow>
         got @ r_buf r' @ concat (v_ch v') = r_buf r @ concat (v_ch v) @ sent ds)"
proof -
  have f: "following i ([], r, s)" using assms(1-3) by (simp add: following_def)
  have o: "\<forall>ev. Other ev \<in> set ds \<longrightarrow> other_viewer i ev"
    using assms(4) by (auto simp: list_all_iff)
  have pend: "pending i ([], r, s) = r_buf r @ concat (v_ch v)"
    using assms(1) by (simp add: pending_def)
  from pending_run [OF f o] assms(5)
  have "prefix (pending i (got, r', s')) (r_buf r @ concat (v_ch v) @ sent ds)"
    "still_in i (got, r', s') \<longrightarrow> pending i (got, r', s') = r_buf r @ concat (v_ch v) @ sent ds"
    by (simp_all add: pend)
  moreover from this(1) have "prefix got (r_buf r @ concat (v_ch v) @ sent ds)"
    by (auto simp: pending_def prefix_def)
  ultimately show ?thesis
    by (auto simp: pending_def still_in_def split: option.splits)
qed


text \<open>C32: A transcoded viewer that waits for a keyframe gets nothing until a packet with the
  random-access flag is broadcast; its first chunk is the startup tables followed by that
  packet and what comes after it.\<close>

theorem keyframe_join:
  assumes "v_in v" "v_wait_keyframe v" "v_ch v = []" "0 < v_cap v"
  shows "(if keyframe_suffix pkt = None then deliver tables pkt v = v
    else \<exists>cut. suffix cut pkt \<and> packet_size \<le> length cut \<and>
      has_random_access (take packet_size cut) \<and>
      deliver tables pkt v = v\<lparr>v_wait_keyframe := False, v_ch := [tables @ cut]\<rparr>)"
  using assms keyframe_suffix_Some [of pkt]
  by (auto simp: deliver_def Let_def try_send_def split: option.splits)

text \<open>A session never reports streaming or connecting while it has no viewer.\<close>

theorem status_needs_viewers:
  "\<not> (st_viewers (session_status s) = 0 \<and> st_state (session_status s) \<in> {''streaming'', ''connecting''})"
  by (auto simp: session_status_def Let_def split: if_splits option.splits)

text \<open>C33: What Subscribe's waiters are told is settled once: no later step of the session, of its
  viewers or of its upstream changes it.\<close>

theorem readiness_settles_once:
  assumes "wait_ready s = Some r"
  shows "wait_ready (snd (copy_mpegts now p opts evs c s)) = Some r \<and>
    wait_ready (stop s) = Some r \<and> wait_ready (snd (run_exit s)) = Some r"
proof -
  from assms obtain e where e: "settled e s" "r = map_ready_err e" by (auto simp: settled_wait)
  have "settled e (snd (run_exit s))"
    using e(1) by (simp add: run_exit_def Let_def settled_ops)
  moreover have "settled e (snd (copy_mpegts now p opts evs c s))" by (rule settled_copy [OF e(1)])
  moreover have "settled e (stop s)" by (rule settled_ops(8) [OF e(1)])
  ultimately show ?thesis using e(2) by (auto simp: settled_def wait_ready_def)
qed

section \<open>Witnesses\<close>

definition demo_session :: session where
  "demo_session = snd (add_viewer 2 (new_session (\<lambda>_. 0) ''ch''
     \<lparr> src_policy = [], src_upstreams = [], src_fixed_index = 0, src_transcode = False,
       src_revision = [] \<rparr>
     \<lparr> o_buffer_size = 2, o_idle_timeout = seconds 30, o_conn_timeout = 1 \<rparr> default_profile))"

lemmas demo_defs = demo_session_def new_session_def add_viewer_def Let_def normalize_source_def
  apply_current_upstream_def startup_packets_def find_viewer_def viewer_count_def attached_def

lemma viewer_stream_contiguous_witness:
  "prefix [1, 2] (sent [Send [1, 2, 3], Recv 2, Send [4], Send [5], Send [6]]) \<and>
   fst (stream_run [Send [1, 2, 3], Recv 2, Send [4], Send [5], Send [6]]
      ([], \<lparr> r_viewer = 1, r_buf = [] \<rparr>, demo_session)) = [1, 2]"
proof -
  let ?ds = "[Send [1, 2, 3], Recv 2, Send [4], Send [5], Send [6]]"
  let ?st = "stream_run ?ds ([], \<lparr> r_viewer = 1, r_buf = [] \<rparr>, demo_session)"
  have v: "find_viewer demo_session 1 = Some \<lparr> v_id = 1, v_ch = [], v_cap = 2, v_closed = False,
      v_wait_keyframe = False, v_in = True \<rparr>"
    by (simp add: demo_defs)
  have got: "fst ?st = [1, 2]"
    by (simp add: demo_defs broadcast_def deliver_def try_send_def reader_read_def map_viewer_def
        drop_viewer_def cancel_pump_def)
  obtain g r' s' where st: "?st = (g, r', s')" by (cases ?st)
  with got have "g = [1, 2]" by (simp del: stream_run_simps)
  with viewer_stream_contiguous [OF v _ _ _ st] got show ?thesis
    by (simp del: stream_run_simps)
qed

lemma readiness_settles_once_witness:
  "wait_ready (stop (mark_ready ''now'' demo_session)) = Some None"
proof -
  have "wait_ready (mark_ready ''now'' demo_session) = Some None"
    by (simp add: demo_defs wait_ready_def mark_ready_def stop_ready_watch_def map_ready_err_def
        errors_is_def)
  from readiness_settles_once [OF this] show ?thesis by blast
qed

lemma keyframe_join_witness:
  "deliver [9] (0x47 # 0 # 0 # 0x30 # 1 # 0x40 # replicate 182 0)
     \<lparr> v_id = 1, v_ch = [], v_cap = 1, v_closed = False, v_wait_keyframe = True, v_in = True \<rparr> \<noteq>
   \<lparr> v_id = 1, v_ch = [], v_cap = 1, v_closed = False, v_wait_keyframe = True, v_in = True \<rparr>"
proof -
  let ?v = "\<lparr> v_id = 1, v_ch = [], v_cap = 1, v_closed = False, v_wait_keyframe = True, v_in = True \<rparr>"
  let ?p = "0x47 # 0 # 0 # 0x30 # 1 # 0x40 # replicate 182 (0::byte)"
  have "has_random_access (take packet_size ?p)"
    by (simp add: has_random_access_def packet_size_def sync_byte_def Let_def)
  then have "keyframe_suffix ?p = Some ?p"
    by (subst keyframe_suffix.simps) (simp add: packet_size_def)
  with keyframe_join [of ?v ?p "[9]"] show ?thesis by auto
qed


end
