(* ===== verification/Hls.thy ===== *)
theory Hls
  imports Complex_Main Pump
begin

text \<open>
  \<^verbatim>\<open>internal/core/stream/hls.go\<close>: the playlist parser, the choice of a variant, the window of
  segments seen, the reload delay and the loop that follows a playlist.

  A duration in a playlist is a rational number of seconds (\<^verbatim>\<open>strconv.ParseFloat\<close> on decimal
  notation, without its rounding to 53 bits).  The loop runs on a list of responses; the fetch
  of a segment is an argument of it, with the world it changes; \<open>fetch_segment\<close> is the code's.
\<close>

section \<open>Durations\<close>

text \<open>A decimal fraction with an optional sign and exponent; anything else is a syntax error,
  where \<^verbatim>\<open>ParseFloat\<close> returns 0 and the parser keeps it.\<close>

definition parse_ufloat :: "string \<Rightarrow> rat option" where
  "parse_ufloat s =
     (let (mant, ex, has_ex) = cut_byte CHR ''e'' (to_lower s);
          (ip, fp, has_dot) = cut_byte CHR ''.'' mant;
          (e, ok) = parse_int64 ex
      in if ip @ fp = [] \<or> \<not> list_all is_digit_char (ip @ fp) \<or> has_ex \<and> \<not> ok then None
         else let m = of_nat (digits_val (ip @ fp)) / 10 ^ length fp
              in Some (if \<not> has_ex then m else if 0 \<le> e then m * 10 ^ nat e else m / 10 ^ nat (- e)))"

definition parse_float :: "string \<Rightarrow> rat" where
  "parse_float s =
     (case s of
        [] \<Rightarrow> 0
      | c # cs \<Rightarrow>
          (if c = CHR ''-'' then (case parse_ufloat cs of None \<Rightarrow> 0 | Some x \<Rightarrow> - x)
           else case parse_ufloat (if c = CHR ''+'' then cs else s) of None \<Rightarrow> 0 | Some x \<Rightarrow> x))"

text \<open>\<^verbatim>\<open>time.Duration(sec * float64(time.Second))\<close>: a value outside 64 bits becomes the least
  one, as the conversion does on amd64.\<close>

definition to_duration :: "rat \<Rightarrow> int" where
  "to_duration sec =
     (let ns = sec * 1000000000; n = (if 0 \<le> ns then \<lfloor>ns\<rfloor> else \<lceil>ns\<rceil>)
      in if n < min_int64 \<or> max_int64 < n then min_int64 else n)"

definition media_playlist_reload_wait :: "rat \<Rightarrow> rat \<Rightarrow> bool \<Rightarrow> int" where
  "media_playlist_reload_wait target_duration last_seg_duration changed =
     (let l1 = (if last_seg_duration \<le> 0 then target_duration else last_seg_duration);
          last = (if l1 \<le> 0 then 6 else l1);
          target = (if target_duration \<le> 0 then last else target_duration);
          sec = (if changed then last else target / 2);
          wait = to_duration sec
      in if wait < milliseconds 250 then milliseconds 250 else wait)"

section \<open>The playlist\<close>

record hls_segment =
  seg_uri :: string
  seg_duration :: rat
  seg_seq :: int

record hls_variant =
  var_uri :: string
  var_bandwidth :: int

record hls_playlist =
  is_master :: bool
  end_list :: bool
  target_duration :: rat
  media_sequence :: int
  segments :: "hls_segment list"
  variants :: "hls_variant list"

definition empty_playlist :: hls_playlist where
  "empty_playlist = \<lparr> is_master = False, end_list = False, target_duration = 0,
     media_sequence = 0, segments = [], variants = [] \<rparr>"

definition attr_int :: "string \<Rightarrow> string \<Rightarrow> int" where
  "attr_int line key =
     (let k = to_upper key @ ''='' in
      case index_str (to_upper line) k of
        None \<Rightarrow> 0
      | Some i \<Rightarrow> fst (parse_int64 (takeWhile is_digit_char (drop (i + length k) line))))"

text \<open>The signed 64-bit sequence number wraps around.\<close>

definition inc_seq :: "int \<Rightarrow> int" where
  "inc_seq n = (if n = max_int64 then min_int64 else n + 1)"

record parse_state =
  ps_list :: hls_playlist
  ps_duration :: rat
  ps_bandwidth :: int
  ps_seq :: int
  ps_media :: bool

definition hls_line :: "string \<Rightarrow> parse_state \<Rightarrow> string + parse_state" where
  "hls_line raw ps =
     (let line = trim_space raw; upper = to_upper line; pl = ps_list ps in
      if line = [] then Inr ps
      else if has_prefix upper ''#EXT-X-STREAM-INF:'' then
        Inr (ps\<lparr>ps_list := pl\<lparr>is_master := True\<rparr>, ps_bandwidth := attr_int line ''BANDWIDTH''\<rparr>)
      else if has_prefix upper ''#EXT-X-MEDIA:'' then Inr ps
      else if has_prefix upper ''#EXT-X-KEY:'' then Inl ''encrypted hls is not supported''
      else if has_prefix upper ''#EXT-X-BYTERANGE:'' then Inl ''hls byte ranges are not supported''
      else if has_prefix upper ''#EXT-X-MAP:'' then Inl ''fmp4/ext-x-map hls is not supported''
      else if has_prefix upper ''#EXT-X-ENDLIST'' then Inr (ps\<lparr>ps_list := pl\<lparr>end_list := True\<rparr>\<rparr>)
      else if has_prefix upper ''#EXT-X-TARGETDURATION:'' then
        Inr (ps\<lparr>ps_list := pl\<lparr>target_duration :=
          parse_float (trim_space (drop (length ''#EXT-X-TARGETDURATION:'') line))\<rparr>\<rparr>)
      else if has_prefix upper ''#EXT-X-MEDIA-SEQUENCE:'' then
        (let n = fst (parse_int64 (trim_space (drop (length ''#EXT-X-MEDIA-SEQUENCE:'') line)))
         in Inr (ps\<lparr>ps_list := pl\<lparr>media_sequence := n\<rparr>, ps_seq := n\<rparr>))
      else if has_prefix upper ''#EXTINF:'' then
        Inr (ps\<lparr>ps_media := True,
          ps_duration := parse_float (trim_space (fst (cut_byte CHR '','' (drop (length ''#EXTINF:'') line))))\<rparr>)
      else if has_prefix line ''#'' then Inr ps
      else if is_master pl \<and> \<not> ps_media ps then
        Inr (ps\<lparr>ps_list := pl\<lparr>variants := variants pl @
          [\<lparr> var_uri = line, var_bandwidth = ps_bandwidth ps \<rparr>]\<rparr>, ps_bandwidth := 0\<rparr>)
      else
        Inr (ps\<lparr>ps_list := pl\<lparr>segments := segments pl @
            [\<lparr> seg_uri = line, seg_duration = ps_duration ps, seg_seq = ps_seq ps \<rparr>]\<rparr>,
          ps_seq := inc_seq (ps_seq ps), ps_duration := 0\<rparr>))"

fun hls_lines :: "string list \<Rightarrow> parse_state \<Rightarrow> string + parse_state" where
  "hls_lines [] ps = Inr ps"
| "hls_lines (l # ls) ps = bindE (hls_line l ps) (hls_lines ls)"

definition parse_hls_playlist :: "string \<Rightarrow> string + hls_playlist" where
  "parse_hls_playlist text =
     (if \<not> contains_str text ''#EXTM3U'' then Inl ''not an hls playlist''
      else let (ls, ok) = scan_lines 2097152 text in
        bindE (hls_lines ls \<lparr> ps_list = empty_playlist, ps_duration = 0, ps_bandwidth = 0,
            ps_seq = 0, ps_media = False \<rparr>)
          (\<lambda>ps. if \<not> ok then Inl ''bufio.Scanner: token too long''
            else let pl = ps_list ps in
              Inr (if target_duration pl \<le> 0 then pl\<lparr>target_duration := 6\<rparr> else pl)))"

fun best_variant :: "hls_variant \<Rightarrow> hls_variant list \<Rightarrow> hls_variant" where
  "best_variant best [] = best"
| "best_variant best (v # vs) = best_variant (if var_bandwidth best < var_bandwidth v then v else best) vs"

definition pick_variant :: "hls_variant list \<Rightarrow> hls_variant" where
  "pick_variant vs = best_variant (hd vs) (tl vs)"

definition resolve_url :: "string \<Rightarrow> string \<Rightarrow> string option" where
  "resolve_url base_raw r =
     (if has_prefix r ''http://'' \<or> has_prefix r ''https://'' then Some r
      else case url_parse base_raw of
          None \<Rightarrow> None
        | Some b \<Rightarrow> (case url_parse r of
              None \<Rightarrow> None
            | Some u \<Rightarrow> Some (url_string (resolve_reference b u))))"

definition looks_like_hls :: "string \<Rightarrow> string \<Rightarrow> bool" where
  "looks_like_hls content_type body \<longleftrightarrow>
     (let ct = to_lower content_type in contains_str ct ''mpegurl'' \<or> contains_str ct ''m3u8'')
     \<or> has_prefix (trim_space body) ''#EXTM3U''"

definition is_ts_segment_uri :: "string \<Rightarrow> bool" where
  "is_ts_segment_uri raw =
     (let path = takeWhile (\<lambda>c. c \<noteq> CHR ''?'' \<and> c \<noteq> CHR ''#'') raw; lower = to_lower path
      in \<not> list_ex (\<lambda>ext. has_suffix lower ext)
           [''.mp4'', ''.m4s'', ''.m4v'', ''.m4a'', ''.cmfv'', ''.cmfa'', ''.aac'', ''.vtt'', ''.mp3''])"

section \<open>The segments seen\<close>

record seen_set =
  ss_max :: nat
  ss_items :: "string list"
  ss_order :: "string list"

definition new_seen_set :: "nat \<Rightarrow> seen_set" where
  "new_seen_set m = \<lparr> ss_max = m, ss_items = [], ss_order = [] \<rparr>"

definition seen_has :: "seen_set \<Rightarrow> string \<Rightarrow> bool" where
  "seen_has s u \<longleftrightarrow> u \<in> set (ss_items s)"

fun evict :: "nat \<Rightarrow> string list \<Rightarrow> string list \<Rightarrow> string list \<times> string list" where
  "evict m items [] = (items, [])"
| "evict m items (old # order) =
     (if m < length (old # order) then evict m (filter (\<lambda>x. x \<noteq> old) items) order
      else (items, old # order))"

definition seen_add :: "seen_set \<Rightarrow> string \<Rightarrow> seen_set" where
  "seen_add s u =
     (if seen_has s u then s
      else let (items, order) = evict (ss_max s) (u # ss_items s) (ss_order s @ [u])
           in s\<lparr>ss_items := items, ss_order := order\<rparr>)"

definition max_seen_segments :: nat where "max_seen_segments = 256"
definition max_segment_bytes :: nat where "max_segment_bytes = 8 * 1024 * 1024"

section \<open>The loop\<close>

text \<open>\<^verbatim>\<open>fetchAndBroadcastSegment\<close> on the response to the request: an error, or the status, the
  declared length if any, and what happens while the body is read.\<close>

datatype response = Failed stream_err | Response int "int option" "sched list"

definition fetch_segment ::
    "string \<Rightarrow> nat \<Rightarrow> response \<Rightarrow> session \<Rightarrow> outcome \<times> session" where
  "fetch_segment now p r s =
     (case r of
        Failed e \<Rightarrow> (Returned (Some e), s)
      | Response code len evs \<Rightarrow>
          (if code < 200 \<or> 300 \<le> code
           then (Returned (Some (ErrMsg (''segment status '' @ show_int code))), s)
           else case len of
               Some n \<Rightarrow> (if int max_segment_bytes < n then (Returned (Some (msg_too_big max_segment_bytes)), s)
                 else copy_mpegts now p \<lparr> co_max_bytes = max_segment_bytes, co_segment = True \<rparr> evs copy_start s)
             | None \<Rightarrow>
                 copy_mpegts now p \<lparr> co_max_bytes = max_segment_bytes, co_segment = True \<rparr> evs copy_start s))"

record hls_state =
  h_seen :: seen_set
  h_last_seq :: int
  h_last_duration :: rat
  h_started :: bool
  h_url :: string

definition hls_start :: "string \<Rightarrow> hls_state" where
  "hls_start url = \<lparr> h_seen = new_seen_set max_seen_segments, h_last_seq = -1,
     h_last_duration = 0, h_started = False, h_url = url \<rparr>"

definition note_seq :: "hls_segment \<Rightarrow> hls_state \<Rightarrow> hls_state" where
  "note_seq seg h = (if h_last_seq h < seg_seq seg then h\<lparr>h_last_seq := seg_seq seg\<rparr> else h)"

definition note_seen :: "hls_segment \<Rightarrow> hls_state \<Rightarrow> hls_state" where
  "note_seen seg h = h\<lparr>h_seen := seen_add (h_seen h) (seg_uri seg)\<rparr>"

text \<open>The segments before the live edge are only noted.\<close>

definition skip_old :: "hls_segment list \<Rightarrow> hls_state \<Rightarrow> hls_state" where
  "skip_old segs h = foldl (\<lambda>h seg. note_seq seg (note_seen seg h)) h segs"

text \<open>The loop over the segments; its last result is the list of the segments fetched.\<close>

fun hls_segments ::
    "(string \<Rightarrow> 'w \<Rightarrow> stream_err option \<times> 'w) \<Rightarrow> hls_segment list \<Rightarrow> hls_state \<Rightarrow> 'w
      \<Rightarrow> stream_err option \<times> hls_state \<times> 'w \<times> hls_segment list" where
  "hls_segments fetch [] h w = (None, h, w, [])"
| "hls_segments fetch (seg # segs) h w =
     (if seen_has (h_seen h) (seg_uri seg) then hls_segments fetch segs h w
      else if 0 < seg_seq seg \<and> 0 \<le> h_last_seq h \<and> seg_seq seg \<le> h_last_seq h
      then hls_segments fetch segs (note_seen seg h) w
      else if \<not> is_ts_segment_uri (seg_uri seg)
      then (Some (ErrMsg (''unsupported hls media segment '' @ seg_uri seg)), h, w, [])
      else case resolve_url (h_url h) (seg_uri seg) of
          None \<Rightarrow> (Some (ErrMsg ''parse url''), h, w, [])
        | Some u \<Rightarrow>
            (case fetch u w of
               (Some e, w1) \<Rightarrow> (Some e, h, w1, [seg])
             | (None, w1) \<Rightarrow>
                 (let h1 = note_seen seg h;
                      h2 = (if 0 < seg_duration seg then h1\<lparr>h_last_duration := seg_duration seg\<rparr> else h1);
                      (e, h3, w2, got) = hls_segments fetch segs (note_seq seg h2) w1
                  in (e, h3, w2, seg # got))))"

datatype hls_next = HlsReturn "stream_err option" | HlsReload int

text \<open>One turn of the loop: the playlist text, and how long to wait before the next one (less the
  time the turn itself took).  \<open>ready\<close> is \<^verbatim>\<open>everReady\<close> of the session.\<close>

definition hls_turn ::
    "(string \<Rightarrow> 'w \<Rightarrow> stream_err option \<times> 'w) \<Rightarrow> bool \<Rightarrow> int \<Rightarrow> string \<Rightarrow> hls_state \<Rightarrow> 'w
      \<Rightarrow> hls_next \<times> hls_state \<times> 'w \<times> hls_segment list" where
  "hls_turn fetch ready elapsed body h w =
     (case parse_hls_playlist body of
        Inl e \<Rightarrow> (HlsReturn (Some (ErrMsg e)), h, w, [])
      | Inr pl \<Rightarrow>
          if is_master pl then
            (if variants pl = [] then (HlsReturn (Some (ErrMsg ''hls master playlist has no variants'')), h, w, [])
             else case resolve_url (h_url h) (var_uri (pick_variant (variants pl))) of
                 None \<Rightarrow> (HlsReturn (Some (ErrMsg ''parse url'')), h, w, [])
               | Some u \<Rightarrow> (HlsReload 0, h\<lparr>h_url := u\<rparr>, w, []))
          else if segments pl = [] then
            (if end_list pl
             then (HlsReturn (Some (if \<not> ready then ErrMsg ''hls endlist with no segments'' else ErrStreamEnded)), h, w, [])
             else (HlsReload (media_playlist_reload_wait (target_duration pl) (h_last_duration h) False), h, w, []))
          else
            (let start = (if \<not> h_started h \<and> \<not> end_list pl \<and> 1 < length (segments pl)
                   then length (segments pl) - 1 else 0);
                 h1 = (if h_started h then h else skip_old (take start (segments pl)) (h\<lparr>h_started := True\<rparr>));
                 (e, h2, w2, got) = hls_segments fetch (drop start (segments pl)) h1 w
             in case e of
                 Some err \<Rightarrow> (HlsReturn (Some err), h2, w2, got)
               | None \<Rightarrow>
                   (if end_list pl then (HlsReturn (Some ErrStreamEnded), h2, w2, got)
                    else let wait = media_playlist_reload_wait (target_duration pl) (h_last_duration h2) (got \<noteq> [])
                         in (HlsReload (if elapsed < wait then wait - elapsed else 0), h2, w2, got))))"

text \<open>
  The loop on the responses to come; \<open>halted\<close> is the check in front of each turn (\<^verbatim>\<open>stopCh\<close> or the
  context closed, or no viewer).  An error of a request ends it.  The last result has the
  delays between the turns.
\<close>

fun pump_hls ::
    "('w \<Rightarrow> bool) \<Rightarrow> (string \<Rightarrow> 'w \<Rightarrow> stream_err option \<times> 'w) \<Rightarrow> bool
      \<Rightarrow> (int \<times> (stream_err + string)) list \<Rightarrow> hls_state \<Rightarrow> 'w
      \<Rightarrow> stream_err option option \<times> hls_state \<times> 'w \<times> int list" where
  "pump_hls halted fetch ready [] h w = (None, h, w, [])"
| "pump_hls halted fetch ready ((elapsed, r) # rs) h w =
     (if halted w then (Some None, h, w, [])
      else case r of
        Inl e \<Rightarrow> (Some (Some e), h, w, [])
      | Inr body \<Rightarrow>
          (case hls_turn fetch ready elapsed body h w of
             (HlsReturn e, h1, w1, got) \<Rightarrow> (Some e, h1, w1, [])
           | (HlsReload d, h1, w1, got) \<Rightarrow>
               (let (res, h2, w2, ds) = pump_hls halted fetch ready rs h1 w1 in (res, h2, w2, d # ds))))"

section \<open>A window of recent values\<close>

text \<open>
  The interface of the segment window: \<open>recent s\<close> are the values it remembers, oldest first.
  Adding a new value puts it last and forgets the oldest ones beyond the capacity.
\<close>

locale window =
  fixes ok :: "'s \<Rightarrow> bool" and has :: "'s \<Rightarrow> 'a \<Rightarrow> bool" and put :: "'s \<Rightarrow> 'a \<Rightarrow> 's"
    and recent :: "'s \<Rightarrow> 'a list" and capacity :: "'s \<Rightarrow> nat"
  assumes ok_put: "ok s \<Longrightarrow> ok (put s x)"
    and has_recent: "ok s \<Longrightarrow> has s x \<longleftrightarrow> x \<in> set (recent s)"
    and recent_put: "ok s \<Longrightarrow> recent (put s x) =
      (if x \<in> set (recent s) then recent s
       else drop (Suc (length (recent s)) - capacity s) (recent s @ [x]))"
    and recent_bound: "ok s \<Longrightarrow> length (recent s) \<le> capacity s"
    and capacity_put: "capacity (put s x) = capacity s"
begin

lemma ok_puts: "ok s \<Longrightarrow> ok (foldl put s xs)"
  by (induction xs arbitrary: s) (simp_all add: ok_put)

lemma capacity_puts: "capacity (foldl put s xs) = capacity s"
  by (induction xs arbitrary: s) (simp_all add: capacity_put)

text \<open>A value put anew is remembered until as many values follow as the window holds.\<close>

lemma put_keeps:
  assumes "ok t" "recent t = a @ x # b" "Suc (Suc (length b)) \<le> capacity t"
  shows "\<exists>a' b'. recent (put t y) = a' @ x # b' \<and> length b' \<le> Suc (length b)"
proof (cases "y \<in> set (recent t)")
  case True
  with recent_put [OF assms(1), of y] assms(2) show ?thesis by (intro exI [of _ a] exI [of _ b]) simp
next
  case False
  have "Suc (length (recent t)) - capacity t \<le> length a" using assms(2,3) by simp
  with False recent_put [OF assms(1), of y] assms(2) show ?thesis
    by (intro exI [of _ "drop (Suc (length (recent t)) - capacity t) a"] exI [of _ "b @ [y]"]) simp
qed

lemma remembers:
  assumes "ok s" "\<not> has s x" "length ys < capacity s"
  shows "has (foldl put (put s x) ys) x"
proof -
  have "length ys < capacity s \<Longrightarrow>
    \<exists>a b. recent (foldl put (put s x) ys) = a @ x # b \<and> length b \<le> length ys"
  proof (induction ys rule: rev_induct)
    case Nil
    have "x \<notin> set (recent s)" using assms(1,2) by (simp add: has_recent)
    moreover have "Suc (length (recent s)) - capacity s \<le> length (recent s)" using Nil by simp
    ultimately show ?case
      using recent_put [OF assms(1), of x] by (auto intro: exI [of _ "drop _ (recent s)"])
  next
    case (snoc y ys)
    let ?t = "foldl put (put s x) ys"
    from snoc obtain a b where t: "recent ?t = a @ x # b" "length b \<le> length ys" by auto
    have "ok ?t" "capacity ?t = capacity s"
      using assms(1) by (simp_all add: ok_puts capacity_puts ok_put capacity_put)
    with put_keeps [of ?t a x b y] t snoc.prems show ?case by fastforce
  qed
  with assms(3) have "x \<in> set (recent (foldl put (put s x) ys))" by auto
  moreover have "ok (foldl put (put s x) ys)" using assms(1) by (simp add: ok_puts ok_put)
  ultimately show ?thesis by (simp add: has_recent)
qed

end

definition seen_ok :: "seen_set \<Rightarrow> bool" where
  "seen_ok s \<longleftrightarrow> set (ss_items s) = set (ss_order s) \<and> distinct (ss_order s) \<and>
     length (ss_order s) \<le> ss_max s"

lemma evict_spec:
  "distinct order \<Longrightarrow> set items = set order \<Longrightarrow> evict m items order = (items', order') \<Longrightarrow>
   order' = drop (length order - m) order \<and> set items' = set order'"
proof (induction m items order arbitrary: items' order' rule: evict.induct)
  case (2 m items old order)
  show ?case
  proof (cases "m < length (old # order)")
    case True
    have "set (filter (\<lambda>x. x \<noteq> old) items) = set order" using 2(2,3) by auto
    moreover have "evict m (filter (\<lambda>x. x \<noteq> old) items) order = (items', order')"
      using 2(4) True by simp
    ultimately have "order' = drop (length order - m) order \<and> set items' = set order'"
      using 2(1) [OF True] 2(2) by simp
    moreover have "length (old # order) - m = Suc (length order - m)" using True by simp
    ultimately show ?thesis by simp
  next
    case False
    then have "items' = items" "order' = old # order" using 2(4) by simp_all
    with False 2(3) show ?thesis by simp
  qed
qed simp

lemma seen_add_order:
  assumes "seen_ok s"
  shows "ss_order (seen_add s u) = (if u \<in> set (ss_order s) then ss_order s
      else drop (Suc (length (ss_order s)) - ss_max s) (ss_order s @ [u]))"
    and "seen_ok (seen_add s u)" and "ss_max (seen_add s u) = ss_max s"
proof -
  obtain items order where e: "evict (ss_max s) (u # ss_items s) (ss_order s @ [u]) = (items, order)"
    by fastforce
  have "ss_order (seen_add s u) = (if u \<in> set (ss_order s) then ss_order s
      else drop (Suc (length (ss_order s)) - ss_max s) (ss_order s @ [u])) \<and>
    seen_ok (seen_add s u) \<and> ss_max (seen_add s u) = ss_max s"
  proof (cases "u \<in> set (ss_order s)")
    case True
    with assms show ?thesis by (simp add: seen_add_def seen_has_def seen_ok_def)
  next
    case False
    have d: "distinct (ss_order s @ [u])" "set (u # ss_items s) = set (ss_order s @ [u])"
      using assms False by (auto simp: seen_ok_def)
    from evict_spec [OF d e] False assms e d(1) show ?thesis
      by (auto simp: seen_add_def seen_has_def seen_ok_def distinct_drop simp del: drop_append)
  qed
  then show "ss_order (seen_add s u) = (if u \<in> set (ss_order s) then ss_order s
      else drop (Suc (length (ss_order s)) - ss_max s) (ss_order s @ [u]))"
    and "seen_ok (seen_add s u)" and "ss_max (seen_add s u) = ss_max s" by auto
qed

interpretation seen: window seen_ok seen_has seen_add ss_order ss_max
proof
  show "seen_ok s \<Longrightarrow> ss_order (seen_add s x) = (if x \<in> set (ss_order s) then ss_order s
      else drop (Suc (length (ss_order s)) - ss_max s) (ss_order s @ [x]))" for s x
    by (rule seen_add_order(1))
  show "ss_max (seen_add s x) = ss_max s" for s x
    by (simp add: seen_add_def split: prod.splits)
  show "seen_ok s \<Longrightarrow> seen_ok (seen_add s x)" for s x
    by (rule seen_add_order(2))
qed (simp_all add: seen_has_def seen_ok_def)

section \<open>Facts about the loop over the segments\<close>

lemma note_seen_simps [simp]:
  "h_last_seq (note_seen g h) = h_last_seq h" "h_seen (note_seq g h) = h_seen h"
  "h_url (note_seq g h) = h_url h" "h_url (note_seen g h) = h_url h"
  by (simp_all add: note_seen_def note_seq_def)

lemma fetched_seqs:
  "hls_segments fetch segs h w = (e, h', w', got) \<Longrightarrow> \<forall>g \<in> set segs. 0 < seg_seq g \<Longrightarrow>
   0 \<le> h_last_seq h \<or> h_last_seq h = -1 \<Longrightarrow>
   sorted_wrt (<) (map seg_seq got) \<and> (\<forall>g \<in> set got. h_last_seq h < seg_seq g) \<and> set got \<subseteq> set segs"
proof (induction fetch segs h w arbitrary: e h' w' got rule: hls_segments.induct)
  case (2 fetch seg segs h w)
  show ?case
  proof (cases "seen_has (h_seen h) (seg_uri seg)")
    case True
    with 2(1) [OF True, of e h' w' got] 2(4-6) show ?thesis by auto
  next
    case nseen: False
    have pos: "0 < seg_seq seg" using 2(5) by simp
    show ?thesis
    proof (cases "0 \<le> h_last_seq h \<and> seg_seq seg \<le> h_last_seq h")
      case True
      with nseen pos 2(2) [OF nseen, of e h' w' got] 2(4-6) show ?thesis by auto
    next
      case new: False
      then have gt: "h_last_seq h < seg_seq seg" using 2(6) pos by linarith
      show ?thesis
      proof (cases "is_ts_segment_uri (seg_uri seg) \<and> resolve_url (h_url h) (seg_uri seg) \<noteq> None")
        case False
        with nseen new 2(4) show ?thesis by (auto split: if_splits option.splits)
      next
        case True
        then obtain u where u: "resolve_url (h_url h) (seg_uri seg) = Some u" by auto
        obtain r w1 where f: "fetch u w = (r, w1)" by fastforce
        show ?thesis
        proof (cases r)
          case (Some err)
          with nseen new True u f 2(4) gt show ?thesis by auto
        next
          case None
          define h2 where "h2 = (if 0 < seg_duration seg
            then (note_seen seg h)\<lparr>h_last_duration := seg_duration seg\<rparr> else note_seen seg h)"
          have ls: "h_last_seq (note_seq seg h2) = seg_seq seg"
            using gt by (simp add: h2_def note_seq_def)
          obtain e3 h3 w3 got3 where rec: "hls_segments fetch segs (note_seq seg h2) w1 = (e3, h3, w3, got3)"
            by (metis prod_cases4)
          from 2(4) nseen new pos True u f None rec have "got = seg # got3"
            by (auto simp: h2_def [symmetric] Let_def)
          moreover from 2(3) [OF nseen, of u r w1 "note_seen seg h" h2 e3 h3 w3 got3] new pos True u f None rec ls 2(5)
          have "sorted_wrt (<) (map seg_seq got3) \<and> (\<forall>g\<in>set got3. seg_seq seg < seg_seq g) \<and> set got3 \<subseteq> set segs"
            by (auto simp: h2_def)
          ultimately show ?thesis using gt by auto
        qed
      qed
    qed
  qed
qed simp

lemma best_variant_max:
  "var_bandwidth best \<le> var_bandwidth (best_variant best vs) \<and>
   (\<forall>v \<in> set vs. var_bandwidth v \<le> var_bandwidth (best_variant best vs)) \<and>
   best_variant best vs \<in> set (best # vs)"
proof (induction best vs rule: best_variant.induct)
  case (2 best v vs)
  then show ?case by (cases "var_bandwidth best < var_bandwidth v") auto
qed simp

section \<open>Properties\<close>



text \<open>C35: The window of seen segments never exceeds its capacity, and a segment that enters it
  is remembered until as many others have entered as the window holds.\<close>

theorem seen_window:
  assumes "seen_ok s" "\<not> seen_has s u" "length us < ss_max s"
  shows "seen_has (foldl seen_add (seen_add s u) us) u \<and>
    length (ss_order (foldl seen_add (seen_add s u) us)) \<le> ss_max s"
  using seen.remembers [OF assms] seen.recent_bound [OF seen.ok_puts [OF seen_add_order(2) [OF assms(1)]], of u us]
  by (simp add: seen.capacity_puts seen.capacity_put)

lemma seen_window_witness:
  "seen_has (foldl seen_add (seen_add (new_seen_set 3) ''a'') [''b'', ''c'']) ''a''"
  using seen_window [of "new_seen_set 3" "''a''" "[''b'', ''c'']"]
  by (simp add: new_seen_set_def seen_ok_def seen_has_def)

text \<open>C36: The reload delay is at least 250 ms whatever the playlist says, and a playlist whose
  segments have durations is reloaded after the last of them when it changed, after half its
  target duration when it did not.\<close>

theorem reload_wait:
  "milliseconds 250 \<le> media_playlist_reload_wait tgt prev changed \<and>
   (0 < prev \<longrightarrow> milliseconds 250 \<le> to_duration prev \<longrightarrow>
      media_playlist_reload_wait tgt prev True = to_duration prev) \<and>
   (0 < tgt \<longrightarrow> milliseconds 250 \<le> to_duration (tgt / 2) \<longrightarrow>
      media_playlist_reload_wait tgt prev False = to_duration (tgt / 2))"
  by (simp add: media_playlist_reload_wait_def Let_def)

lemma reload_wait_witness:
  "media_playlist_reload_wait 10 6 False = seconds 5"
proof -
  have "to_duration (10 / 2) = seconds 5"
    by (simp add: to_duration_def min_int64_def max_int64_def seconds_def)
  with reload_wait [of 10 6 False] show ?thesis by (simp add: milliseconds_def seconds_def)
qed

text \<open>C37: The variant chosen from a master playlist is one of its variants, with the largest
  bandwidth of them.\<close>

theorem pick_variant_best:
  assumes "vs \<noteq> []"
  shows "pick_variant vs \<in> set vs \<and> list_all (\<lambda>v. var_bandwidth v \<le> var_bandwidth (pick_variant vs)) vs"
  using assms best_variant_max [of "hd vs" "tl vs"]
  by (cases vs) (auto simp: pick_variant_def list_all_iff)

lemma pick_variant_best_witness:
  "var_bandwidth (pick_variant [\<lparr> var_uri = ''a'', var_bandwidth = 1 \<rparr>, \<lparr> var_uri = ''b'', var_bandwidth = 5 \<rparr>]) = 5"
  using pick_variant_best [of "[\<lparr> var_uri = ''a'', var_bandwidth = 1 \<rparr>, \<lparr> var_uri = ''b'', var_bandwidth = 5 \<rparr>]"]
  by (simp add: pick_variant_def)


text \<open>C39: A master playlist whose best variant is a master playlist again is followed without any
  delay: on such answers the loop never waits and never ends.\<close>

theorem master_loop_spins:
  assumes "parse_hls_playlist body = Inr pl" "is_master pl" "variants pl \<noteq> []"
    and "has_prefix (var_uri (pick_variant (variants pl))) ''http://''"
    and "\<not> halted w"
  shows "\<exists>h'. pump_hls halted fetch ready (replicate n (t, Inr body)) h w = (None, h', w, replicate n 0)"
proof (induction n arbitrary: h)
  case (Suc n)
  have r: "resolve_url u (var_uri (pick_variant (variants pl))) = Some (var_uri (pick_variant (variants pl)))" for u
    using assms(4) by (simp add: resolve_url_def)
  from Suc.IH [of "h\<lparr>h_url := var_uri (pick_variant (variants pl))\<rparr>"] show ?case
    using assms by (auto simp: hls_turn_def r)
qed simp

lemma master_loop_spins_witness:
  "\<exists>h'. pump_hls (\<lambda>w. False) (\<lambda>u w. (None, w)) False
     (replicate 1000 (0, Inr (''#EXTM3U'' @ [CHR 0x0A] @ ''#EXT-X-STREAM-INF:BANDWIDTH=1'' @ [CHR 0x0A] @ ''http://h/m'')))
     (hls_start ''http://h/m'') () = (None, h', (), replicate 1000 0)"
proof -
  let ?b = "''#EXTM3U'' @ [CHR 0x0A] @ ''#EXT-X-STREAM-INF:BANDWIDTH=1'' @ [CHR 0x0A] @ ''http://h/m''"
  have l: "scan_lines 2097152 ?b = ([''#EXTM3U'', ''#EXT-X-STREAM-INF:BANDWIDTH=1'', ''http://h/m''], True)"
    by (simp add: scan_lines_def drop_cr_def)
  have c: "contains_str ?b ''#EXTM3U''" by code_simp
  have h: "hls_lines [''#EXTM3U'', ''#EXT-X-STREAM-INF:BANDWIDTH=1'', ''http://h/m'']
      \<lparr> ps_list = empty_playlist, ps_duration = 0, ps_bandwidth = 0, ps_seq = 0, ps_media = False \<rparr> =
    Inr \<lparr> ps_list = empty_playlist\<lparr>is_master := True, variants := [\<lparr> var_uri = ''http://h/m'', var_bandwidth = 1 \<rparr>]\<rparr>,
      ps_duration = 0, ps_bandwidth = 0, ps_seq = 0, ps_media = False \<rparr>"
    by code_simp
  have "parse_hls_playlist ?b = Inr \<lparr> is_master = True, end_list = False, target_duration = 6,
     media_sequence = 0, segments = [], variants = [\<lparr> var_uri = ''http://h/m'', var_bandwidth = 1 \<rparr>] \<rparr>"
    unfolding parse_hls_playlist_def l using c h by (simp add: empty_playlist_def)
  from master_loop_spins [OF this, of "\<lambda>w. False" "()"] show ?thesis
    by (simp add: pick_variant_def)
qed

end
