(* ===== verification/PumpKinds.thy ===== *)
theory PumpKinds
  imports Hls
begin

text \<open>
  The two kinds of pump: \<^verbatim>\<open>pumpPassThrough\<close> of \<^verbatim>\<open>internal/core/stream/pump.go\<close>, which looks at the
  upstream's response and follows a playlist or copies a transport stream, and
  \<^verbatim>\<open>pumpTranscode\<close> of \<^verbatim>\<open>pump_transcode.go\<close> with the text it keeps of ffmpeg's error output.
  The HTTP client and the ffmpeg process are the environment: what they answer is an argument.
\<close>

section \<open>pump.go: pumpPassThrough\<close>

text \<open>The client's answer: the status, the header, the URL after redirects, the first kilobyte with
  the error that ended it, and the rest of the body as the playlist branch reads it.\<close>

record http_answer =
  ha_status :: int
  ha_content_type :: string
  ha_final_url :: "string option"
  ha_peek :: string
  ha_peek_err :: "stream_err option"
  ha_rest :: "stream_err + string"

datatype pass_next = PassReturn "stream_err option" | PassHls string string | PassTs string

text \<open>\<^verbatim>\<open>textproto.CanonicalMIMEHeaderKey\<close>, under which \<^verbatim>\<open>Header.Set\<close> files a value.\<close>

definition header_token :: "char \<Rightarrow> bool" where
  "header_token c \<longleftrightarrow> is_alpha_char c \<or> is_digit_char c \<or> c \<in> set ''!#$%&*+-.^_|~'' \<or>
     c = CHR 0x27 \<or> c = CHR 0x60"

fun capitalize :: "bool \<Rightarrow> string \<Rightarrow> string" where
  "capitalize up [] = []"
| "capitalize up (c # cs) = (if up then upper_char c else lower_char c) # capitalize (c = CHR ''-'') cs"

definition canonical_key :: "string \<Rightarrow> string" where
  "canonical_key k = (if list_all header_token k then capitalize True k else k)"

definition request_headers :: "upstream \<Rightarrow> headers" where
  "request_headers up =
     foldl (\<lambda>hs (k, v). aput (canonical_key k) v hs) [(''User-Agent'', ''tvr/1.0''), (''Accept'', ''*/*'')] (up_headers up)"

definition err_unexpected_eof :: stream_err where "err_unexpected_eof = ErrMsg ''unexpected EOF''"

definition pass_through :: "session \<Rightarrow> upstream \<Rightarrow> stream_err + http_answer \<Rightarrow> pass_next" where
  "pass_through s up ans =
     (case ans of
        Inl e \<Rightarrow> PassReturn (if s_stopped s \<or> err_is e ErrCanceled then None else Some e)
      | Inr a \<Rightarrow>
          (if ha_status a < 200 \<or> 300 \<le> ha_status a
           then PassReturn (Some (ErrMsg (''upstream status '' @ show_int (ha_status a))))
           else case (case ha_peek_err a of None \<Rightarrow> None
               | Some e \<Rightarrow> (if err_is e ErrEOF \<or> err_is e err_unexpected_eof then None else Some e)) of
             Some e \<Rightarrow> PassReturn (if s_stopped s \<or> err_is e ErrCanceled then None else Some e)
           | None \<Rightarrow>
               (if looks_like_hls (ha_content_type a) (ha_peek a)
                then (case ha_rest a of
                    Inl e \<Rightarrow> PassReturn (Some e)
                  | Inr rest \<Rightarrow> PassHls (case ha_final_url a of None \<Rightarrow> up_url up | Some u \<Rightarrow> u) (ha_peek a @ rest))
                else PassTs (ha_peek a))))"

section \<open>pump_transcode.go: the error output\<close>

record ring_buffer =
  rb_max :: nat
  rb_buf :: string

definition ring_write :: "string \<Rightarrow> ring_buffer \<Rightarrow> ring_buffer" where
  "ring_write p r =
     (let b = rb_buf r @ p
      in r\<lparr>rb_buf := (if rb_max r < length b then drop (length b - rb_max r) b else b)\<rparr>)"

definition redact_secrets :: "string \<Rightarrow> upstream \<Rightarrow> string" where
  "redact_secrets err up =
     (let m0 = trim_space err in
      if m0 = [] then []
      else let m1 = (if up_url up \<noteq> [] then replace_all (up_url up) ''<url>'' m0 else m0);
               m2 = foldl (\<lambda>m (k, v). if \<not> blank v then replace_all v ''<redacted>'' m else m) m1 (up_headers up)
           in if 512 < length m2 then drop (length m2 - 512) m2 else m2)"

definition annotate_ffmpeg_err :: "stream_err \<Rightarrow> upstream \<Rightarrow> string \<Rightarrow> stream_err" where
  "annotate_ffmpeg_err e up err =
     (let msg = redact_secrets err up in if msg = [] then e else ErrPair e (ErrMsg msg))"

section \<open>pump_transcode.go: pumpTranscode\<close>

definition ffmpeg_binary :: "profile \<Rightarrow> string" where
  "ffmpeg_binary p = (let b = trim_space (ffmpeg_path p) in if b = [] then ''ffmpeg'' else b)"

text \<open>The error \<^verbatim>\<open>pumpTranscode\<close> returns once ffmpeg runs: what copying its output returned, what
  \<^verbatim>\<open>cmd.Wait\<close> returned, and what it wrote to its error output.\<close>

definition transcode_result ::
    "nat \<Rightarrow> session \<Rightarrow> stream_err option \<Rightarrow> stream_err option \<Rightarrow> string list \<Rightarrow> stream_err option" where
  "transcode_result p s copy_err wait_err writes =
     (let up = s_upstream s;
          err = rb_buf (foldl (\<lambda>r w. ring_write w r) \<lparr> rb_max = 4096, rb_buf = [] \<rparr> writes)
      in if s_stopped s \<or> p \<in> set (s_cancelled s) then None
         else case copy_err of
             Some e \<Rightarrow> (if \<not> err_is e ErrEOF then Some (annotate_ffmpeg_err e up err)
               else (case wait_err of Some w \<Rightarrow> Some (annotate_ffmpeg_err w up err)
                 | None \<Rightarrow> if \<not> s_ever_ready s
                     then Some (annotate_ffmpeg_err (ErrMsg ''ffmpeg produced no mpeg-ts'') up err)
                     else Some (ErrMsg ''ffmpeg exited'')))
           | None \<Rightarrow> (case wait_err of Some w \<Rightarrow> Some (annotate_ffmpeg_err w up err)
               | None \<Rightarrow> if \<not> s_ever_ready s
                   then Some (annotate_ffmpeg_err (ErrMsg ''ffmpeg produced no mpeg-ts'') up err)
                   else Some (ErrMsg ''ffmpeg exited'')))"

text \<open>The whole of it: the arguments first, then the start of the process, then the copy of its
  output along a schedule.\<close>

definition pump_transcode ::
    "string \<Rightarrow> nat \<Rightarrow> stream_err option \<Rightarrow> sched list \<Rightarrow> stream_err option \<Rightarrow> string list \<Rightarrow> session
      \<Rightarrow> (stream_err option) option \<times> session" where
  "pump_transcode now p start_err evs wait_err writes s =
     (case build_args (s_profile s) (s_upstream s) of
        Inl e \<Rightarrow> (Some (Some (ErrMsg e)), s)
      | Inr args \<Rightarrow>
          (case start_err of
             Some e \<Rightarrow> (Some (Some (ErrPair (ErrMsg ''start ffmpeg'') e)), s)
           | None \<Rightarrow>
               (case copy_mpegts now p \<lparr> co_max_bytes = 0, co_segment = False \<rparr> evs copy_start
                   (set_state ''connecting'' [] s) of
                  (Running c, s1) \<Rightarrow> (None, s1)
                | (Returned e, s1) \<Rightarrow> (Some (transcode_result p s1 e wait_err writes), s1))))"

section \<open>Facts\<close>

lemma ring_writes:
  "rb_buf r = drop (length all - rb_max r) all \<Longrightarrow>
   rb_buf (foldl (\<lambda>r w. ring_write w r) r ws) =
     drop (length (all @ concat ws) - rb_max r) (all @ concat ws)"
proof (induction ws arbitrary: r all)
  case (Cons w ws)
  have "rb_buf (ring_write w r) = drop (length (all @ w) - rb_max r) (all @ w)"
    using Cons.prems
    by (cases "rb_max r \<le> length all"; cases w) (auto simp: ring_write_def Let_def Suc_diff_le add.commute)
  moreover have "rb_max (ring_write w r) = rb_max r" by (simp add: ring_write_def Let_def)
  ultimately show ?case using Cons.IH [of "ring_write w r" "all @ w"] by simp
qed simp

section \<open>Properties\<close>

text \<open>The error buffer of ffmpeg holds exactly the last bytes of everything written to it, as
  many as fit.\<close>

theorem ring_buffer_keeps_tail:
  "rb_buf (foldl (\<lambda>r w. ring_write w r) \<lparr> rb_max = m, rb_buf = [] \<rparr> ws) =
     drop (length (concat ws) - m) (concat ws)"
  using ring_writes [of "\<lparr> rb_max = m, rb_buf = [] \<rparr>" "[]" ws] by simp

end
