(* ===== verification/StoreModel.thy ===== *)
theory StoreModel
  imports Upstream
begin

text \<open>
  The SQLite database of \<^verbatim>\<open>internal/core/store\<close>: the tables of \<^verbatim>\<open>ensureSchema\<close> as lists of rows in
  row-id order, its constraints, statements, and \<^verbatim>\<open>withTx\<close> (\<^verbatim>\<open>tx.go\<close>).

  A statement is a function from the tables to the tables.  \<open>run_stmt\<close> runs it the way the engine
  does: if the outcome breaks a \<^verbatim>\<open>UNIQUE\<close> or \<^verbatim>\<open>REFERENCES\<close> clause of the schema, the statement fails
  with the engine's message and nothing is written (rows with an integer key stand in key order,
  the others in the order of their insertion).  An operation is a chain of statements in
  \<open>dbm\<close>, where an error stops the chain but does not undo the statements before it: only \<open>with_tx\<close>
  does.  When several constraints fail at once the first of \<open>constraints\<close> is reported.  A query
  without \<^verbatim>\<open>ORDER BY\<close> returns its rows in row-id order.  Time stamps are their RFC3339Nano texts (the
  columns hold those), and a header column its decoded map.  Reading, writing and decoding do not
  fail in the model; \<^verbatim>\<open>uuid.NewString\<close> is the parameter \<open>uuid\<close>, its n-th result \<open>uuid n\<close>.
\<close>

datatype store_err = ErrNotFound | ErrValidation string | ErrConflict string | ErrDb string

section \<open>Tables\<close>

record channel_row =
  cr_id :: string
  cr_name :: string
  cr_logo :: string
  cr_url :: string
  cr_headers :: headers
  cr_transcode :: bool
  cr_policy :: string
  cr_fixed :: "string option"
  cr_epg :: "int option"
  cr_tvg :: string
  cr_created :: string
  cr_updated :: string

record upstream_row =
  ur_id :: string
  ur_channel :: string
  ur_url :: string
  ur_headers :: headers
  ur_sort :: int
  ur_proxy :: "string option"

record proxy_row =
  px_id :: string
  px_name :: string
  px_policy :: string
  px_fixed :: "string option"
  px_created :: string
  px_updated :: string

record server_row =
  sv_id :: string
  sv_proxy :: string
  sv_url :: string
  sv_sort :: int

record epg_row =
  ep_id :: int
  ep_name :: string
  ep_url :: string
  ep_enabled :: bool
  ep_seconds :: int
  ep_last :: "string option"
  ep_error :: string
  ep_created :: string
  ep_updated :: string

record relay_row =
  rl_id :: int
  rl_name :: string
  rl_slug :: string
  rl_created :: string
  rl_updated :: string

record group_row =
  gr_id :: int
  gr_relay :: int
  gr_name :: string
  gr_sort :: int

record member_row =
  mb_id :: int
  mb_relay :: int
  mb_group :: int
  mb_channel :: string
  mb_number :: int
  mb_sort :: int

record settings_row =
  se_crf :: int
  se_preset :: string
  se_bitrate :: int
  se_height :: int
  se_startup :: int
  se_icon :: string
  se_title :: string

record db =
  t_channels :: "channel_row list"
  t_upstreams :: "upstream_row list"
  t_proxies :: "proxy_row list"
  t_servers :: "server_row list"
  t_epgs :: "epg_row list"
  t_relays :: "relay_row list"
  t_groups :: "group_row list"
  t_members :: "member_row list"
  t_settings :: "settings_row option"
  q_epgs :: int
  q_relays :: int
  q_groups :: int
  q_members :: int
  fresh :: nat

text \<open>\<^verbatim>\<open>ensureSchema\<close> on a new file: empty tables and the settings row of \<^verbatim>\<open>ensureAppSettingsRow\<close>.\<close>

definition empty_db :: db where
  "empty_db = \<lparr> t_channels = [], t_upstreams = [], t_proxies = [], t_servers = [], t_epgs = [],
     t_relays = [], t_groups = [], t_members = [],
     t_settings = Some \<lparr> se_crf = 23, se_preset = ''veryfast'', se_bitrate = 128, se_height = 0,
       se_startup = 30, se_icon = [], se_title = ''IPTV Relay'' \<rparr>,
     q_epgs = 0, q_relays = 0, q_groups = 0, q_members = 0, fresh = 0 \<rparr>"

section \<open>Constraints\<close>

definition unique_by :: "('r \<Rightarrow> 'k) \<Rightarrow> 'r list \<Rightarrow> bool" where
  "unique_by k rows = distinct (map k rows)"

definition refers :: "('r \<Rightarrow> 'k) \<Rightarrow> 'r list \<Rightarrow> ('s \<Rightarrow> 'k) \<Rightarrow> 's list \<Rightarrow> bool" where
  "refers k rows k' parents = list_all (\<lambda>r. k r \<in> set (map k' parents)) rows"

definition refers_null :: "('r \<Rightarrow> 'k option) \<Rightarrow> 'r list \<Rightarrow> ('s \<Rightarrow> 'k) \<Rightarrow> 's list \<Rightarrow> bool" where
  "refers_null k rows k' parents =
     list_all (\<lambda>r. case k r of None \<Rightarrow> True | Some x \<Rightarrow> x \<in> set (map k' parents)) rows"

definition foreign_keys :: "db \<Rightarrow> bool" where
  "foreign_keys d \<longleftrightarrow>
     refers_null cr_epg (t_channels d) ep_id (t_epgs d) \<and>
     refers sv_proxy (t_servers d) px_id (t_proxies d) \<and>
     refers ur_channel (t_upstreams d) cr_id (t_channels d) \<and>
     refers_null ur_proxy (t_upstreams d) px_id (t_proxies d) \<and>
     refers gr_relay (t_groups d) rl_id (t_relays d) \<and>
     refers mb_relay (t_members d) rl_id (t_relays d) \<and>
     refers mb_group (t_members d) gr_id (t_groups d) \<and>
     refers mb_channel (t_members d) cr_id (t_channels d)"

definition constraints :: "db \<Rightarrow> (string \<times> bool) list" where
  "constraints d =
     [(''UNIQUE constraint failed: epg_sources.id'', unique_by ep_id (t_epgs d)),
      (''UNIQUE constraint failed: channels.id'', unique_by cr_id (t_channels d)),
      (''UNIQUE constraint failed: channels.upstream_url'', unique_by cr_url (t_channels d)),
      (''UNIQUE constraint failed: channels.name'',
         unique_by (\<lambda>r. to_lower (cr_name r)) (t_channels d)),
      (''UNIQUE constraint failed: proxies.id'', unique_by px_id (t_proxies d)),
      (''UNIQUE constraint failed: proxies.name'',
         unique_by (\<lambda>r. to_lower (px_name r)) (t_proxies d)),
      (''UNIQUE constraint failed: proxy_servers.id'', unique_by sv_id (t_servers d)),
      (''UNIQUE constraint failed: channel_upstreams.id'', unique_by ur_id (t_upstreams d)),
      (''UNIQUE constraint failed: channel_upstreams.url'',
         unique_by ur_url (filter (\<lambda>r. ur_proxy r = None) (t_upstreams d))),
      (''UNIQUE constraint failed: relays.id'', unique_by rl_id (t_relays d)),
      (''UNIQUE constraint failed: relays.slug'', unique_by rl_slug (t_relays d)),
      (''UNIQUE constraint failed: relay_groups.id'', unique_by gr_id (t_groups d)),
      (''UNIQUE constraint failed: relay_memberships.id'', unique_by mb_id (t_members d)),
      (''UNIQUE constraint failed: relay_memberships.relay_id, relay_memberships.channel_id'',
         unique_by (\<lambda>r. (mb_relay r, mb_channel r)) (t_members d)),
      (''FOREIGN KEY constraint failed'', foreign_keys d)]"

definition violation :: "db \<Rightarrow> string option" where
  "violation d = map_option fst (find (\<lambda>(_, ok). \<not> ok) (constraints d))"

definition schema_ok :: "db \<Rightarrow> bool" where
  "schema_ok d \<longleftrightarrow> violation d = None"

section \<open>Operations on the database\<close>

type_synonym 'v dbm = "db \<Rightarrow> (store_err + 'v) \<times> db"

definition okD :: "'v \<Rightarrow> 'v dbm" where "okD x = (\<lambda>d. (Inr x, d))"
definition failD :: "store_err \<Rightarrow> 'v dbm" where "failD e = (\<lambda>d. (Inl e, d))"
definition liftD :: "store_err + 'v \<Rightarrow> 'v dbm" where "liftD r = (\<lambda>d. (r, d))"
definition queryD :: "(db \<Rightarrow> 'v) \<Rightarrow> 'v dbm" where "queryD q = (\<lambda>d. (Inr (q d), d))"

definition bindD :: "'v dbm \<Rightarrow> ('v \<Rightarrow> 'w dbm) \<Rightarrow> 'w dbm" where
  "bindD m f = (\<lambda>d. case m d of (Inl e, d') \<Rightarrow> (Inl e, d') | (Inr x, d') \<Rightarrow> f x d')"

definition guardD :: "bool \<Rightarrow> store_err \<Rightarrow> unit dbm" where
  "guardD ok e = (if ok then okD () else failD e)"

fun foldD :: "('acc \<Rightarrow> 'v \<Rightarrow> 'acc dbm) \<Rightarrow> 'acc \<Rightarrow> 'v list \<Rightarrow> 'acc dbm" where
  "foldD f acc [] = okD acc"
| "foldD f acc (x # xs) = bindD (f acc x) (\<lambda>acc'. foldD f acc' xs)"

definition run_stmt :: "(db \<Rightarrow> db) \<Rightarrow> unit dbm" where
  "run_stmt f = (\<lambda>d. case violation (f d) of None \<Rightarrow> (Inr (), f d) | Some msg \<Rightarrow> (Inl (ErrDb msg), d))"

text \<open>A statement with the number of rows it affects.\<close>

definition stmt_rows :: "(db \<Rightarrow> nat) \<Rightarrow> (db \<Rightarrow> db) \<Rightarrow> nat dbm" where
  "stmt_rows n f = (\<lambda>d. bindD (run_stmt f) (\<lambda>_. okD (n d)) d)"

definition mapErrD :: "(store_err \<Rightarrow> store_err) \<Rightarrow> 'v dbm \<Rightarrow> 'v dbm" where
  "mapErrD g m = (\<lambda>d. case m d of (Inl e, d') \<Rightarrow> (Inl (g e), d') | r \<Rightarrow> r)"

definition new_uuid :: "(nat \<Rightarrow> string) \<Rightarrow> string dbm" where
  "new_uuid uuid = (\<lambda>d. (Inr (uuid (fresh d)), d\<lparr>fresh := Suc (fresh d)\<rparr>))"

text \<open>\<^verbatim>\<open>withTx\<close>: an error rolls every statement back.  The random source is not rolled back.\<close>

definition with_tx :: "'v dbm \<Rightarrow> 'v dbm" where
  "with_tx body = (\<lambda>d. case body d of (Inl e, d') \<Rightarrow> (Inl e, d\<lparr>fresh := fresh d'\<rparr>) | r \<Rightarrow> r)"

text \<open>The error an operation returns, if any, and its result.\<close>

definition is_unique_err :: "store_err \<Rightarrow> bool" where
  "is_unique_err e = (case e of ErrDb msg \<Rightarrow> contains_str (to_lower msg) ''unique'' | _ \<Rightarrow> False)"

definition on_unique :: "store_err \<Rightarrow> store_err \<Rightarrow> store_err" where
  "on_unique e' e = (if is_unique_err e then e' else e)"

section \<open>Statements\<close>

text \<open>The id an \<^verbatim>\<open>AUTOINCREMENT\<close> key gets, and the sequence after an insert.\<close>

definition top_id :: "int \<Rightarrow> int list \<Rightarrow> int" where
  "top_id q ids = foldr max ids q"

definition update_where :: "('r \<Rightarrow> bool) \<Rightarrow> ('r \<Rightarrow> 'r) \<Rightarrow> 'r list \<Rightarrow> 'r list" where
  "update_where p f rows = map (\<lambda>r. if p r then f r else r) rows"

definition delete_where :: "('r \<Rightarrow> bool) \<Rightarrow> 'r list \<Rightarrow> 'r list" where
  "delete_where p rows = filter (\<lambda>r. \<not> p r) rows"

definition ins_channel :: "channel_row \<Rightarrow> db \<Rightarrow> db" where
  "ins_channel r d = d\<lparr>t_channels := t_channels d @ [r]\<rparr>"

definition upd_channel :: "string \<Rightarrow> (channel_row \<Rightarrow> channel_row) \<Rightarrow> db \<Rightarrow> db" where
  "upd_channel i f d = d\<lparr>t_channels := update_where (\<lambda>r. cr_id r = i) f (t_channels d)\<rparr>"

text \<open>Deleting channels: the upstream rows go with them (\<^verbatim>\<open>ON DELETE CASCADE\<close>); memberships and
  other \<^verbatim>\<open>RESTRICT\<close> references left dangling fail the statement.\<close>

definition del_channels :: "(channel_row \<Rightarrow> bool) \<Rightarrow> db \<Rightarrow> db" where
  "del_channels p d =
     (let gone = map cr_id (filter p (t_channels d)) in
      d\<lparr>t_channels := delete_where p (t_channels d),
        t_upstreams := delete_where (\<lambda>u. ur_channel u \<in> set gone) (t_upstreams d)\<rparr>)"

definition ins_upstream :: "upstream_row \<Rightarrow> db \<Rightarrow> db" where
  "ins_upstream r d = d\<lparr>t_upstreams := t_upstreams d @ [r]\<rparr>"

definition del_upstreams :: "string \<Rightarrow> db \<Rightarrow> db" where
  "del_upstreams ch d = d\<lparr>t_upstreams := delete_where (\<lambda>u. ur_channel u = ch) (t_upstreams d)\<rparr>"

definition ins_proxy :: "proxy_row \<Rightarrow> db \<Rightarrow> db" where
  "ins_proxy r d = d\<lparr>t_proxies := t_proxies d @ [r]\<rparr>"

definition upd_proxy :: "string \<Rightarrow> (proxy_row \<Rightarrow> proxy_row) \<Rightarrow> db \<Rightarrow> db" where
  "upd_proxy i f d = d\<lparr>t_proxies := update_where (\<lambda>r. px_id r = i) f (t_proxies d)\<rparr>"

definition del_proxies :: "(proxy_row \<Rightarrow> bool) \<Rightarrow> db \<Rightarrow> db" where
  "del_proxies p d =
     (let gone = map px_id (filter p (t_proxies d)) in
      d\<lparr>t_proxies := delete_where p (t_proxies d),
        t_servers := delete_where (\<lambda>s. sv_proxy s \<in> set gone) (t_servers d)\<rparr>)"

definition ins_server :: "server_row \<Rightarrow> db \<Rightarrow> db" where
  "ins_server r d = d\<lparr>t_servers := t_servers d @ [r]\<rparr>"

definition del_servers :: "string \<Rightarrow> db \<Rightarrow> db" where
  "del_servers px d = d\<lparr>t_servers := delete_where (\<lambda>s. sv_proxy s = px) (t_servers d)\<rparr>"

definition next_epg :: "db \<Rightarrow> int" where
  "next_epg d = top_id (q_epgs d) (map ep_id (t_epgs d)) + 1"

definition ins_epg :: "epg_row \<Rightarrow> db \<Rightarrow> db" where
  "ins_epg r d = d\<lparr>t_epgs := insort_key ep_id r (t_epgs d), q_epgs := max (q_epgs d) (ep_id r)\<rparr>"

definition upd_epg :: "int \<Rightarrow> (epg_row \<Rightarrow> epg_row) \<Rightarrow> db \<Rightarrow> db" where
  "upd_epg i f d = d\<lparr>t_epgs := update_where (\<lambda>r. ep_id r = i) f (t_epgs d)\<rparr>"

definition del_epgs :: "(epg_row \<Rightarrow> bool) \<Rightarrow> db \<Rightarrow> db" where
  "del_epgs p d = d\<lparr>t_epgs := delete_where p (t_epgs d)\<rparr>"

definition next_relay :: "db \<Rightarrow> int" where
  "next_relay d = top_id (q_relays d) (map rl_id (t_relays d)) + 1"

definition ins_relay :: "relay_row \<Rightarrow> db \<Rightarrow> db" where
  "ins_relay r d = d\<lparr>t_relays := insort_key rl_id r (t_relays d), q_relays := max (q_relays d) (rl_id r)\<rparr>"

definition upd_relay :: "int \<Rightarrow> (relay_row \<Rightarrow> relay_row) \<Rightarrow> db \<Rightarrow> db" where
  "upd_relay i f d = d\<lparr>t_relays := update_where (\<lambda>r. rl_id r = i) f (t_relays d)\<rparr>"

text \<open>Deleting relays cascades to their groups and memberships, deleting groups to theirs.\<close>

definition del_relays :: "(relay_row \<Rightarrow> bool) \<Rightarrow> db \<Rightarrow> db" where
  "del_relays p d =
     (let gone = map rl_id (filter p (t_relays d));
          groups = map gr_id (filter (\<lambda>g. gr_relay g \<in> set gone) (t_groups d)) in
      d\<lparr>t_relays := delete_where p (t_relays d),
        t_groups := delete_where (\<lambda>g. gr_relay g \<in> set gone) (t_groups d),
        t_members := delete_where (\<lambda>m. mb_relay m \<in> set gone \<or> mb_group m \<in> set groups) (t_members d)\<rparr>)"

definition next_group :: "db \<Rightarrow> int" where
  "next_group d = top_id (q_groups d) (map gr_id (t_groups d)) + 1"

definition ins_group :: "group_row \<Rightarrow> db \<Rightarrow> db" where
  "ins_group r d = d\<lparr>t_groups := insort_key gr_id r (t_groups d), q_groups := max (q_groups d) (gr_id r)\<rparr>"

definition upd_groups :: "(group_row \<Rightarrow> bool) \<Rightarrow> (group_row \<Rightarrow> group_row) \<Rightarrow> db \<Rightarrow> db" where
  "upd_groups p f d = d\<lparr>t_groups := update_where p f (t_groups d)\<rparr>"

definition del_groups :: "(group_row \<Rightarrow> bool) \<Rightarrow> db \<Rightarrow> db" where
  "del_groups p d =
     (let gone = map gr_id (filter p (t_groups d)) in
      d\<lparr>t_groups := delete_where p (t_groups d),
        t_members := delete_where (\<lambda>m. mb_group m \<in> set gone) (t_members d)\<rparr>)"

definition next_member :: "db \<Rightarrow> int" where
  "next_member d = top_id (q_members d) (map mb_id (t_members d)) + 1"

definition ins_member :: "member_row \<Rightarrow> db \<Rightarrow> db" where
  "ins_member r d = d\<lparr>t_members := insort_key mb_id r (t_members d), q_members := max (q_members d) (mb_id r)\<rparr>"

definition upd_members :: "(member_row \<Rightarrow> bool) \<Rightarrow> (member_row \<Rightarrow> member_row) \<Rightarrow> db \<Rightarrow> db" where
  "upd_members p f d = d\<lparr>t_members := update_where p f (t_members d)\<rparr>"

definition del_members :: "(member_row \<Rightarrow> bool) \<Rightarrow> db \<Rightarrow> db" where
  "del_members p d = d\<lparr>t_members := delete_where p (t_members d)\<rparr>"

definition upd_settings :: "(settings_row \<Rightarrow> settings_row) \<Rightarrow> db \<Rightarrow> db" where
  "upd_settings f d = d\<lparr>t_settings := map_option f (t_settings d)\<rparr>"

section \<open>Facts about operations\<close>

named_theorems dbm_simps "what a successful operation did"

lemma bindD_Inr [dbm_simps]:
  "bindD m f d = (Inr y, d'') \<longleftrightarrow> (\<exists>x d'. m d = (Inr x, d') \<and> f x d' = (Inr y, d''))"
  by (auto simp: bindD_def split: prod.splits sum.splits)

lemma bindD_Inl [dbm_simps]:
  "bindD m f d = (Inl e, d'') \<longleftrightarrow>
     m d = (Inl e, d'') \<or> (\<exists>x d'. m d = (Inr x, d') \<and> f x d' = (Inl e, d''))"
  by (auto simp: bindD_def split: prod.splits sum.splits)

lemma okD_eq [dbm_simps]: "okD x d = (r, d') \<longleftrightarrow> r = Inr x \<and> d' = d"
  by (auto simp: okD_def)

lemma failD_eq [dbm_simps]: "failD e d = (r, d') \<longleftrightarrow> r = Inl e \<and> d' = d"
  by (auto simp: failD_def)

lemma liftD_eq [dbm_simps]: "liftD v d = (r, d') \<longleftrightarrow> r = v \<and> d' = d"
  by (auto simp: liftD_def)

lemma queryD_eq [dbm_simps]: "queryD q d = (r, d') \<longleftrightarrow> r = Inr (q d) \<and> d' = d"
  by (auto simp: queryD_def)

lemma guardD_Inr [dbm_simps]: "guardD ok e d = (Inr u, d') \<longleftrightarrow> ok \<and> d' = d"
  by (auto simp: guardD_def okD_def failD_def)

lemma guardD_Inl [dbm_simps]: "guardD ok e d = (Inl e', d') \<longleftrightarrow> \<not> ok \<and> e' = e \<and> d' = d"
  by (auto simp: guardD_def okD_def failD_def)

lemma run_stmt_Inr [dbm_simps]: "run_stmt f d = (Inr u, d') \<longleftrightarrow> schema_ok (f d) \<and> d' = f d"
  by (auto simp: run_stmt_def schema_ok_def split: option.splits)

lemma run_stmt_Inl [dbm_simps]:
  "run_stmt f d = (Inl e, d') \<longleftrightarrow> (\<exists>msg. violation (f d) = Some msg \<and> e = ErrDb msg) \<and> d' = d"
  by (auto simp: run_stmt_def split: option.splits)

lemma stmt_rows_Inr [dbm_simps]:
  "stmt_rows n f d = (Inr k, d') \<longleftrightarrow> schema_ok (f d) \<and> d' = f d \<and> k = n d"
  by (auto simp: stmt_rows_def bindD_Inr run_stmt_Inr okD_eq)

lemma stmt_rows_Inl [dbm_simps]:
  "stmt_rows n f d = (Inl e, d') \<longleftrightarrow> (\<exists>msg. violation (f d) = Some msg \<and> e = ErrDb msg) \<and> d' = d"
  by (auto simp: stmt_rows_def bindD_Inl run_stmt_Inl okD_eq)

lemma mapErrD_Inr [dbm_simps]: "mapErrD g m d = (Inr x, d') \<longleftrightarrow> m d = (Inr x, d')"
  by (auto simp: mapErrD_def split: prod.splits sum.splits)

lemma mapErrD_Inl [dbm_simps]:
  "mapErrD g m d = (Inl e, d') \<longleftrightarrow> (\<exists>e'. m d = (Inl e', d') \<and> e = g e')"
  by (auto simp: mapErrD_def split: prod.splits sum.splits)

lemma new_uuid_eq [dbm_simps]:
  "new_uuid uuid d = (r, d') \<longleftrightarrow> r = Inr (uuid (fresh d)) \<and> d' = d\<lparr>fresh := Suc (fresh d)\<rparr>"
  by (auto simp: new_uuid_def)

lemma with_tx_Inr [dbm_simps]: "with_tx m d = (Inr x, d') \<longleftrightarrow> m d = (Inr x, d')"
  by (auto simp: with_tx_def split: prod.splits sum.splits)

lemma with_tx_Inl [dbm_simps]:
  "with_tx m d = (Inl e, d') \<longleftrightarrow> (\<exists>d''. m d = (Inl e, d'') \<and> d' = d\<lparr>fresh := fresh d''\<rparr>)"
  by (auto simp: with_tx_def split: prod.splits sum.splits)

lemma schema_ok_iff: "schema_ok d \<longleftrightarrow> (\<forall>c \<in> set (constraints d). snd c)"
  by (force simp: schema_ok_def violation_def find_None_iff)

lemma schema_okD:
  assumes "schema_ok d"
  shows "unique_by ep_id (t_epgs d)" "unique_by cr_id (t_channels d)"
    "unique_by cr_url (t_channels d)" "unique_by px_id (t_proxies d)"
    "unique_by rl_id (t_relays d)" "unique_by rl_slug (t_relays d)" "unique_by gr_id (t_groups d)"
    "unique_by mb_id (t_members d)" "unique_by (\<lambda>r. (mb_relay r, mb_channel r)) (t_members d)"
    "foreign_keys d"
  using assms by (simp_all add: schema_ok_iff constraints_def)

section \<open>Invariants and atomicity\<close>

text \<open>Two databases that differ in the random source only.\<close>

definition same_db :: "db \<Rightarrow> db \<Rightarrow> bool" where
  "same_db d d' \<longleftrightarrow> d'\<lparr>fresh := fresh d\<rparr> = d"

definition keeps :: "(db \<Rightarrow> bool) \<Rightarrow> 'v dbm \<Rightarrow> bool" where
  "keeps I m \<longleftrightarrow> (\<forall>d x d'. I d \<longrightarrow> m d = (Inr x, d') \<longrightarrow> I d')"

definition atomic :: "'v dbm \<Rightarrow> bool" where
  "atomic m \<longleftrightarrow> (\<forall>d e d'. m d = (Inl e, d') \<longrightarrow> same_db d d')"

definition read_only :: "'v dbm \<Rightarrow> bool" where
  "read_only m \<longleftrightarrow> (\<forall>d r d'. m d = (r, d') \<longrightarrow> same_db d d')"

named_theorems keep_rules "operations that keep an invariant"
named_theorems ro_rules "operations that change nothing"

lemma same_db_refl [simp]: "same_db d d"
  by (simp add: same_db_def)

lemma same_db_fresh [simp]: "same_db d (d\<lparr>fresh := n\<rparr>)"
  by (simp add: same_db_def)

lemma same_db_trans: "same_db d d' \<Longrightarrow> same_db d' d'' \<Longrightarrow> same_db d d''"
  by (metis db.surjective db.update_convs(14) same_db_def)

lemma same_dbD:
  assumes "same_db d d'"
  shows "t_channels d' = t_channels d" "t_upstreams d' = t_upstreams d" "t_proxies d' = t_proxies d"
    "t_servers d' = t_servers d" "t_epgs d' = t_epgs d" "t_relays d' = t_relays d"
    "t_groups d' = t_groups d" "t_members d' = t_members d" "t_settings d' = t_settings d"
    "q_epgs d' = q_epgs d" "q_relays d' = q_relays d" "q_groups d' = q_groups d"
    "q_members d' = q_members d"
  using assms by (cases d; cases d'; simp add: same_db_def)+

lemma ro_okD [ro_rules]: "read_only (okD x)" by (simp add: read_only_def okD_def)
lemma ro_failD [ro_rules]: "read_only (failD e)" by (simp add: read_only_def failD_def)
lemma ro_liftD [ro_rules]: "read_only (liftD r)" by (simp add: read_only_def liftD_def)
lemma ro_queryD [ro_rules]: "read_only (queryD q)" by (simp add: read_only_def queryD_def)
lemma ro_guardD [ro_rules]: "read_only (guardD b e)"
  by (simp add: guardD_def ro_okD ro_failD)
lemma ro_new_uuid [ro_rules]: "read_only (new_uuid u)" by (simp add: read_only_def new_uuid_def)

lemma ro_bindD [ro_rules]: "read_only m \<Longrightarrow> (\<And>x. read_only (f x)) \<Longrightarrow> read_only (bindD m f)"
  unfolding read_only_def bindD_def
  by (force split: prod.splits sum.splits intro: same_db_trans)

lemma ro_mapErrD [ro_rules]: "read_only m \<Longrightarrow> read_only (mapErrD g m)"
  unfolding read_only_def mapErrD_def by (auto split: prod.splits sum.splits)

lemma ro_foldD [ro_rules]: "(\<And>a x. read_only (f a x)) \<Longrightarrow> read_only (foldD f acc xs)"
  by (induction xs arbitrary: acc) (simp_all add: ro_rules)

lemma ro_if [ro_rules]: "read_only m \<Longrightarrow> read_only m' \<Longrightarrow> read_only (if b then m else m')"
  by simp

lemma ro_prod [ro_rules]: "(\<And>a b. read_only (f a b)) \<Longrightarrow> read_only (case_prod f x)"
  by (simp split: prod.splits)

lemma ro_lift_at [ro_rules]: "read_only (\<lambda>d. liftD (f d) d)"
  by (simp add: read_only_def liftD_def)

lemma ro_guard_at [ro_rules]: "read_only (\<lambda>d. guardD (b d) e d)"
  by (simp add: read_only_def guardD_def okD_def failD_def)

lemma ro_row_at [ro_rules]:
  "read_only (\<lambda>d. case q d of None \<Rightarrow> (Inl e, d) | Some r \<Rightarrow> (Inr (f d r), d))"
  by (auto simp: read_only_def split: option.splits)

lemma atomic_ro: "read_only m \<Longrightarrow> atomic m"
  by (simp add: read_only_def atomic_def)

lemma atomic_with_tx: "atomic (with_tx m)"
  by (auto simp: atomic_def dbm_simps)

lemma atomic_run_stmt: "atomic (run_stmt f)"
  by (auto simp: atomic_def dbm_simps)

lemma atomic_stmt_rows: "atomic (stmt_rows n f)"
  by (auto simp: atomic_def dbm_simps)

lemma atomic_mapErrD: "atomic m \<Longrightarrow> atomic (mapErrD g m)"
  by (auto simp: atomic_def dbm_simps)

text \<open>A read before an atomic write, and a write whose result is read back.\<close>

lemma atomic_ro_bind: "read_only m \<Longrightarrow> (\<And>x. atomic (f x)) \<Longrightarrow> atomic (bindD m f)"
  unfolding atomic_def read_only_def bindD_Inl by (meson same_db_trans)

lemma atomic_bind_ok:
  "atomic m \<Longrightarrow> (\<And>d x d' e d''. m d = (Inr x, d') \<Longrightarrow> f x d' = (Inl e, d'') \<Longrightarrow> False) \<Longrightarrow>
   atomic (bindD m f)"
  unfolding atomic_def bindD_Inl by metis

text \<open>An invariant of the tables: operations that keep it compose.\<close>

locale db_invariant =
  fixes I :: "db \<Rightarrow> bool"
  assumes I_fresh: "I (d\<lparr>fresh := n\<rparr>) = I d"
begin

lemma I_same: "same_db d d' \<Longrightarrow> I d' = I d"
  unfolding same_db_def by (metis I_fresh)

lemma keeps_ro: "read_only m \<Longrightarrow> keeps I m"
  unfolding keeps_def read_only_def using I_same by blast

lemma keeps_bindD: "keeps I m \<Longrightarrow> (\<And>x. keeps I (f x)) \<Longrightarrow> keeps I (bindD m f)"
  unfolding keeps_def bindD_Inr by blast

lemma keeps_mapErrD: "keeps I m \<Longrightarrow> keeps I (mapErrD g m)"
  by (auto simp: keeps_def dbm_simps)

lemma keeps_with_tx: "keeps I m \<Longrightarrow> keeps I (with_tx m)"
  by (auto simp: keeps_def dbm_simps)

lemma keeps_foldD: "(\<And>a x. keeps I (f a x)) \<Longrightarrow> keeps I (foldD f acc xs)"
proof (induction xs arbitrary: acc)
  case Nil
  then show ?case by (simp add: keeps_def dbm_simps)
next
  case (Cons x xs)
  then show ?case by (simp add: keeps_bindD)
qed

lemma keeps_if: "keeps I m \<Longrightarrow> keeps I m' \<Longrightarrow> keeps I (if b then m else m')"
  by simp

lemma keeps_prod: "(\<And>a b. keeps I (f a b)) \<Longrightarrow> keeps I (case_prod f x)"
  by (simp split: prod.splits)

lemma keeps_prod2: "(\<And>a b. keeps I (f a b y)) \<Longrightarrow> keeps I (case_prod f x y)"
  by (simp split: prod.splits)

lemma keeps_option: "keeps I m \<Longrightarrow> (\<And>y. keeps I (f y)) \<Longrightarrow> keeps I (case_option m f x)"
  by (simp split: option.splits)

text \<open>What is known of the value an operation returns.\<close>

lemma keeps_bind_post:
  "keeps I m \<Longrightarrow> (\<And>d x d'. I d \<Longrightarrow> m d = (Inr x, d') \<Longrightarrow> P x) \<Longrightarrow> (\<And>x. P x \<Longrightarrow> keeps I (f x)) \<Longrightarrow>
     keeps I (bindD m f)"
  unfolding keeps_def bindD_Inr by blast

lemma keeps_run_stmt: "(\<And>d. I d \<Longrightarrow> schema_ok (f d) \<Longrightarrow> I (f d)) \<Longrightarrow> keeps I (run_stmt f)"
  by (auto simp: keeps_def dbm_simps)

lemma keeps_stmt_rows: "(\<And>d. I d \<Longrightarrow> schema_ok (f d) \<Longrightarrow> I (f d)) \<Longrightarrow> keeps I (stmt_rows n f)"
  by (auto simp: keeps_def dbm_simps)

text \<open>An operation that is atomic and keeps the invariant on success keeps it on failure as well.\<close>

lemma keeps_atomic: "keeps I m \<Longrightarrow> atomic m \<Longrightarrow> I d \<Longrightarrow> m d = (r, d') \<Longrightarrow> I d'"
  unfolding keeps_def atomic_def using I_same by (cases r) blast+

lemmas keeps_intros = keeps_bindD keeps_mapErrD keeps_with_tx keeps_foldD keeps_if keeps_prod
  keeps_prod2 keeps_option

end

lemma constraints_fresh [simp]: "constraints (d\<lparr>fresh := n\<rparr>) = constraints d"
  by (simp add: constraints_def foreign_keys_def)

interpretation schema: db_invariant schema_ok
  by unfold_locales (simp add: schema_ok_iff)

lemma keeps_schema_stmt [keep_rules]: "keeps schema_ok (run_stmt f)"
  by (auto simp: keeps_def dbm_simps)

lemma keeps_schema_rows [keep_rules]: "keeps schema_ok (stmt_rows n f)"
  by (auto simp: keeps_def dbm_simps)

section \<open>Facts about rows\<close>

lemma find_unique:
  "unique_by k rows \<Longrightarrow> r \<in> set rows \<Longrightarrow> find (\<lambda>r'. k r' = k r) rows = Some r"
  by (induction rows) (auto simp: unique_by_def)

lemma find_key_Some: "find (\<lambda>r. k r = v) rows = Some r \<Longrightarrow> r \<in> set rows \<and> k r = v"
  by (auto simp: find_Some_iff)

lemma unique_byD: "unique_by k rows \<Longrightarrow> r \<in> set rows \<Longrightarrow> r' \<in> set rows \<Longrightarrow> k r = k r' \<Longrightarrow> r = r'"
  by (auto simp: unique_by_def distinct_map dest: inj_onD)

lemma set_update_where: "set (update_where p f rows) = (\<lambda>r. if p r then f r else r) ` set rows"
  by (simp add: update_where_def)

lemma map_update_where:
  "(\<And>r. k (f r) = k r) \<Longrightarrow> map k (update_where p f rows) = map k rows"
  by (simp add: update_where_def)

lemma set_delete_where: "set (delete_where p rows) = {r \<in> set rows. \<not> p r}"
  by (auto simp: delete_where_def)

lemma top_id_ge: "q \<le> top_id q ids" "x \<in> set ids \<Longrightarrow> x \<le> top_id q ids"
  by (induction ids) (auto simp: top_id_def)

lemma next_ids_new:
  "next_epg d \<notin> ep_id ` set (t_epgs d)" "next_relay d \<notin> rl_id ` set (t_relays d)"
  "next_group d \<notin> gr_id ` set (t_groups d)" "next_member d \<notin> mb_id ` set (t_members d)"
  using top_id_ge(2) [of _ "map ep_id (t_epgs d)" "q_epgs d"]
    top_id_ge(2) [of _ "map rl_id (t_relays d)" "q_relays d"]
    top_id_ge(2) [of _ "map gr_id (t_groups d)" "q_groups d"]
    top_id_ge(2) [of _ "map mb_id (t_members d)" "q_members d"]
  by (fastforce simp: next_epg_def next_relay_def next_group_def next_member_def)+

text \<open>Sorting by a key is the library's \<^const>\<open>sort_key\<close>.\<close>

lemma insert_by_key: "insert_by (\<lambda>a b. f a < f b) x ys = insort_key f x ys"
  by (induction ys) auto

lemma stable_sort_key: "stable_sort (\<lambda>a b. f a < f b) xs = sort_key f xs"
  by (induction xs) (simp_all add: stable_sort_def sort_key_def insert_by_key)

lemma sort_key_map: "sort_key f (map g xs) = map g (sort_key (\<lambda>x. f (g x)) xs)"
proof (induction xs)
  case (Cons x xs)
  have "insort_key f (g x) (map g ys) = map g (insort_key (\<lambda>x. f (g x)) x ys)" for ys
    by (induction ys) auto
  with Cons show ?case by simp
qed simp

lemma sort_key_cong: "(\<And>x. x \<in> set xs \<Longrightarrow> f x = g x) \<Longrightarrow> sort_key f xs = sort_key g xs"
proof (induction xs)
  case (Cons x xs)
  have "insort_key f x ys = insort_key g x ys" if "set ys \<subseteq> set xs" for ys
    using that Cons.prems by (induction ys) auto
  with Cons show ?case by simp
qed simp

lemma sort_key_unique:
  assumes "mset ys = mset xs" "sorted_wrt (\<lambda>a b. f a < f b) ys"
  shows "sort_key f xs = ys"
proof -
  have s: "sorted (map f ys)"
    using assms(2) by (simp add: sorted_wrt_map) (metis (mono_tags, lifting) less_imp_le sorted_wrt_mono_rel)
  have "distinct (map f ys)"
    using assms(2) by (induction ys) auto
  then have d: "distinct (map f ys)" "inj_on f (set ys)" by (simp_all add: distinct_map)
  have m: "mset (sort_key f xs) = mset ys" using assms(1) by simp
  then have "mset (map f (sort_key f xs)) = mset (map f ys)" by (metis mset_map)
  then have d': "distinct (map f (sort_key f xs))" using d(1) mset_eq_imp_distinct_iff by blast
  have st: "set (sort_key f xs) = set ys" using m by (metis set_mset_mset)
  then have "inj_on f (set (sort_key f xs) \<union> set ys)" using d(2) by simp
  from map_sorted_distinct_set_unique [OF this sorted_sort_key d' s d(1) st] show ?thesis .
qed

lemma unique_insort: "k r \<notin> k ` set rows \<Longrightarrow> unique_by k (insort_key f r rows) = unique_by k rows"
proof -
  assume r: "k r \<notin> k ` set rows"
  have "mset (map k (insort_key f r rows)) = mset (map k (r # rows))"
    by (simp add: mset_insort)
  then have "distinct (map k (insort_key f r rows)) = distinct (map k (r # rows))"
    by (rule mset_eq_imp_distinct_iff)
  with r show ?thesis by (simp add: unique_by_def)
qed

end
