(* ===== verification/StoreProxies.thy ===== *)
theory StoreProxies
  imports StoreModel Natsort
begin

text \<open>
  Proxies, \<^verbatim>\<open>internal/core/store/proxies.go\<close>: the API value with its servers, its normalisation
  (\<^verbatim>\<open>resolveProxySpec\<close>), and the operations on proxies alone.  \<^verbatim>\<open>UpdateProxy\<close>, which refreshes the
  channels behind a proxy, is in \<open>StoreProxyUpdate\<close>.  A Go slice that may be \<^verbatim>\<open>nil\<close> is an option.
  The Unicode case mapping of the natural order is the parameter \<open>low\<close>, as in \<open>Natsort\<close>.
\<close>

record proxy_server =
  srv_id :: string
  srv_url :: string

record proxy =
  prx_id :: string
  prx_name :: string
  prx_policy :: string
  prx_fixed :: string
  prx_servers :: "proxy_server list"
  prx_channels :: nat
  prx_created :: string
  prx_updated :: string

record proxy_input =
  pin_name :: string
  pin_policy :: string
  pin_fixed :: string
  pin_servers :: "proxy_server list option"

record proxy_spec =
  psp_name :: string
  psp_policy :: string
  psp_fixed :: string
  psp_servers :: "proxy_server list"

definition null_if_empty :: "string \<Rightarrow> string option" where
  "null_if_empty s = (if blank s then None else Some s)"

definition coalesce :: "string option \<Rightarrow> string" where
  "coalesce s = (case s of None \<Rightarrow> [] | Some x \<Rightarrow> x)"

section \<open>Reading\<close>

definition count_proxy_channels :: "string \<Rightarrow> db \<Rightarrow> nat" where
  "count_proxy_channels px d =
     length (remdups (map ur_channel (filter (\<lambda>u. ur_proxy u = Some px) (t_upstreams d))))"

definition scan_proxy :: "nat \<Rightarrow> proxy_row \<Rightarrow> proxy" where
  "scan_proxy n r = \<lparr> prx_id = px_id r, prx_name = px_name r, prx_policy = px_policy r,
     prx_fixed = coalesce (px_fixed r), prx_servers = [], prx_channels = n,
     prx_created = px_created r, prx_updated = px_updated r \<rparr>"

definition servers_of :: "db \<Rightarrow> string \<Rightarrow> proxy_server list" where
  "servers_of d px =
     map (\<lambda>s. \<lparr> srv_id = sv_id s, srv_url = sv_url s \<rparr>)
       (filter (\<lambda>s. sv_proxy s = px)
         (stable_sort (\<lambda>a b. (sv_proxy a, sv_sort a, sv_id a) < (sv_proxy b, sv_sort b, sv_id b))
           (t_servers d)))"

definition attach_proxy_servers :: "db \<Rightarrow> proxy list \<Rightarrow> proxy list" where
  "attach_proxy_servers d ps =
     map (\<lambda>p. let srvs = servers_of d (prx_id p) in
        p\<lparr>prx_servers := srvs,
          prx_fixed := (if prx_fixed p = [] \<and> srvs \<noteq> [] then srv_id (hd srvs) else prx_fixed p)\<rparr>) ps"

definition list_proxies :: "(nat \<Rightarrow> nat) \<Rightarrow> db \<Rightarrow> proxy list" where
  "list_proxies low d =
     stable_sort (\<lambda>a b. natural_less low (prx_name a) (prx_name b))
       (attach_proxy_servers d (map (\<lambda>r. scan_proxy (count_proxy_channels (px_id r) d) r) (t_proxies d)))"

definition proxy_of_row :: "db \<Rightarrow> proxy_row option \<Rightarrow> store_err + proxy" where
  "proxy_of_row d row = (case row of
       None \<Rightarrow> Inl ErrNotFound
     | Some r \<Rightarrow> Inr (hd (attach_proxy_servers d [scan_proxy (count_proxy_channels (px_id r) d) r])))"

definition find_proxy_by_name :: "string \<Rightarrow> proxy dbm" where
  "find_proxy_by_name name =
     (let n = trim_space name in
      if n = [] then failD ErrNotFound
      else (\<lambda>d. liftD (proxy_of_row d (find (\<lambda>r. to_lower (px_name r) = to_lower n) (t_proxies d))) d))"

definition get_proxy :: "string \<Rightarrow> proxy dbm" where
  "get_proxy i =
     (let i' = trim_space i in
      if i' = [] then failD ErrNotFound
      else (\<lambda>d. liftD (proxy_of_row d (find (\<lambda>r. px_id r = i') (t_proxies d))) d))"

text \<open>\<^verbatim>\<open>loadProxyMapTx\<close>: the wanted proxies by id; their channel count is not read.\<close>

definition load_proxy_map :: "db \<Rightarrow> string list \<Rightarrow> string \<Rightarrow> proxy option" where
  "load_proxy_map d ids = (\<lambda>k.
     if k \<in> set ids then
       find (\<lambda>p. prx_id p = k)
         (attach_proxy_servers d (map (scan_proxy 0) (filter (\<lambda>r. px_id r \<in> set ids) (t_proxies d))))
     else None)"

definition snapshot_proxy :: "proxy \<Rightarrow> proxy_ref" where
  "snapshot_proxy p =
     \<lparr> pr_policy = prx_policy p, pr_servers = map srv_url (prx_servers p),
       pr_fixed_index = foldl (\<lambda>acc (i, s).
          if prx_fixed p \<noteq> [] \<and> srv_id s = prx_fixed p then int i else acc) 0
          (enumerate 0 (prx_servers p)) \<rparr>"

section \<open>Normalisation\<close>

definition http_url :: "string \<Rightarrow> bool" where
  "http_url raw = (case url_parse raw of
       None \<Rightarrow> False
     | Some u \<Rightarrow> (u_scheme u = ''http'' \<or> u_scheme u = ''https'') \<and> u_host u \<noteq> [])"

text \<open>The id of a row: the given one, or a new one if it is blank or taken.\<close>

definition pick_id :: "(nat \<Rightarrow> string) \<Rightarrow> string \<Rightarrow> string list \<Rightarrow> string dbm" where
  "pick_id uuid raw used =
     bindD (if blank raw then new_uuid uuid else okD (trim_space raw)) (\<lambda>i.
     if i \<in> set used then new_uuid uuid else okD i)"

definition normalize_proxy_server ::
    "(nat \<Rightarrow> string) \<Rightarrow> proxy_server \<Rightarrow> string list \<Rightarrow> proxy_server dbm" where
  "normalize_proxy_server uuid s used =
     (let raw = trim_space (srv_url s) in
      bindD (guardD (http_url raw) (ErrValidation ''server url must be http(s)'')) (\<lambda>_.
      bindD (pick_id uuid (srv_id s) used) (\<lambda>i.
      okD \<lparr> srv_id = i, srv_url = raw \<rparr>)))"

text \<open>The servers read so far; their ids are \<^verbatim>\<open>usedID\<close>, their URLs \<^verbatim>\<open>seen\<close>.\<close>

definition add_server :: "(nat \<Rightarrow> string) \<Rightarrow> proxy_server list \<Rightarrow> proxy_server \<Rightarrow> proxy_server list dbm" where
  "add_server uuid out s =
     bindD (normalize_proxy_server uuid s (map srv_id out)) (\<lambda>item.
     bindD (guardD (srv_url item \<notin> set (map srv_url out)) (ErrValidation ''duplicate server url'')) (\<lambda>_.
     okD (out @ [item])))"

definition resolve_proxy_spec ::
    "(nat \<Rightarrow> string) \<Rightarrow> proxy_input \<Rightarrow> proxy option \<Rightarrow> proxy_spec dbm" where
  "resolve_proxy_spec uuid inp existing =
     (let name = trim_space (pin_name inp);
          raw = (case pin_servers inp of
              Some s \<Rightarrow> s
            | None \<Rightarrow> (case existing of None \<Rightarrow> [] | Some p \<Rightarrow> prx_servers p));
          fixed0 = trim_space (pin_fixed inp);
          fixed1 = (case existing of
              Some p \<Rightarrow> if fixed0 = [] then trim_space (prx_fixed p) else fixed0
            | None \<Rightarrow> fixed0) in
      bindD (guardD (name \<noteq> []) (ErrValidation ''name is required'')) (\<lambda>_.
      bindD (liftD (map_sum ErrValidation id (parse_proxy_policy (pin_policy inp)))) (\<lambda>policy.
      bindD (guardD (raw \<noteq> []) (ErrValidation ''at least one server is required'')) (\<lambda>_.
      bindD (foldD (add_server uuid) [] raw) (\<lambda>out.
      okD \<lparr> psp_name = name, psp_policy = policy,
            psp_fixed = (if fixed1 \<in> set (map srv_id out) then fixed1 else srv_id (hd out)),
            psp_servers = out \<rparr>)))))"

section \<open>Writing\<close>

definition proxy_conflict :: "store_err \<Rightarrow> store_err" where
  "proxy_conflict e = on_unique (ErrConflict ''name already exists'') e"

definition insert_proxy_servers :: "string \<Rightarrow> proxy_spec \<Rightarrow> unit dbm" where
  "insert_proxy_servers px spec =
     foldD (\<lambda>_ (i, s). run_stmt (ins_server \<lparr> sv_id = srv_id s, sv_proxy = px, sv_url = srv_url s,
         sv_sort = int i \<rparr>)) () (enumerate 0 (psp_servers spec))"

text \<open>The \<^verbatim>\<open>INSERT INTO proxies\<close> that creating, and restoring, a proxy share.\<close>

definition insert_proxy_row :: "string \<Rightarrow> proxy_spec \<Rightarrow> string \<Rightarrow> unit dbm" where
  "insert_proxy_row i spec now =
     mapErrD proxy_conflict (run_stmt (ins_proxy \<lparr> px_id = i, px_name = psp_name spec,
       px_policy = psp_policy spec, px_fixed = null_if_empty (psp_fixed spec),
       px_created = now, px_updated = now \<rparr>))"

definition create_proxy_tx :: "(nat \<Rightarrow> string) \<Rightarrow> string \<Rightarrow> proxy_input \<Rightarrow> string dbm" where
  "create_proxy_tx uuid now inp =
     bindD (resolve_proxy_spec uuid inp None) (\<lambda>spec.
     bindD (new_uuid uuid) (\<lambda>i.
     bindD (insert_proxy_row i spec now) (\<lambda>_.
     bindD (insert_proxy_servers i spec) (\<lambda>_. okD i))))"

definition create_proxy :: "(nat \<Rightarrow> string) \<Rightarrow> string \<Rightarrow> proxy_input \<Rightarrow> proxy dbm" where
  "create_proxy uuid now inp = bindD (with_tx (create_proxy_tx uuid now inp)) get_proxy"

definition delete_proxy :: "string \<Rightarrow> unit dbm" where
  "delete_proxy i =
     (let i' = trim_space i in
      bindD (guardD (i' \<noteq> []) ErrNotFound) (\<lambda>_.
      bindD (queryD (count_proxy_channels i')) (\<lambda>n.
      bindD (guardD (n = 0) (ErrConflict (''proxy used by '' @ show_nat n @ '' channel(s)''))) (\<lambda>_.
      bindD (stmt_rows (\<lambda>d. length (filter (\<lambda>r. px_id r = i') (t_proxies d)))
               (del_proxies (\<lambda>r. px_id r = i'))) (\<lambda>k.
      guardD (k \<noteq> 0) ErrNotFound)))))"

section \<open>Facts\<close>

lemma ro_pick_id [ro_rules]: "read_only (pick_id uuid raw used)"
  by (simp add: pick_id_def ro_rules)

lemma ro_normalize_proxy_server [ro_rules]: "read_only (normalize_proxy_server uuid s used)"
  by (simp add: normalize_proxy_server_def Let_def ro_rules)

lemma ro_add_server [ro_rules]: "read_only (add_server uuid out s)"
  by (simp add: add_server_def ro_rules)

lemma ro_resolve_proxy_spec [ro_rules]: "read_only (resolve_proxy_spec uuid inp ex)"
  by (simp add: resolve_proxy_spec_def Let_def ro_rules)

lemma ro_get_proxy [ro_rules]: "read_only (get_proxy i)"
  by (auto simp: get_proxy_def read_only_def Let_def liftD_def failD_def)

lemma ro_find_proxy [ro_rules]: "read_only (find_proxy_by_name i)"
  by (auto simp: find_proxy_by_name_def read_only_def Let_def liftD_def failD_def)

lemma snapshot_fixed_index:
  "pr_fixed_index (snapshot_proxy p) = 0 \<or>
   (\<exists>i < length (prx_servers p). pr_fixed_index (snapshot_proxy p) = int i)"
proof -
  have "foldl (\<lambda>acc (i, s). if f s then int i else acc) z (enumerate n xs) \<in>
      insert z (int ` {n..<n + length xs})" for f :: "proxy_server \<Rightarrow> bool" and z n xs
    by (induction xs arbitrary: n z) fastforce+
  from this [of "\<lambda>s. prx_fixed p \<noteq> [] \<and> srv_id s = prx_fixed p" 0 0 "prx_servers p"]
  show ?thesis by (auto simp: snapshot_proxy_def)
qed

end
