(* ===== verification/StoreChannels.thy ===== *)
theory StoreChannels
  imports StoreProxies
begin

text \<open>
  Channels: \<^verbatim>\<open>internal/core/store/upstreams.go\<close>, the channel part of \<^verbatim>\<open>store.go\<close>, and
  \<^verbatim>\<open>insertChannelTx\<close> of \<^verbatim>\<open>import.go\<close>.  A row's proxy snapshot is a \<^typ>\<open>proxy_ref\<close>.  A header map is
  the list of its pairs in the order one iteration over the Go map visits them.
\<close>

record channel_upstream =
  cu_id :: string
  cu_url :: string
  cu_proxy_id :: string
  cu_headers :: headers
  cu_proxy :: "proxy_ref option"

record channel =
  ch_id :: string
  ch_name :: string
  ch_logo :: string
  ch_url :: string
  ch_upstreams :: "channel_upstream list"
  ch_policy :: string
  ch_fixed :: string
  ch_headers :: headers
  ch_transcode :: bool
  ch_epg :: "int option"
  ch_tvg :: string
  ch_created :: string
  ch_updated :: string
  ch_slugs :: "string list"

record channel_input =
  cin_name :: string
  cin_logo :: string
  cin_url :: string
  cin_upstreams :: "channel_upstream list option"
  cin_policy :: string
  cin_fixed :: string
  cin_headers :: "headers option"
  cin_transcode :: "bool option"
  cin_epg :: "int option"
  cin_tvg :: "string option"

record channel_spec =
  csp_upstreams :: "channel_upstream list"
  csp_policy :: string
  csp_fixed :: string
  csp_primary :: string

text \<open>\<^verbatim>\<open>time.Time{}\<close>.\<close>

definition zero_time :: string where
  "zero_time = ''0001-01-01T00:00:00Z''"

section \<open>Headers\<close>

definition normalize_headers :: "headers \<Rightarrow> headers" where
  "normalize_headers h =
     foldl (\<lambda>out (k, v). if blank k then out else aput (trim_space k) v out) [] h"

definition merge_headers :: "headers \<Rightarrow> headers \<Rightarrow> headers" where
  "merge_headers base overlay =
     foldl (\<lambda>out (k, v). aput k v out) (normalize_headers base) (normalize_headers overlay)"

definition bad_header_bytes :: "string \<Rightarrow> bool" where
  "bad_header_bytes s \<longleftrightarrow> CHR 0x0D \<in> set s \<or> CHR 0x0A \<in> set s \<or> CHR 0x00 \<in> set s"

fun validate_header_map :: "headers \<Rightarrow> store_err + unit" where
  "validate_header_map [] = Inr ()"
| "validate_header_map ((k, v) # h) =
     (if blank k then Inl (ErrValidation ''header names must be non-empty'')
      else if bad_header_bytes k \<or> bad_header_bytes v
        then Inl (ErrValidation ''header names and values must not contain CR, LF, or NUL'')
      else validate_header_map h)"

text \<open>A missing key of the second map reads as the empty string.\<close>

definition header_maps_equal :: "headers \<Rightarrow> headers \<Rightarrow> bool" where
  "header_maps_equal a b =
     (let an = normalize_headers a; bn = normalize_headers b in
      length an = length bn \<and> list_all (\<lambda>(k, v). coalesce (map_of bn k) = v) an)"

section \<open>Upstream rows\<close>

definition proxy_ref_of :: "channel_upstream \<Rightarrow> proxy_ref option" where
  "proxy_ref_of u = (if cu_proxy_id u = [] then None else cu_proxy u)"

definition row_primary :: "channel_upstream \<Rightarrow> string" where
  "row_primary u = stable_primary (cu_url u) (proxy_ref_of u)"

definition row_candidates :: "(nat \<Rightarrow> nat) \<Rightarrow> channel_upstream \<Rightarrow> string list" where
  "row_candidates roll u = resolve roll (cu_url u) (proxy_ref_of u)"

text \<open>\<^verbatim>\<open>resolvedForDedupe\<close>: only the failover branch of \<^verbatim>\<open>Resolve\<close> is reached, which never rolls.\<close>

definition resolved_for_dedupe :: "channel_upstream \<Rightarrow> string list" where
  "resolved_for_dedupe u = (case proxy_ref_of u of
       Some p \<Rightarrow> if pr_policy p = policy_failover then resolve (\<lambda>_. 0) (cu_url u) (Some p)
                 else [row_primary u]
     | None \<Rightarrow> [row_primary u])"

definition upstream_by_id :: "channel \<Rightarrow> string \<Rightarrow> channel_upstream option" where
  "upstream_by_id c i =
     (if blank i then None else find (\<lambda>u. cu_id u = trim_space i) (ch_upstreams c))"

definition url_row :: "string \<Rightarrow> channel_upstream" where
  "url_row u = \<lparr> cu_id = [], cu_url = u, cu_proxy_id = [], cu_headers = [], cu_proxy = None \<rparr>"

definition primary_upstream :: "channel \<Rightarrow> channel_upstream" where
  "primary_upstream c =
     (let first = (if ch_upstreams c \<noteq> [] then hd (ch_upstreams c) else url_row (ch_url c)) in
      if ch_policy c = policy_fixed \<and> ch_fixed c \<noteq> [] then
        (case upstream_by_id c (ch_fixed c) of Some u \<Rightarrow> u | None \<Rightarrow> first)
      else first)"

definition select_upstream :: "(nat \<Rightarrow> nat) \<Rightarrow> channel \<Rightarrow> string \<Rightarrow> store_err + channel_upstream" where
  "select_upstream roll c uid =
     (if \<not> blank uid then
        (case upstream_by_id c (trim_space uid) of
           None \<Rightarrow> Inl (ErrValidation ''unknown upstream_id'') | Some u \<Rightarrow> Inr u)
      else if parse_policy (ch_policy c) = Inr policy_random \<and> ch_upstreams c \<noteq> []
        then Inr (ch_upstreams c ! roll (length (ch_upstreams c)))
      else Inr (primary_upstream c))"

definition merged_headers :: "channel \<Rightarrow> channel_upstream \<Rightarrow> headers" where
  "merged_headers c u = merge_headers (ch_headers c) (cu_headers u)"

definition stream_source :: "(nat \<Rightarrow> nat) \<Rightarrow> channel \<Rightarrow> source" where
  "stream_source roll c =
     (let ups = (if ch_upstreams c = [] then [url_row (ch_url c)] else ch_upstreams c) in
      \<lparr> src_policy = (case parse_policy (ch_policy c) of Inl _ \<Rightarrow> policy_fixed | Inr p \<Rightarrow> p),
        src_upstreams = map (\<lambda>u. let cands = row_candidates roll u in
           \<lparr> up_id = cu_id u, up_url = (if cands \<noteq> [] then hd cands else cu_url u),
             up_headers = merged_headers c u, up_candidates = cands,
             up_transcode = False, up_revision = [] \<rparr>) ups,
        src_fixed_index = foldl (\<lambda>acc (i, u).
           if ch_fixed c \<noteq> [] \<and> cu_id u = ch_fixed c then int i else acc) 0 (enumerate 0 ups),
        src_transcode = ch_transcode c,
        src_revision = (if ch_updated c = zero_time then [] else ch_updated c) \<rparr>)"

definition channel_relay_invalidate :: "channel \<Rightarrow> channel \<Rightarrow> bool" where
  "channel_relay_invalidate old_ch new_ch \<longleftrightarrow>
     ch_transcode old_ch \<noteq> ch_transcode new_ch \<or>
     ch_policy old_ch \<noteq> ch_policy new_ch \<or> ch_fixed old_ch \<noteq> ch_fixed new_ch \<or>
     \<not> header_maps_equal (ch_headers old_ch) (ch_headers new_ch) \<or>
     length (ch_upstreams old_ch) \<noteq> length (ch_upstreams new_ch) \<or>
     list_ex (\<lambda>(u, v). cu_url u \<noteq> cu_url v \<or> cu_proxy_id u \<noteq> cu_proxy_id v \<or>
         \<not> header_maps_equal (cu_headers u) (cu_headers v))
       (zip (ch_upstreams old_ch) (ch_upstreams new_ch))"

section \<open>Resolving an input\<close>

definition normalize_channel_upstream ::
    "(nat \<Rightarrow> string) \<Rightarrow> channel_upstream \<Rightarrow> string list \<Rightarrow> channel_upstream dbm" where
  "normalize_channel_upstream uuid u used =
     (let raw = trim_space (cu_url u); px = trim_space (cu_proxy_id u);
          h = normalize_headers (cu_headers u) in
      bindD (if px = [] then guardD (http_url raw) (ErrValidation ''upstream url must be http(s)'')
             else guardD (valid_proxied_link raw)
                    (ErrValidation ''proxied upstream must be host:port (no scheme)'')) (\<lambda>_.
      bindD (liftD (validate_header_map h)) (\<lambda>_.
      bindD (pick_id uuid (cu_id u) used) (\<lambda>i.
      okD \<lparr> cu_id = i, cu_url = raw, cu_proxy_id = px, cu_headers = h, cu_proxy = None \<rparr>))))"

definition add_upstream ::
    "(nat \<Rightarrow> string) \<Rightarrow> channel_upstream list \<Rightarrow> channel_upstream \<Rightarrow> channel_upstream list dbm" where
  "add_upstream uuid out u =
     bindD (normalize_channel_upstream uuid u (map cu_id out)) (\<lambda>item.
     bindD (guardD ((cu_url item, cu_proxy_id item) \<notin> set (map (\<lambda>v. (cu_url v, cu_proxy_id v)) out))
              (ErrValidation ''duplicate upstream url'')) (\<lambda>_.
     okD (out @ [item])))"

fun attach_proxies ::
    "(string \<Rightarrow> proxy option) \<Rightarrow> channel_upstream list \<Rightarrow> store_err + channel_upstream list" where
  "attach_proxies m [] = Inr []"
| "attach_proxies m (u # us) =
     (if cu_proxy_id u = [] then map_sum id (\<lambda>r. u # r) (attach_proxies m us)
      else (case m (cu_proxy_id u) of
          None \<Rightarrow> Inl (ErrValidation ''unknown proxy_id'')
        | Some p \<Rightarrow> map_sum id (\<lambda>r. u\<lparr>cu_proxy := Some (snapshot_proxy p)\<rparr> # r) (attach_proxies m us)))"

definition wanted_proxies :: "channel_upstream list \<Rightarrow> string list" where
  "wanted_proxies us = remdups (filter (\<lambda>p. p \<noteq> []) (map cu_proxy_id us))"

definition resolve_channel_spec ::
    "(nat \<Rightarrow> string) \<Rightarrow> channel_input \<Rightarrow> channel option \<Rightarrow> channel_spec dbm" where
  "resolve_channel_spec uuid inp existing =
     (let praw = trim_space (cin_policy inp);
          praw' = (case existing of Some c \<Rightarrow> if praw = [] then ch_policy c else praw | None \<Rightarrow> praw);
          raw = (case cin_upstreams inp of
              Some us \<Rightarrow> us
            | None \<Rightarrow> (case existing of Some c \<Rightarrow> ch_upstreams c | None \<Rightarrow> [url_row (cin_url inp)]));
          fixed0 = trim_space (cin_fixed inp);
          fixed1 = (case existing of
              Some c \<Rightarrow> if fixed0 = [] then trim_space (ch_fixed c) else fixed0 | None \<Rightarrow> fixed0) in
      bindD (liftD (case parse_policy praw' of
          Inl _ \<Rightarrow> Inl (ErrValidation ''upstream_policy must be fixed, random, or failover'')
        | Inr p \<Rightarrow> Inr p)) (\<lambda>policy.
      bindD (guardD (raw \<noteq> []) (ErrValidation ''at least one upstream is required'')) (\<lambda>_.
      bindD (foldD (add_upstream uuid) [] raw) (\<lambda>out0.
      bindD (queryD (\<lambda>d. load_proxy_map d (wanted_proxies out0))) (\<lambda>m.
      bindD (liftD (attach_proxies m out0)) (\<lambda>out.
      bindD (guardD (distinct (concat (map resolved_for_dedupe out)))
               (ErrValidation ''duplicate resolved upstream url'')) (\<lambda>_.
      (let fid = (if fixed1 \<in> set (map cu_id out) then fixed1 else cu_id (hd out));
           prim = (if policy = policy_fixed
             then (case find (\<lambda>u. cu_id u = fid) out of Some u \<Rightarrow> u | None \<Rightarrow> hd out) else hd out) in
       okD \<lparr> csp_upstreams = out, csp_policy = policy, csp_fixed = fid,
             csp_primary = row_primary prim \<rparr>))))))))"

definition validate_channel_input :: "channel_input \<Rightarrow> store_err + unit" where
  "validate_channel_input inp =
     (if blank (cin_name inp) then Inl (ErrValidation ''name is required'')
      else let logo = trim_space (cin_logo inp) in
        if logo \<noteq> [] \<and> (case url_parse logo of None \<Rightarrow> True
             | Some u \<Rightarrow> u_scheme u \<noteq> ''http'' \<and> u_scheme u \<noteq> ''https'')
        then Inl (ErrValidation ''logo_url must be http(s)'')
        else validate_header_map (case cin_headers inp of None \<Rightarrow> [] | Some h \<Rightarrow> h))"

definition resolve_transcode_enabled :: "bool option \<Rightarrow> bool \<Rightarrow> bool" where
  "resolve_transcode_enabled inp existing = (case inp of None \<Rightarrow> existing | Some b \<Rightarrow> b)"

definition resolve_channel_epg ::
    "channel_input \<Rightarrow> channel option \<Rightarrow> store_err + int option \<times> string" where
  "resolve_channel_epg inp existing =
     (case (cin_epg inp, cin_tvg inp) of
        (None, None) \<Rightarrow>
          (case existing of Some c \<Rightarrow> Inr (ch_epg c, ch_tvg c) | None \<Rightarrow> Inr (None, []))
      | (e, t) \<Rightarrow>
          if e = None \<and> t = Some [] then Inr (None, [])
          else if e \<noteq> None \<and> t \<noteq> None \<and> \<not> blank (the t) \<and> 0 < the e
            then Inr (e, trim_space (the t))
          else Inl (ErrValidation ''epg_source_id and tvg_id must both be set or both be empty''))"

definition ensure_epg_source_exists :: "int option \<Rightarrow> unit dbm" where
  "ensure_epg_source_exists e = (case e of
       None \<Rightarrow> okD ()
     | Some i \<Rightarrow> (\<lambda>d. guardD (i \<in> set (map ep_id (t_epgs d))) (ErrValidation ''epg source not found'') d))"

text \<open>\<^verbatim>\<open>MappingKey\<close> and its two users.\<close>

definition mapping_key :: "int option \<Rightarrow> string \<Rightarrow> string" where
  "mapping_key e tvg = (case e of
       None \<Rightarrow> []
     | Some i \<Rightarrow> if blank tvg then [] else show_int i @ [CHR 0x00] @ trim_space tvg)"

definition has_mapping :: "int option \<Rightarrow> string \<Rightarrow> bool" where
  "has_mapping e tvg \<longleftrightarrow> mapping_key e tvg \<noteq> []"

definition channel_epg_key :: "channel \<Rightarrow> string" where
  "channel_epg_key c = mapping_key (ch_epg c) (ch_tvg c)"

section \<open>Reading\<close>

definition scan_channel :: "channel_row \<Rightarrow> channel" where
  "scan_channel r = \<lparr> ch_id = cr_id r, ch_name = cr_name r, ch_logo = cr_logo r, ch_url = cr_url r,
     ch_upstreams = [], ch_policy = [], ch_fixed = [], ch_headers = cr_headers r,
     ch_transcode = cr_transcode r, ch_epg = cr_epg r, ch_tvg = cr_tvg r,
     ch_created = cr_created r, ch_updated = cr_updated r, ch_slugs = [] \<rparr>"

definition scan_upstream :: "upstream_row \<Rightarrow> channel_upstream" where
  "scan_upstream u = \<lparr> cu_id = ur_id u, cu_url = ur_url u,
     cu_proxy_id = trim_space (coalesce (ur_proxy u)), cu_headers = ur_headers u, cu_proxy = None \<rparr>"

definition upstream_rows_of :: "db \<Rightarrow> string \<Rightarrow> upstream_row list" where
  "upstream_rows_of d ch =
     filter (\<lambda>u. ur_channel u = ch)
       (stable_sort (\<lambda>a b. (ur_channel a, ur_sort a, ur_id a) < (ur_channel b, ur_sort b, ur_id b))
         (t_upstreams d))"

definition upstreams_of :: "db \<Rightarrow> string \<Rightarrow> channel_upstream list" where
  "upstreams_of d ch =
     (let m = load_proxy_map d (wanted_proxies (map scan_upstream (t_upstreams d))) in
      map (\<lambda>u. case m (cu_proxy_id u) of None \<Rightarrow> u | Some p \<Rightarrow> u\<lparr>cu_proxy := Some (snapshot_proxy p)\<rparr>)
        (map scan_upstream (upstream_rows_of d ch)))"

definition attach_channel_upstreams :: "db \<Rightarrow> channel list \<Rightarrow> channel list" where
  "attach_channel_upstreams d cs =
     map (\<lambda>c. let row = find (\<lambda>r. cr_id r = ch_id c) (t_channels d);
                  policy = (case row of None \<Rightarrow> [] | Some r \<Rightarrow> cr_policy r);
                  fixed = (case row of None \<Rightarrow> [] | Some r \<Rightarrow> coalesce (cr_fixed r));
                  ups = upstreams_of d (ch_id c) in
        c\<lparr>ch_policy := (if policy = [] then policy_fixed else policy), ch_upstreams := ups,
          ch_fixed := (if fixed = [] \<and> ups \<noteq> [] then cu_id (hd ups) else fixed)\<rparr>) cs"

definition channel_relay_slugs :: "string \<Rightarrow> db \<Rightarrow> string list" where
  "channel_relay_slugs ch d =
     stable_sort (\<lambda>a b. a < b)
       [rl_slug r. r \<leftarrow> t_relays d, m \<leftarrow> t_members d, mb_relay m = rl_id r \<and> mb_channel m = ch]"

definition channel_relay_ids :: "string \<Rightarrow> db \<Rightarrow> int list" where
  "channel_relay_ids ch d =
     stable_sort (\<lambda>a b. a < b)
       [rl_id r. r \<leftarrow> t_relays d, m \<leftarrow> t_members d, mb_relay m = rl_id r \<and> mb_channel m = ch]"

definition attach_channel_relay_slugs :: "db \<Rightarrow> channel list \<Rightarrow> channel list" where
  "attach_channel_relay_slugs d cs =
     (let pairs = stable_sort (\<lambda>(_, s, i) (_, s', i'). (s, i) < (s', i'))
            [(mb_channel m, rl_slug r, rl_id r).
               m \<leftarrow> t_members d, r \<leftarrow> t_relays d, rl_id r = mb_relay m] in
      map (\<lambda>c. c\<lparr>ch_slugs := map (\<lambda>(_, s, _). s) (filter (\<lambda>(i, _, _). i = ch_id c) pairs)\<rparr>) cs)"

definition list_channels :: "(nat \<Rightarrow> nat) \<Rightarrow> db \<Rightarrow> channel list" where
  "list_channels low d =
     stable_sort (\<lambda>a b. natural_less low (ch_name a) (ch_name b))
       (attach_channel_upstreams d
         (attach_channel_relay_slugs d (map scan_channel (t_channels d))))"

definition get_channel :: "string \<Rightarrow> channel dbm" where
  "get_channel i =
     (let i' = trim_space i in
      if i' = [] then failD ErrNotFound
      else (\<lambda>d. case find (\<lambda>r. cr_id r = i') (t_channels d) of
          None \<Rightarrow> (Inl ErrNotFound, d)
        | Some r \<Rightarrow> (Inr (hd (attach_channel_upstreams d
            [(scan_channel r)\<lparr>ch_slugs := channel_relay_slugs i' d\<rparr>])), d)))"

section \<open>Writing\<close>

definition channel_conflict :: "store_err \<Rightarrow> store_err" where
  "channel_conflict e =
     (if is_unique_err e then
        (case e of ErrDb m \<Rightarrow>
           (let msg = to_lower m in
            if contains_str msg ''channels.name'' \<or> contains_str msg ''idx_channels_name''
              then ErrConflict ''name already exists''
            else if contains_str msg ''upstream_url'' \<or> contains_str msg ''channel_upstreams.url'' \<or>
                contains_str msg ''idx_channel_upstreams_direct_url''
              then ErrConflict ''upstream_url already exists''
            else ErrConflict ''channel already exists'')
         | _ \<Rightarrow> e)
      else e)"

definition insert_channel_upstreams :: "string \<Rightarrow> channel_spec \<Rightarrow> unit dbm" where
  "insert_channel_upstreams ch spec =
     foldD (\<lambda>_ (i, u). mapErrD channel_conflict (run_stmt (ins_upstream
         \<lparr> ur_id = cu_id u, ur_channel = ch, ur_url = cu_url u,
           ur_headers = normalize_headers (cu_headers u), ur_sort = int i,
           ur_proxy = null_if_empty (cu_proxy_id u) \<rparr>))) () (enumerate 0 (csp_upstreams spec))"

definition replace_channel_upstreams :: "string \<Rightarrow> channel_spec \<Rightarrow> unit dbm" where
  "replace_channel_upstreams ch spec =
     bindD (run_stmt (del_upstreams ch)) (\<lambda>_. insert_channel_upstreams ch spec)"

definition insert_channel_tx ::
    "(nat \<Rightarrow> string) \<Rightarrow> string \<Rightarrow> string \<Rightarrow> channel_input \<Rightarrow> channel dbm" where
  "insert_channel_tx uuid now i inp =
     bindD (liftD (validate_channel_input inp)) (\<lambda>_.
     bindD (resolve_channel_spec uuid inp None) (\<lambda>spec.
     bindD (liftD (resolve_channel_epg inp None)) (\<lambda>(epg, tvg).
     bindD (ensure_epg_source_exists epg) (\<lambda>_.
     bindD (mapErrD channel_conflict (run_stmt (ins_channel
       \<lparr> cr_id = i, cr_name = trim_space (cin_name inp), cr_logo = trim_space (cin_logo inp),
         cr_url = csp_primary spec,
         cr_headers = normalize_headers (case cin_headers inp of None \<Rightarrow> [] | Some h \<Rightarrow> h),
         cr_transcode = resolve_transcode_enabled (cin_transcode inp) False,
         cr_policy = csp_policy spec, cr_fixed = Some (csp_fixed spec), cr_epg = epg,
         cr_tvg = tvg, cr_created = now, cr_updated = now \<rparr>))) (\<lambda>_.
     bindD (insert_channel_upstreams i spec) (\<lambda>_.
     (\<lambda>d. liftD (case find (\<lambda>r. cr_id r = i) (t_channels d) of
         None \<Rightarrow> Inl ErrNotFound | Some r \<Rightarrow> Inr (scan_channel r)) d)))))))"

definition create_channel_tx :: "(nat \<Rightarrow> string) \<Rightarrow> string \<Rightarrow> channel_input \<Rightarrow> channel dbm" where
  "create_channel_tx uuid now inp = bindD (new_uuid uuid) (\<lambda>i. insert_channel_tx uuid now i inp)"

definition create_channel :: "(nat \<Rightarrow> string) \<Rightarrow> string \<Rightarrow> channel_input \<Rightarrow> channel dbm" where
  "create_channel uuid now inp =
     bindD (with_tx (create_channel_tx uuid now inp)) (\<lambda>c. get_channel (ch_id c))"

definition update_channel_tx ::
    "(nat \<Rightarrow> string) \<Rightarrow> string \<Rightarrow> string \<Rightarrow> channel_input \<Rightarrow> channel \<Rightarrow> headers \<Rightarrow> bool \<Rightarrow>
     int option \<Rightarrow> string \<Rightarrow> unit dbm" where
  "update_channel_tx uuid now i inp existing h transcode epg tvg =
     bindD (ensure_epg_source_exists epg) (\<lambda>_.
     bindD (resolve_channel_spec uuid inp (Some existing)) (\<lambda>spec.
     bindD (replace_channel_upstreams i spec) (\<lambda>_.
     mapErrD channel_conflict (run_stmt (upd_channel i (\<lambda>r. r\<lparr>
         cr_name := trim_space (cin_name inp), cr_logo := trim_space (cin_logo inp),
         cr_url := csp_primary spec, cr_headers := h, cr_transcode := transcode,
         cr_policy := csp_policy spec, cr_fixed := Some (csp_fixed spec), cr_epg := epg,
         cr_tvg := tvg, cr_updated := now\<rparr>))))))"

definition update_channel ::
    "(nat \<Rightarrow> string) \<Rightarrow> string \<Rightarrow> string \<Rightarrow> channel_input \<Rightarrow> channel dbm" where
  "update_channel uuid now i inp =
     bindD (get_channel i) (\<lambda>existing.
     bindD (liftD (validate_channel_input inp)) (\<lambda>_.
     bindD (liftD (resolve_channel_epg inp (Some existing))) (\<lambda>(epg, tvg).
     bindD (with_tx (update_channel_tx uuid now i inp existing
        (normalize_headers (case cin_headers inp of None \<Rightarrow> ch_headers existing | Some h \<Rightarrow> h))
        (resolve_transcode_enabled (cin_transcode inp) (ch_transcode existing)) epg tvg)) (\<lambda>_.
     get_channel i))))"

definition delete_channel :: "string \<Rightarrow> unit dbm" where
  "delete_channel i =
     bindD (queryD (channel_relay_slugs i)) (\<lambda>slugs.
     bindD (guardD (slugs = []) (ErrConflict (''channel used by relays: '' @ join_str '', '' slugs))) (\<lambda>_.
     bindD (stmt_rows (\<lambda>d. length (filter (\<lambda>r. cr_id r = i) (t_channels d)))
              (del_channels (\<lambda>r. cr_id r = i))) (\<lambda>k.
     guardD (k \<noteq> 0) ErrNotFound)))"

end
