(* ===== verification/StoreRelays.thy ===== *)
theory StoreRelays
  imports StoreChannels
begin

text \<open>
  Relays, \<^verbatim>\<open>internal/core/store/relays.go\<close> and the slug functions of \<^verbatim>\<open>store.go\<close>: a relay is a named
  lineup of groups, its memberships put channels into groups, and the channel numbers follow the
  order of the lineup.  A group list joined to memberships and channels is the list of triples the
  SQL join returns.
\<close>

section \<open>Slugs\<close>

lemma replace_all_shorter:
  assumes "length new < length old"
  shows "length (replace_all old new s) \<le> length s"
  using assms
proof (induction old new s rule: replace_all.induct)
  case (2 old new c cs)
  show ?case
  proof (cases "old \<noteq> [] \<and> prefix old (c # cs)")
    case True
    then have "length old \<le> Suc (length cs)" by (auto dest: prefix_length_le)
    then show ?thesis using True 2 by auto
  next
    case False
    then show ?thesis using 2 by auto
  qed
qed simp

lemma replace_all_less:
  assumes "sublist old s" "old \<noteq> []" "length new < length old"
  shows "length (replace_all old new s) < length s"
  using assms
proof (induction old new s rule: replace_all.induct)
  case (2 old new c cs)
  show ?case
  proof (cases "prefix old (c # cs)")
    case True
    then have "length old \<le> Suc (length cs)" by (auto dest: prefix_length_le)
    then show ?thesis
      using True 2(4,5) replace_all_shorter [of new old "drop (length old - 1) cs"] by auto
  next
    case False
    then have "sublist old cs" using 2(3) by (simp add: sublist_Cons_right)
    then show ?thesis using False 2 by simp
  qed
qed simp

function squeeze_hyphens :: "string \<Rightarrow> string" where
  "squeeze_hyphens s =
     (if contains_str s ''--'' then squeeze_hyphens (replace_all ''--'' ''-'' s) else s)"
  by auto
termination
  by (relation "measure length") (auto intro: replace_all_less)

declare squeeze_hyphens.simps [simp del]

definition normalize_slug :: "string \<Rightarrow> string" where
  "normalize_slug raw =
     trim_char CHR ''-'' (squeeze_hyphens
       (replace_all '' '' ''-'' (replace_all ''_'' ''-'' (trim_space (to_lower raw)))))"

definition slug_char :: "char \<Rightarrow> bool" where
  "slug_char c \<longleftrightarrow> is_digit_char c \<or> (let n = of_char c in (97::nat) \<le> n \<and> n \<le> 122)"

text \<open>\<^verbatim>\<open>slugRE\<close>: words of lower-case letters and digits, joined by single hyphens.\<close>

definition valid_slug :: "string \<Rightarrow> bool" where
  "valid_slug s \<longleftrightarrow> list_all (\<lambda>w. w \<noteq> [] \<and> list_all slug_char w) (split_byte CHR ''-'' s)"

definition validate_slug :: "string \<Rightarrow> store_err + unit" where
  "validate_slug s =
     (if valid_slug s then Inr ()
      else Inl (ErrValidation ''slug must be lowercase alphanumeric with hyphens''))"

section \<open>Values\<close>

record membership =
  ms_id :: int
  ms_relay :: int
  ms_group :: int
  ms_channel :: string
  ms_number :: int
  ms_epg :: "int option"
  ms_tvg :: string
  ms_sort :: int
  ms_channel_name :: string
  ms_logo :: string
  ms_url :: string
  ms_group_name :: string

record membership_input =
  min_channel :: string
  min_group :: int
  min_number :: int
  min_sort :: "int option"

record relay_detail =
  rd_relay :: relay_row
  rd_groups :: "group_row list"
  rd_members :: "membership list"

record layout_group =
  lg_id :: int
  lg_name :: string
  lg_members :: "int list"

record lineup_entry =
  le_member :: int
  le_channel :: string
  le_name :: string
  le_logo :: string
  le_url :: string
  le_headers :: headers
  le_number :: int
  le_tvg :: string
  le_group :: string
  le_epg :: "int option"

record epg_mapping =
  em_relay :: int
  em_slug :: string
  em_source :: int
  em_tvg :: string

section \<open>Reading\<close>

type_synonym joined = "member_row \<times> channel_row \<times> group_row"

definition joined_members :: "db \<Rightarrow> joined list" where
  "joined_members d =
     [(m, c, g). m \<leftarrow> t_members d, c \<leftarrow> t_channels d, cr_id c = mb_channel m,
        g \<leftarrow> t_groups d, gr_id g = mb_group m]"

text \<open>\<^verbatim>\<open>ORDER BY g.sort_order, m.sort_order, m.id\<close>.\<close>

definition lineup_key :: "member_row \<Rightarrow> group_row \<Rightarrow> int \<times> int \<times> int" where
  "lineup_key m g = (gr_sort g, mb_sort m, mb_id m)"

definition lineup_rows :: "db \<Rightarrow> int \<Rightarrow> joined list" where
  "lineup_rows d rid =
     stable_sort (\<lambda>(m, _, g) (m', _, g'). lineup_key m g < lineup_key m' g')
       (filter (\<lambda>(m, _, _). mb_relay m = rid) (joined_members d))"

definition scan_membership :: "joined \<Rightarrow> membership" where
  "scan_membership j = (case j of (m, c, g) \<Rightarrow>
     \<lparr> ms_id = mb_id m, ms_relay = mb_relay m, ms_group = mb_group m, ms_channel = mb_channel m,
       ms_number = mb_number m, ms_epg = cr_epg c, ms_tvg = cr_tvg c, ms_sort = mb_sort m,
       ms_channel_name = cr_name c, ms_logo = cr_logo c, ms_url = cr_url c,
       ms_group_name = gr_name g \<rparr>)"

definition list_relays :: "db \<Rightarrow> relay_row list" where
  "list_relays d = stable_sort (\<lambda>a b. to_lower (rl_name a) < to_lower (rl_name b)) (t_relays d)"

definition get_relay :: "int \<Rightarrow> relay_row dbm" where
  "get_relay i = (\<lambda>d. case find (\<lambda>r. rl_id r = i) (t_relays d) of
       None \<Rightarrow> (Inl ErrNotFound, d) | Some r \<Rightarrow> (Inr r, d))"

definition get_relay_by_slug :: "string \<Rightarrow> relay_row dbm" where
  "get_relay_by_slug slug = (\<lambda>d. case find (\<lambda>r. rl_slug r = normalize_slug slug) (t_relays d) of
       None \<Rightarrow> (Inl ErrNotFound, d) | Some r \<Rightarrow> (Inr r, d))"

definition list_relay_groups :: "int \<Rightarrow> db \<Rightarrow> group_row list" where
  "list_relay_groups rid d =
     stable_sort (\<lambda>a b. (gr_sort a, gr_id a) < (gr_sort b, gr_id b))
       (filter (\<lambda>g. gr_relay g = rid) (t_groups d))"

definition list_relay_memberships :: "int \<Rightarrow> db \<Rightarrow> membership list" where
  "list_relay_memberships rid d = map scan_membership (lineup_rows d rid)"

definition get_relay_detail :: "int \<Rightarrow> relay_detail dbm" where
  "get_relay_detail i =
     bindD (get_relay i) (\<lambda>r. queryD (\<lambda>d. \<lparr> rd_relay = r, rd_groups = list_relay_groups i d,
       rd_members = list_relay_memberships i d \<rparr>))"

definition get_membership :: "int \<Rightarrow> membership dbm" where
  "get_membership i = (\<lambda>d. case find (\<lambda>(m, _, _). mb_id m = i) (joined_members d) of
       None \<Rightarrow> (Inl ErrNotFound, d) | Some j \<Rightarrow> (Inr (scan_membership j), d))"

definition get_membership_in_relay :: "int \<Rightarrow> int \<Rightarrow> membership dbm" where
  "get_membership_in_relay rid i =
     bindD (get_membership i) (\<lambda>m. if ms_relay m \<noteq> rid then failD ErrNotFound else okD m)"

definition list_relay_lineup :: "string \<Rightarrow> (relay_row \<times> lineup_entry list) dbm" where
  "list_relay_lineup slug =
     bindD (get_relay_by_slug slug) (\<lambda>r. queryD (\<lambda>d.
       (r, map (\<lambda>(m, c, g). \<lparr> le_member = mb_id m, le_channel = mb_channel m, le_name = cr_name c,
             le_logo = cr_logo c, le_url = cr_url c, le_headers = cr_headers c,
             le_number = mb_number m, le_tvg = cr_tvg c, le_group = gr_name g, le_epg = cr_epg c \<rparr>)
         (lineup_rows d (rl_id r)))))"

definition list_all_relay_epg_mappings :: "db \<Rightarrow> epg_mapping list" where
  "list_all_relay_epg_mappings d =
     [\<lparr> em_relay = rl_id r, em_slug = rl_slug r, em_source = e, em_tvg = cr_tvg c \<rparr>.
        m \<leftarrow> t_members d, r \<leftarrow> t_relays d, rl_id r = mb_relay m,
        c \<leftarrow> t_channels d, cr_id c = mb_channel m,
        e \<leftarrow> (case cr_epg c of None \<Rightarrow> [] | Some e \<Rightarrow> [e]), cr_tvg c \<noteq> []]"

section \<open>Relays and groups\<close>

definition insert_relay_row :: "string \<Rightarrow> string \<Rightarrow> string \<Rightarrow> int dbm" where
  "insert_relay_row name slug now =
     bindD (queryD next_relay) (\<lambda>i.
     bindD (mapErrD (on_unique (ErrConflict ''slug already exists''))
        (run_stmt (ins_relay \<lparr> rl_id = i, rl_name = name, rl_slug = slug, rl_created = now,
           rl_updated = now \<rparr>))) (\<lambda>_.
     okD i))"

definition insert_group_row :: "int \<Rightarrow> string \<Rightarrow> int \<Rightarrow> int dbm" where
  "insert_group_row rid name ord =
     bindD (queryD next_group) (\<lambda>i.
     bindD (run_stmt (ins_group \<lparr> gr_id = i, gr_relay = rid, gr_name = name, gr_sort = ord \<rparr>)) (\<lambda>_.
     okD i))"

definition create_relay :: "string \<Rightarrow> string \<Rightarrow> string \<Rightarrow> relay_row dbm" where
  "create_relay now raw_name raw_slug =
     (let name = trim_space raw_name;
          slug0 = normalize_slug raw_slug;
          slug = (if slug0 = [] then normalize_slug name else slug0) in
      bindD (guardD (name \<noteq> []) (ErrValidation ''name is required'')) (\<lambda>_.
      bindD (liftD (validate_slug slug)) (\<lambda>_.
      bindD (with_tx (bindD (insert_relay_row name slug now) (\<lambda>i.
               bindD (insert_group_row i ''Channels'' 0) (\<lambda>_. okD i)))) get_relay)))"

definition update_relay :: "string \<Rightarrow> int \<Rightarrow> string \<Rightarrow> string \<Rightarrow> relay_row dbm" where
  "update_relay now i raw_name raw_slug =
     (let name = trim_space raw_name; slug = normalize_slug raw_slug in
      bindD (get_relay i) (\<lambda>_.
      bindD (guardD (name \<noteq> []) (ErrValidation ''name is required'')) (\<lambda>_.
      bindD (liftD (validate_slug slug)) (\<lambda>_.
      bindD (mapErrD (on_unique (ErrConflict ''slug already exists''))
        (run_stmt (upd_relay i (\<lambda>r. r\<lparr>rl_name := name, rl_slug := slug, rl_updated := now\<rparr>)))) (\<lambda>_.
      get_relay i)))))"

definition delete_relay :: "int \<Rightarrow> unit dbm" where
  "delete_relay i =
     bindD (stmt_rows (\<lambda>d. length (filter (\<lambda>r. rl_id r = i) (t_relays d)))
              (del_relays (\<lambda>r. rl_id r = i))) (\<lambda>k.
     guardD (k \<noteq> 0) ErrNotFound)"

text \<open>\<^verbatim>\<open>SELECT MAX(sort_order)\<close> plus one, or 0.\<close>

definition next_ord :: "int list \<Rightarrow> int" where
  "next_ord ords = (case ords of [] \<Rightarrow> 0 | x # xs \<Rightarrow> foldl max x xs + 1)"

definition group_ords :: "int \<Rightarrow> db \<Rightarrow> int list" where
  "group_ords rid d = map gr_sort (filter (\<lambda>g. gr_relay g = rid) (t_groups d))"

definition create_relay_group :: "int \<Rightarrow> string \<Rightarrow> group_row dbm" where
  "create_relay_group rid raw =
     (let name = trim_space raw in
      bindD (get_relay rid) (\<lambda>_.
      bindD (guardD (name \<noteq> []) (ErrValidation ''group name is required'')) (\<lambda>_.
      bindD (queryD (\<lambda>d. next_ord (group_ords rid d))) (\<lambda>ord.
      bindD (insert_group_row rid name ord) (\<lambda>i.
      okD \<lparr> gr_id = i, gr_relay = rid, gr_name = name, gr_sort = ord \<rparr>)))))"

definition update_relay_group :: "int \<Rightarrow> int \<Rightarrow> string \<Rightarrow> group_row dbm" where
  "update_relay_group rid gid raw =
     (let name = trim_space raw; here = (\<lambda>g. gr_id g = gid \<and> gr_relay g = rid) in
      bindD (guardD (name \<noteq> []) (ErrValidation ''group name is required'')) (\<lambda>_.
      bindD (stmt_rows (\<lambda>d. length (filter here (t_groups d)))
               (upd_groups here (\<lambda>g. g\<lparr>gr_name := name\<rparr>))) (\<lambda>k.
      bindD (guardD (k \<noteq> 0) ErrNotFound) (\<lambda>_.
      (\<lambda>d. case find here (t_groups d) of
          None \<Rightarrow> (Inl ErrNotFound, d) | Some g \<Rightarrow> (Inr g, d))))))"

definition delete_relay_group :: "int \<Rightarrow> int \<Rightarrow> unit dbm" where
  "delete_relay_group rid gid =
     bindD (queryD (\<lambda>d. length (filter (\<lambda>m. mb_group m = gid \<and> mb_relay m = rid) (t_members d)))) (\<lambda>n.
     bindD (guardD (n = 0) (ErrConflict ''group still has channels'')) (\<lambda>_.
     bindD (stmt_rows (\<lambda>d. length (filter (\<lambda>g. gr_id g = gid \<and> gr_relay g = rid) (t_groups d)))
              (del_groups (\<lambda>g. gr_id g = gid \<and> gr_relay g = rid))) (\<lambda>k.
     guardD (k \<noteq> 0) ErrNotFound)))"

section \<open>Memberships\<close>

definition lineup_pairs :: "db \<Rightarrow> int \<Rightarrow> (member_row \<times> group_row) list" where
  "lineup_pairs d rid =
     stable_sort (\<lambda>(m, g) (m', g'). lineup_key m g < lineup_key m' g')
       [(m, g). m \<leftarrow> t_members d, mb_relay m = rid, g \<leftarrow> t_groups d, gr_id g = mb_group m]"

definition set_number :: "int \<Rightarrow> int \<Rightarrow> int \<Rightarrow> db \<Rightarrow> db" where
  "set_number rid i n =
     upd_members (\<lambda>m. mb_id m = i \<and> mb_relay m = rid) (\<lambda>m. m\<lparr>mb_number := n\<rparr>)"

definition renumber_relay_memberships :: "int \<Rightarrow> unit dbm" where
  "renumber_relay_memberships rid =
     bindD (queryD (\<lambda>d. map (\<lambda>(m, _). mb_id m) (lineup_pairs d rid))) (\<lambda>ids.
     foldD (\<lambda>_ (n, i). run_stmt (set_number rid i (int n))) () (enumerate 1 ids))"

definition validate_membership_input :: "int \<Rightarrow> membership_input \<Rightarrow> unit dbm" where
  "validate_membership_input rid inp = (\<lambda>d.
     bindD (guardD (\<not> blank (min_channel inp)) (ErrValidation ''channel_id is required'')) (\<lambda>_.
     bindD (guardD (0 < min_group inp) (ErrValidation ''group_id is required'')) (\<lambda>_.
     bindD (liftD (case find (\<lambda>g. gr_id g = min_group inp) (t_groups d) of
          None \<Rightarrow> Inl (ErrValidation ''group not found'')
        | Some g \<Rightarrow> if gr_relay g = rid then Inr ()
            else Inl (ErrValidation ''group does not belong to relay''))) (\<lambda>_.
     guardD (min_channel inp \<in> set (map cr_id (t_channels d)))
       (ErrValidation ''channel not found'')))) d)"

definition already_in_relay :: store_err where
  "already_in_relay = ErrConflict ''channel already in this relay''"

definition add_membership_tx :: "int \<Rightarrow> membership_input \<Rightarrow> membership dbm" where
  "add_membership_tx rid inp =
     bindD (validate_membership_input rid inp) (\<lambda>_.
     bindD (queryD (\<lambda>d. next_ord (map mb_sort (filter (\<lambda>m. mb_group m = min_group inp) (t_members d))))) (\<lambda>nxt.
     bindD (queryD next_member) (\<lambda>i.
     bindD (mapErrD (on_unique already_in_relay) (run_stmt (ins_member
        \<lparr> mb_id = i, mb_relay = rid, mb_group = min_group inp, mb_channel = min_channel inp,
          mb_number = 0, mb_sort = (case min_sort inp of Some o' \<Rightarrow> o' | None \<Rightarrow> nxt) \<rparr>))) (\<lambda>_.
     bindD (renumber_relay_memberships rid) (\<lambda>_.
     get_membership i)))))"

definition update_membership_tx :: "int \<Rightarrow> membership_input \<Rightarrow> membership dbm" where
  "update_membership_tx i inp =
     bindD (get_membership i) (\<lambda>existing.
     (let ch = (if blank (min_channel inp) then ms_channel existing else min_channel inp);
          gid = (if min_group inp = 0 then ms_group existing else min_group inp);
          ord = (case min_sort inp of Some o' \<Rightarrow> o' | None \<Rightarrow> ms_sort existing) in
      bindD (validate_membership_input (ms_relay existing)
               (inp\<lparr>min_channel := ch, min_group := gid\<rparr>)) (\<lambda>_.
      bindD (mapErrD (on_unique already_in_relay) (run_stmt (upd_members (\<lambda>m. mb_id m = i)
               (\<lambda>m. m\<lparr>mb_group := gid, mb_channel := ch, mb_sort := ord\<rparr>)))) (\<lambda>_.
      bindD (renumber_relay_memberships (ms_relay existing)) (\<lambda>_.
      get_membership i)))))"

definition delete_membership_tx :: "int \<Rightarrow> unit dbm" where
  "delete_membership_tx i =
     bindD (get_membership i) (\<lambda>existing.
     bindD (stmt_rows (\<lambda>d. length (filter (\<lambda>m. mb_id m = i) (t_members d)))
              (del_members (\<lambda>m. mb_id m = i))) (\<lambda>k.
     bindD (guardD (k \<noteq> 0) ErrNotFound) (\<lambda>_.
     renumber_relay_memberships (ms_relay existing))))"

definition add_membership :: "int \<Rightarrow> membership_input \<Rightarrow> membership dbm" where
  "add_membership rid inp = with_tx (add_membership_tx rid inp)"

definition update_membership :: "int \<Rightarrow> membership_input \<Rightarrow> membership dbm" where
  "update_membership i inp = with_tx (update_membership_tx i inp)"

definition delete_membership :: "int \<Rightarrow> unit dbm" where
  "delete_membership i = with_tx (delete_membership_tx i)"

section \<open>The layout\<close>

text \<open>The state of the loop: the groups and memberships seen, and the last channel number.\<close>

type_synonym layout_state = "int list \<times> int list \<times> int"

definition place_member :: "int \<Rightarrow> int list \<Rightarrow> int \<Rightarrow> layout_state \<Rightarrow> nat \<times> int \<Rightarrow> layout_state dbm" where
  "place_member rid members gid st x = (case (st, x) of ((gs, ms, no), (mi, mid)) \<Rightarrow>
     bindD (guardD (mid \<in> set members) (ErrValidation (''unknown membership '' @ show_int mid))) (\<lambda>_.
     bindD (guardD (mid \<notin> set ms) (ErrValidation (''duplicate membership '' @ show_int mid))) (\<lambda>_.
     bindD (run_stmt (upd_members (\<lambda>m. mb_id m = mid \<and> mb_relay m = rid)
        (\<lambda>m. m\<lparr>mb_group := gid, mb_sort := int mi, mb_number := no + 1\<rparr>))) (\<lambda>_.
     okD (gs, mid # ms, no + 1)))))"

definition place_group ::
    "int \<Rightarrow> int list \<Rightarrow> int list \<Rightarrow> layout_state \<Rightarrow> nat \<times> layout_group \<Rightarrow> layout_state dbm" where
  "place_group rid groups members st x = (case (st, x) of ((gs, ms, no), (gi, g)) \<Rightarrow>
     bindD (guardD (lg_id g \<in> set groups) (ErrValidation (''unknown group '' @ show_int (lg_id g)))) (\<lambda>_.
     bindD (guardD (lg_id g \<notin> set gs) (ErrValidation (''duplicate group '' @ show_int (lg_id g)))) (\<lambda>_.
     bindD (guardD (\<not> blank (lg_name g)) (ErrValidation ''group name is required'')) (\<lambda>_.
     bindD (run_stmt (upd_groups (\<lambda>r. gr_id r = lg_id g \<and> gr_relay r = rid)
        (\<lambda>r. r\<lparr>gr_name := trim_space (lg_name g), gr_sort := int gi\<rparr>))) (\<lambda>_.
     foldD (place_member rid members (lg_id g)) (lg_id g # gs, ms, no)
       (enumerate 0 (lg_members g)))))))"

definition replace_layout_tx :: "string \<Rightarrow> int \<Rightarrow> layout_group list \<Rightarrow> int list \<Rightarrow> int list \<Rightarrow> unit dbm" where
  "replace_layout_tx now rid layout groups members =
     bindD (guardD (length layout = length groups) (ErrValidation ''layout must include all groups'')) (\<lambda>_.
     bindD (foldD (place_group rid groups members) ([], [], 0) (enumerate 0 layout)) (\<lambda>(_, ms, _).
     bindD (guardD (length ms = length members)
              (ErrValidation ''layout must include all memberships'')) (\<lambda>_.
     run_stmt (upd_relay rid (\<lambda>r. r\<lparr>rl_updated := now\<rparr>)))))"

definition replace_relay_layout :: "string \<Rightarrow> int \<Rightarrow> layout_group list \<Rightarrow> relay_detail dbm" where
  "replace_relay_layout now rid layout =
     bindD (get_relay rid) (\<lambda>_.
     bindD (queryD (\<lambda>d. map gr_id (list_relay_groups rid d))) (\<lambda>groups.
     bindD (queryD (\<lambda>d. map ms_id (list_relay_memberships rid d))) (\<lambda>members.
     bindD (with_tx (replace_layout_tx now rid layout groups members)) (\<lambda>_.
     get_relay_detail rid))))"

end
