(* ===== verification/StoreLineup.thy ===== *)
theory StoreLineup
  imports StoreRelays
begin

text \<open>
  The lineup of a relay and its numbers: \<open>lineup\<close> is the specification of the order the SQL joins
  return, \<open>numbered\<close> says that the channel numbers count it from 1, and every membership operation
  re-establishes it.  \<^verbatim>\<open>ReplaceRelayLayout\<close> succeeds exactly on the permutations of the present
  groups and memberships, and then the lineup is the layout.
\<close>

section \<open>The lineup\<close>

definition group_at :: "db \<Rightarrow> int \<Rightarrow> group_row" where
  "group_at d i = the (find (\<lambda>g. gr_id g = i) (t_groups d))"

definition channel_at :: "db \<Rightarrow> string \<Rightarrow> channel_row" where
  "channel_at d i = the (find (\<lambda>c. cr_id c = i) (t_channels d))"

definition members_of :: "db \<Rightarrow> int \<Rightarrow> member_row list" where
  "members_of d rid = filter (\<lambda>m. mb_relay m = rid) (t_members d)"

definition member_key :: "db \<Rightarrow> member_row \<Rightarrow> int \<times> int \<times> int" where
  "member_key d m = (gr_sort (group_at d (mb_group m)), mb_sort m, mb_id m)"

definition lineup :: "db \<Rightarrow> int \<Rightarrow> member_row list" where
  "lineup d rid = sort_key (member_key d) (members_of d rid)"

definition numbered :: "db \<Rightarrow> int \<Rightarrow> bool" where
  "numbered d rid \<longleftrightarrow> map mb_number (lineup d rid) = [1..int (length (lineup d rid))]"

definition groups_ok :: "db \<Rightarrow> bool" where
  "groups_ok d \<longleftrightarrow> (\<forall>m \<in> set (t_members d). gr_relay (group_at d (mb_group m)) = mb_relay m)"

definition lineup_ok :: "db \<Rightarrow> bool" where
  "lineup_ok d \<longleftrightarrow> groups_ok d \<and> (\<forall>rid. numbered d rid)"

lemma set_lineup: "set (lineup d rid) = {m \<in> set (t_members d). mb_relay m = rid}"
  by (simp add: lineup_def members_of_def)

lemma filter_find:
  "unique_by k rows \<Longrightarrow> x \<in> k ` set rows \<Longrightarrow> filter (\<lambda>r. k r = x) rows = [the (find (\<lambda>r. k r = x) rows)]"
proof (induction rows)
  case (Cons r rows)
  show ?case
  proof (cases "k r = x")
    case True
    then have "filter (\<lambda>r. k r = x) rows = []"
      using Cons.prems(1) by (auto simp: unique_by_def filter_empty_conv image_iff)
    with True show ?thesis by simp
  next
    case False
    then show ?thesis using Cons by (auto simp: unique_by_def)
  qed
qed simp

lemma refers_map: "refers k rows k' ps = list_all (\<lambda>x. x \<in> k' ` set ps) (map k rows)"
  by (auto simp: refers_def list_all_iff)

lemma refers_null_map:
  "refers_null k rows k' ps =
     list_all (\<lambda>v. case v of None \<Rightarrow> True | Some x \<Rightarrow> x \<in> k' ` set ps) (map k rows)"
  by (simp add: refers_null_def list_all_iff cong: option.case_cong)

lemma schema_fk:
  assumes "schema_ok d" "m \<in> set (t_members d)"
  shows "mb_group m \<in> gr_id ` set (t_groups d)" "mb_channel m \<in> cr_id ` set (t_channels d)"
    "mb_relay m \<in> rl_id ` set (t_relays d)"
  using assms schema_okD(10) [OF assms(1)]
  by (auto simp: foreign_keys_def refers_map list_all_iff)

lemma concat_single:
  "concat (map (\<lambda>m. if p m then [f m] else []) ms) = map f (filter p ms)"
  by (induction ms) auto

lemma member_groups:
  assumes "schema_ok d" "m \<in> set (t_members d)"
  shows "filter (\<lambda>g. gr_id g = mb_group m) (t_groups d) = [group_at d (mb_group m)]"
  unfolding group_at_def
  using filter_find [OF schema_okD(7) [OF assms(1)] schema_fk(1) [OF assms]] .

lemma member_channels:
  assumes "schema_ok d" "m \<in> set (t_members d)"
  shows "filter (\<lambda>c. cr_id c = mb_channel m) (t_channels d) = [channel_at d (mb_channel m)]"
  unfolding channel_at_def
  using filter_find [OF schema_okD(2) [OF assms(1)] schema_fk(2) [OF assms]] .

lemma lineup_pairs_eq:
  assumes "schema_ok d"
  shows "lineup_pairs d rid = map (\<lambda>m. (m, group_at d (mb_group m))) (lineup d rid)"
proof -
  have row: "concat (map (\<lambda>g. if gr_id g = mb_group m then [(m, g)] else []) (t_groups d)) =
      [(m, group_at d (mb_group m))]" if "m \<in> set (t_members d)" for m
    using member_groups [OF assms that] by (simp add: concat_single)
  have raw: "[(m, g). m \<leftarrow> t_members d, mb_relay m = rid, g \<leftarrow> t_groups d, gr_id g = mb_group m] =
      map (\<lambda>m. (m, group_at d (mb_group m))) (members_of d rid)"
    unfolding members_of_def concat_single [symmetric]
    by (intro arg_cong [where f = concat] map_cong refl) (simp add: row)
  show ?thesis
    unfolding lineup_pairs_def raw lineup_def case_prod_beta
      stable_sort_key [where f = "\<lambda>x. lineup_key (fst x) (snd x)"]
    by (simp add: sort_key_map lineup_key_def member_key_def [abs_def])
qed

lemma joined_members_eq:
  assumes "schema_ok d"
  shows "joined_members d =
    map (\<lambda>m. (m, channel_at d (mb_channel m), group_at d (mb_group m))) (t_members d)"
proof -
  have row: "concat (map (\<lambda>c. if cr_id c = mb_channel m then
         concat (map (\<lambda>g. if gr_id g = mb_group m then [(m, c, g)] else []) (t_groups d)) else [])
       (t_channels d)) = [(m, channel_at d (mb_channel m), group_at d (mb_group m))]"
    if "m \<in> set (t_members d)" for m
    unfolding concat_single member_groups [OF assms that] list.map
    by (simp add: member_channels [OF assms that])
  have "joined_members d = concat (map (\<lambda>m. [(m, channel_at d (mb_channel m),
      group_at d (mb_group m))]) (t_members d))"
    unfolding joined_members_def
    by (intro arg_cong [where f = concat] map_cong refl) (simp add: row)
  then show ?thesis by (simp add: concat_map_singleton)
qed

lemma lineup_rows_eq:
  assumes "schema_ok d"
  shows "lineup_rows d rid =
    map (\<lambda>m. (m, channel_at d (mb_channel m), group_at d (mb_group m))) (lineup d rid)"
  unfolding lineup_rows_def joined_members_eq [OF assms] lineup_def case_prod_beta
      stable_sort_key [where f = "\<lambda>x. lineup_key (fst x) (snd (snd x))"]
    by (simp add: sort_key_map lineup_key_def member_key_def [abs_def] filter_map comp_def
        members_of_def)

lemma find_joined:
  "find (\<lambda>(m', _, _). mb_id m' = i) (map (\<lambda>m. (m, f m, g m)) ms) =
     map_option (\<lambda>m. (m, f m, g m)) (find (\<lambda>r. mb_id r = i) ms)"
  by (induction ms) auto

lemma find_member_row:
  assumes "schema_ok d" "m \<in> set (t_members d)"
  shows "get_membership (mb_id m) d =
    (Inr (scan_membership (m, channel_at d (mb_channel m), group_at d (mb_group m))), d)"
  using find_unique [OF schema_okD(8) [OF assms(1)] assms(2)]
  by (simp add: get_membership_def joined_members_eq [OF assms(1)] find_joined)

lemma get_membership_Inr:
  assumes "schema_ok d" "get_membership i d = (Inr e, d')"
  shows "d' = d \<and> (\<exists>m \<in> set (t_members d). mb_id m = i \<and>
    e = scan_membership (m, channel_at d (mb_channel m), group_at d (mb_group m)))"
  using assms(2) joined_members_eq [OF assms(1)]
  by (auto simp: get_membership_def find_Some_iff split: option.splits) (metis nth_mem)

section \<open>Renumbering\<close>

definition renum :: "int \<Rightarrow> (int \<Rightarrow> int option) \<Rightarrow> member_row \<Rightarrow> member_row" where
  "renum rid f m = (if mb_relay m = rid
     then (case f (mb_id m) of None \<Rightarrow> m | Some n \<Rightarrow> m\<lparr>mb_number := n\<rparr>) else m)"

lemma renum_fields [simp]:
  "mb_id (renum rid f m) = mb_id m" "mb_relay (renum rid f m) = mb_relay m"
  "mb_group (renum rid f m) = mb_group m" "mb_channel (renum rid f m) = mb_channel m"
  "mb_sort (renum rid f m) = mb_sort m"
  by (simp_all add: renum_def split: option.splits)

lemma refers_cong: "map k rows = map k rows' \<Longrightarrow> refers k rows k' ps = refers k rows' k' ps"
  by (simp only: refers_map)

lemma unique_cong: "map k rows = map k rows' \<Longrightarrow> unique_by k rows = unique_by k rows'"
  by (simp only: unique_by_def)

text \<open>Rewriting members without touching their keys and references keeps the schema.\<close>

lemma schema_members:
  assumes "schema_ok d"
    and "\<And>m. m \<in> set (t_members d) \<Longrightarrow> mb_id (f m) = mb_id m \<and> mb_relay (f m) = mb_relay m \<and>
      mb_group (f m) = mb_group m \<and> mb_channel (f m) = mb_channel m"
  shows "schema_ok (d\<lparr>t_members := map f (t_members d)\<rparr>)"
proof -
  have e: "map mb_id (map f (t_members d)) = map mb_id (t_members d)"
    "map mb_relay (map f (t_members d)) = map mb_relay (t_members d)"
    "map mb_group (map f (t_members d)) = map mb_group (t_members d)"
    "map mb_channel (map f (t_members d)) = map mb_channel (t_members d)"
    "map (\<lambda>r. (mb_relay r, mb_channel r)) (map f (t_members d)) =
       map (\<lambda>r. (mb_relay r, mb_channel r)) (t_members d)"
    using assms(2) by simp_all
  show ?thesis
    using assms(1) unfolding schema_ok_iff
    by (simp add: constraints_def foreign_keys_def unique_cong [OF e(1)] unique_cong [OF e(5)]
        refers_cong [OF e(2)] refers_cong [OF e(3)] refers_cong [OF e(4)])
qed

lemma set_number_eq:
  "set_number rid i n d = d\<lparr>t_members := map (renum rid [i \<mapsto> n]) (t_members d)\<rparr>"
  by (auto simp: set_number_def upd_members_def update_where_def renum_def intro!: db.fold_congs map_cong)

lemma fold_set_number:
  assumes "schema_ok d" "distinct (map snd ps)"
  shows "foldD (\<lambda>_ (n, i). run_stmt (set_number rid i (int n))) () ps d =
    (Inr (), d\<lparr>t_members := map (renum rid (map_of (map (\<lambda>(n, i). (i, int n)) ps))) (t_members d)\<rparr>)"
  using assms
proof (induction ps arbitrary: d)
  case Nil
  have "map (renum rid Map.empty) (t_members d) = t_members d"
    by (rule map_idI) (simp add: renum_def)
  then show ?case by (simp add: okD_def)
next
  case (Cons x ps)
  obtain n i where x: "x = (n, i)" by (cases x)
  let ?d = "set_number rid i (int n) d" and ?f = "map_of (map (\<lambda>(n, i). (i, int n)) ps)"
  have ok: "schema_ok ?d"
    unfolding set_number_eq by (rule schema_members [OF Cons.prems(1)]) simp
  have step: "run_stmt (set_number rid i (int n)) d = (Inr (), ?d)"
    by (simp add: run_stmt_Inr ok)
  have "?f i = None"
    using Cons.prems(2) x by (force simp: map_of_eq_None_iff)
  then have "renum rid ?f (renum rid [i \<mapsto> int n] m) = renum rid (?f(i \<mapsto> int n)) m" for m
    by (auto simp: renum_def split: option.splits)
  then have m: "map (renum rid ?f) (t_members ?d) = map (renum rid (?f(i \<mapsto> int n))) (t_members d)"
    by (simp add: set_number_eq)
  have "foldD (\<lambda>_ (n, i). run_stmt (set_number rid i (int n))) () (x # ps) d =
      (Inr (), ?d\<lparr>t_members := map (renum rid ?f) (t_members ?d)\<rparr>)"
    using Cons.IH [OF ok] Cons.prems(2) by (simp add: x bindD_def step)
  also have "?d\<lparr>t_members := map (renum rid ?f) (t_members ?d)\<rparr> =
      d\<lparr>t_members := map (renum rid (?f(i \<mapsto> int n))) (t_members d)\<rparr>"
    unfolding m by (simp add: set_number_eq)
  finally show ?case by (simp add: x fun_upd_def)
qed

definition renumbered :: "int \<Rightarrow> db \<Rightarrow> db" where
  "renumbered rid d = d\<lparr>t_members := map (renum rid (map_of (map (\<lambda>(n, i). (i, int n))
     (enumerate 1 (map mb_id (lineup d rid)))))) (t_members d)\<rparr>"

lemma lineup_ids_distinct: "schema_ok d \<Longrightarrow> distinct (map mb_id (lineup d rid))"
proof -
  assume "schema_ok d"
  then have "distinct (map mb_id (members_of d rid))"
    using schema_okD(8) by (simp add: unique_by_def members_of_def distinct_map_filter)
  moreover have "mset (map mb_id (lineup d rid)) = mset (map mb_id (members_of d rid))"
    by (simp add: lineup_def)
  ultimately show ?thesis using mset_eq_imp_distinct_iff by blast
qed

lemma renumber_eq:
  assumes "schema_ok d"
  shows "renumber_relay_memberships rid d = (Inr (), renumbered rid d)"
  using fold_set_number [OF assms, of "enumerate 1 (map mb_id (lineup d rid))" rid]
    lineup_ids_distinct [OF assms, of rid]
  by (simp add: renumber_relay_memberships_def bindD_def queryD_def lineup_pairs_eq [OF assms]
      comp_def renumbered_def)

lemma renumbered_schema: "schema_ok d \<Longrightarrow> schema_ok (renumbered rid d)"
  unfolding renumbered_def by (rule schema_members) simp_all

lemma renumbered_tables [simp]:
  "t_groups (renumbered rid d) = t_groups d" "t_channels (renumbered rid d) = t_channels d"
  "group_at (renumbered rid d) i = group_at d i" "channel_at (renumbered rid d) c = channel_at d c"
  by (simp_all add: renumbered_def group_at_def channel_at_def)

lemma lineup_renumbered:
  "lineup (renumbered rid d) rid' =
     map (renum rid (map_of (map (\<lambda>(n, i). (i, int n)) (enumerate 1 (map mb_id (lineup d rid))))))
       (lineup d rid')"
proof -
  let ?r = "renum rid (map_of (map (\<lambda>(n, i). (i, int n)) (enumerate 1 (map mb_id (lineup d rid)))))"
  have "members_of (renumbered rid d) rid' = map ?r (members_of d rid')"
    by (simp add: members_of_def renumbered_def filter_map comp_def)
  moreover have "member_key (renumbered rid d) (?r m) = member_key d m" for m
    by (simp add: member_key_def)
  ultimately show ?thesis by (simp add: lineup_def sort_key_map)
qed

lemma map_of_enumerate:
  "distinct ids \<Longrightarrow> map (map_of (map (\<lambda>(n, i). (i, int n)) (enumerate k ids))) ids =
     map (\<lambda>n. Some (int n)) [k..<k + length ids]"
proof (induction ids arbitrary: k)
  case (Cons i ids)
  let ?f = "map_of (map (\<lambda>(n, i). (i, int n)) (enumerate (Suc k) ids))"
  have f: "map_of (map (\<lambda>(n, i). (i, int n)) (enumerate k (i # ids))) = ?f(i \<mapsto> int k)"
    by simp
  have m: "map (?f(i \<mapsto> int k)) ids = map ?f ids"
    using Cons.prems by (intro map_cong refl) auto
  have u: "[k..<k + length (i # ids)] = k # [Suc k..<Suc k + length ids]"
    by (simp add: upt_conv_Cons del: upt_Suc)
  have "distinct ids" using Cons.prems by simp
  from Cons.IH [OF this] show ?case by (simp only: f u list.map m fun_upd_same)
qed simp

lemma upto_upt: "map int [1..<Suc n] = [1..int n]"
  by (induction n) (simp_all add: upto_rec2)

lemma renumbered_numbered:
  assumes "schema_ok d"
  shows "numbered (renumbered rid d) rid"
proof -
  let ?L = "lineup d rid" and ?ids = "map mb_id (lineup d rid)"
  let ?f = "map_of (map (\<lambda>(n, i). (i, int n)) (enumerate 1 ?ids))"
  have "map Some (map mb_number (map (renum rid ?f) ?L)) = map (\<lambda>m. ?f (mb_id m)) ?L"
  proof (unfold map_map, rule map_cong [OF refl])
    fix m assume m: "m \<in> set ?L"
    then have "?f (mb_id m) \<in> set (map (\<lambda>n. Some (int n)) [1..<1 + length ?ids])"
      unfolding map_of_enumerate [OF lineup_ids_distinct [OF assms], symmetric] by simp
    then obtain n where "?f (mb_id m) = Some n" by auto
    with m show "(Some \<circ> (mb_number \<circ> renum rid ?f)) m = ?f (mb_id m)"
      by (simp add: set_lineup renum_def)
  qed
  also have "\<dots> = map ?f ?ids" by simp
  also have "\<dots> = map Some (map int [1..<Suc (length ?ids)])"
    using map_of_enumerate [OF lineup_ids_distinct [OF assms], of 1 rid] by simp
  finally have "map mb_number (map (renum rid ?f) ?L) = map int [1..<Suc (length ?L)]"
    by (simp del: upt_Suc map_map add: inj_map_eq_map)
  then show ?thesis
    by (simp only: numbered_def lineup_renumbered length_map upto_upt)
qed

lemma renumbered_other:
  assumes "rid' \<noteq> rid"
  shows "numbered (renumbered rid d) rid' = numbered d rid'"
proof -
  have "map (renum rid f) (lineup d rid') = lineup d rid'" for f
    using assms by (intro map_idI) (auto simp: set_lineup renum_def)
  then show ?thesis by (simp add: numbered_def lineup_renumbered)
qed

section \<open>Memberships keep the numbers\<close>

text \<open>Before the numbers of relay \<open>rid\<close> are set again: everything else holds.\<close>

definition unnumbered :: "int \<Rightarrow> db \<Rightarrow> bool" where
  "unnumbered rid d \<longleftrightarrow> schema_ok d \<and> groups_ok d \<and> (\<forall>rid'. rid' \<noteq> rid \<longrightarrow> numbered d rid')"

definition store_inv :: "db \<Rightarrow> bool" where
  "store_inv d \<longleftrightarrow> schema_ok d \<and> lineup_ok d"

lemma renumber_restores:
  assumes "unnumbered rid d"
  shows "store_inv (renumbered rid d)"
proof -
  have "groups_ok (renumbered rid d)"
    using assms by (simp add: unnumbered_def groups_ok_def renumbered_def group_at_def)
  moreover have "numbered (renumbered rid d) rid'" for rid'
    using assms renumbered_numbered renumbered_other by (cases "rid' = rid") (auto simp: unnumbered_def)
  ultimately show ?thesis
    using assms renumbered_schema by (simp add: store_inv_def lineup_ok_def unnumbered_def)
qed

lemma renumber_step:
  "unnumbered rid d \<Longrightarrow> renumber_relay_memberships rid d = (Inr u, d') \<Longrightarrow>
     d' = renumbered rid d \<and> store_inv d'"
  using renumber_eq renumber_restores by (auto simp: unnumbered_def)

lemma numbered_frame:
  "members_of d' rid = members_of d rid \<Longrightarrow> t_groups d' = t_groups d \<Longrightarrow>
     numbered d' rid = numbered d rid"
  by (simp add: numbered_def lineup_def member_key_def [abs_def] group_at_def)

lemma ro_get_membership [ro_rules]: "read_only (get_membership i)"
  by (auto simp: get_membership_def read_only_def split: option.splits)

lemma validate_membership_Inr:
  assumes "schema_ok d" "validate_membership_input rid inp d = (Inr u, d')"
  shows "d' = d \<and> min_group inp \<in> gr_id ` set (t_groups d) \<and>
    gr_relay (group_at d (min_group inp)) = rid \<and> min_channel inp \<in> cr_id ` set (t_channels d)"
proof -
  obtain g where g: "find (\<lambda>g. gr_id g = min_group inp) (t_groups d) = Some g" "gr_relay g = rid"
    and d: "d' = d" "min_channel inp \<in> cr_id ` set (t_channels d)"
    using assms(2) by (auto simp: validate_membership_input_def dbm_simps split: option.splits if_splits)
  then show ?thesis
    using find_key_Some [OF g(1)] g by (metis group_at_def imageI option.sel)
qed

lemma add_unnumbered:
  assumes "store_inv d" "schema_ok (ins_member r d)" "mb_relay r = rid"
    "gr_relay (group_at d (mb_group r)) = rid"
  shows "unnumbered rid (ins_member r d)"
proof -
  have "numbered (ins_member r d) rid' = numbered d rid'" if "rid' \<noteq> rid" for rid'
    using that assms(3)
    by (intro numbered_frame) (simp_all add: members_of_def ins_member_def filter_insort_triv)
  moreover have "groups_ok (ins_member r d)"
    using assms by (auto simp: groups_ok_def store_inv_def lineup_ok_def ins_member_def
        set_insort_key group_at_def)
  ultimately show ?thesis
    using assms by (simp add: unnumbered_def store_inv_def lineup_ok_def)
qed

lemma store_inv_same: "same_db d d' \<Longrightarrow> store_inv d' = store_inv d"
  using same_dbD [of d d']
  by (simp add: store_inv_def schema_ok_iff constraints_def foreign_keys_def lineup_ok_def groups_ok_def
      group_at_def numbered_def lineup_def member_key_def [abs_def] members_of_def)

interpretation store: db_invariant store_inv
  by unfold_locales (rule store_inv_same, simp)

lemma keeps_add_membership: "keeps store_inv (add_membership_tx rid inp)"
  unfolding keeps_def
proof (intro allI impI)
  fix d x d' assume inv: "store_inv d" and run: "add_membership_tx rid inp d = (Inr x, d')"
  then have ok: "schema_ok d" by (simp add: store_inv_def)
  obtain r d1 d2 where v: "validate_membership_input rid inp d = (Inr (), d1)"
    and r: "mb_relay r = rid" "mb_group r = min_group inp"
    and s: "schema_ok (ins_member r d1)" "renumber_relay_memberships rid (ins_member r d1) = (Inr (), d2)"
    and g: "\<exists>i. get_membership i d2 = (Inr x, d')"
    using run by (force simp: add_membership_tx_def dbm_simps)
  have d1: "d1 = d" "gr_relay (group_at d (mb_group r)) = rid"
    using validate_membership_Inr [OF ok v] r by auto
  have "store_inv d2"
    using renumber_step [OF add_unnumbered [OF inv _ r(1) d1(2)]] s d1(1) by blast
  moreover have "same_db d2 d'"
    using g ro_get_membership by (auto simp: read_only_def)
  ultimately show "store_inv d'" using store_inv_same by blast
qed

lemma filter_update_where:
  "(\<And>r. r \<in> set rows \<Longrightarrow> p r \<Longrightarrow> \<not> q r \<and> \<not> q (f r)) \<Longrightarrow>
     filter q (update_where p f rows) = filter q rows"
  by (induction rows) (auto simp: update_where_def)

lemma filter_delete_where:
  "(\<And>r. r \<in> set rows \<Longrightarrow> p r \<Longrightarrow> \<not> q r) \<Longrightarrow> filter q (delete_where p rows) = filter q rows"
  by (induction rows) (auto simp: delete_where_def)

lemma update_unnumbered:
  assumes "store_inv d" "schema_ok (upd_members (\<lambda>r. mb_id r = mb_id m) f d)" "m \<in> set (t_members d)"
    "\<And>r. mb_relay (f r) = mb_relay r" "gr_relay (group_at d (mb_group (f m))) = mb_relay m"
  shows "unnumbered (mb_relay m) (upd_members (\<lambda>r. mb_id r = mb_id m) f d)"
proof -
  have one: "r = m" if "r \<in> set (t_members d)" "mb_id r = mb_id m" for r
    using unique_byD [OF schema_okD(8)] assms(1,3) that by (auto simp: store_inv_def)
  let ?d = "upd_members (\<lambda>r. mb_id r = mb_id m) f d"
  have "numbered ?d rid' = numbered d rid'" if "rid' \<noteq> mb_relay m" for rid'
    using that assms(4) one
    by (intro numbered_frame) (auto simp: members_of_def upd_members_def intro!: filter_update_where)
  moreover have "gr_relay (group_at ?d (mb_group r')) = mb_relay r'" if r': "r' \<in> set (t_members ?d)" for r'
  proof -
    have "r' \<in> (\<lambda>r. if mb_id r = mb_id m then f r else r) ` set (t_members d)"
      using r' by (simp add: upd_members_def set_update_where)
    then obtain r where r: "r \<in> set (t_members d)" "r' = (if mb_id r = mb_id m then f r else r)"
      by (rule imageE)
    have "gr_relay (group_at d (mb_group r)) = mb_relay r"
      using assms(1) r(1) by (simp add: store_inv_def lineup_ok_def groups_ok_def)
    then show ?thesis
      using r one [OF r(1)] assms(4,5) by (auto simp: group_at_def upd_members_def)
  qed
  then have "groups_ok ?d" by (simp add: groups_ok_def)
  ultimately show ?thesis
    using assms by (simp add: unnumbered_def store_inv_def lineup_ok_def)
qed

lemma delete_unnumbered:
  assumes "store_inv d" "schema_ok (del_members (\<lambda>r. mb_id r = mb_id m) d)" "m \<in> set (t_members d)"
  shows "unnumbered (mb_relay m) (del_members (\<lambda>r. mb_id r = mb_id m) d)"
proof -
  have one: "r = m" if "r \<in> set (t_members d)" "mb_id r = mb_id m" for r
    using unique_byD [OF schema_okD(8)] assms(1,3) that by (auto simp: store_inv_def)
  let ?d = "del_members (\<lambda>r. mb_id r = mb_id m) d"
  have "numbered ?d rid' = numbered d rid'" if "rid' \<noteq> mb_relay m" for rid'
    using that one
    by (intro numbered_frame) (auto simp: members_of_def del_members_def intro!: filter_delete_where)
  moreover have "groups_ok ?d"
    using assms(1)
    by (auto simp: groups_ok_def store_inv_def lineup_ok_def del_members_def set_delete_where group_at_def)
  ultimately show ?thesis
    using assms by (simp add: unnumbered_def store_inv_def lineup_ok_def)
qed

lemma keeps_update_membership: "keeps store_inv (update_membership_tx i inp)"
  unfolding keeps_def
proof (intro allI impI)
  fix d x d' assume inv: "store_inv d" and run: "update_membership_tx i inp d = (Inr x, d')"
  then have ok: "schema_ok d" by (simp add: store_inv_def)
  obtain e d1 where e: "get_membership i d = (Inr e, d1)"
    using run by (auto simp: update_membership_tx_def dbm_simps)
  obtain m where m: "m \<in> set (t_members d)" "mb_id m = i" "d1 = d" and me: "ms_relay e = mb_relay m"
    using get_membership_Inr [OF ok e] by (auto simp: scan_membership_def)
  let ?ch = "if blank (min_channel inp) then ms_channel e else min_channel inp"
  let ?gid = "if min_group inp = 0 then ms_group e else min_group inp"
  let ?ord = "case min_sort inp of Some o' \<Rightarrow> o' | None \<Rightarrow> ms_sort e"
  let ?f = "\<lambda>r. r\<lparr>mb_group := ?gid, mb_channel := ?ch, mb_sort := ?ord\<rparr>"
  have "get_membership i d = (Inr e, d)" using e m(3) by simp
  then obtain u u' d2 d3 where
      v: "validate_membership_input (mb_relay m) (inp\<lparr>min_channel := ?ch, min_group := ?gid\<rparr>) d = (Inr u, d2)"
    and s: "schema_ok (upd_members (\<lambda>r. mb_id r = i) ?f d2)"
      "renumber_relay_memberships (mb_relay m) (upd_members (\<lambda>r. mb_id r = i) ?f d2) = (Inr u', d3)"
    and g: "get_membership i d3 = (Inr x, d')"
    using run unfolding update_membership_tx_def Let_def bindD_Inr mapErrD_Inr run_stmt_Inr me [symmetric]
    by (auto simp only: prod.inject sum.inject)
  have d2: "d2 = d" "gr_relay (group_at d (mb_group (?f m))) = mb_relay m"
    using validate_membership_Inr [OF ok v] by auto
  have "unnumbered (mb_relay m) (upd_members (\<lambda>r. mb_id r = i) ?f d)"
    using update_unnumbered [where f = ?f, OF inv _ m(1) _ d2(2)] s(1) d2(1) m(2) by auto
  then have "store_inv d3" using renumber_step s(2) d2(1) by blast
  moreover have "same_db d3 d'"
    using g ro_get_membership by (auto simp: read_only_def)
  ultimately show "store_inv d'" using store_inv_same by blast
qed

lemma keeps_delete_membership: "keeps store_inv (delete_membership_tx i)"
  unfolding keeps_def
proof (intro allI impI)
  fix d x d' assume inv: "store_inv d" and run: "delete_membership_tx i d = (Inr x, d')"
  then have ok: "schema_ok d" by (simp add: store_inv_def)
  obtain e d1 where e: "get_membership i d = (Inr e, d1)"
    using run by (auto simp: delete_membership_tx_def dbm_simps)
  obtain m where m: "m \<in> set (t_members d)" "mb_id m = i" "d1 = d" and me: "ms_relay e = mb_relay m"
    using get_membership_Inr [OF ok e] by (auto simp: scan_membership_def)
  have s: "schema_ok (del_members (\<lambda>r. mb_id r = i) d)"
    "renumber_relay_memberships (mb_relay m) (del_members (\<lambda>r. mb_id r = i) d) = (Inr x, d')"
    using run e m(3) me by (auto simp: delete_membership_tx_def dbm_simps)
  then show "store_inv d'"
    using renumber_step [OF delete_unnumbered [OF inv _ m(1)]] m(2) by blast
qed

end
