(* ===== verification/StoreLayout.thy ===== *)
theory StoreLayout
  imports StoreLineup
begin

text \<open>
  \<^verbatim>\<open>ReplaceRelayLayout\<close>: it succeeds exactly on a permutation of the relay's groups and memberships,
  and the lineup is then the layout read from top to bottom.
\<close>

section \<open>What the loop writes\<close>

type_synonym placement = "int \<times> int \<times> int"

definition put_member :: "int \<Rightarrow> (int \<Rightarrow> placement option) \<Rightarrow> member_row \<Rightarrow> member_row" where
  "put_member rid P m = (if mb_relay m = rid then (case P (mb_id m) of None \<Rightarrow> m
     | Some (g, s, n) \<Rightarrow> m\<lparr>mb_group := g, mb_sort := s, mb_number := n\<rparr>) else m)"

definition put_group :: "int \<Rightarrow> (int \<Rightarrow> (string \<times> int) option) \<Rightarrow> group_row \<Rightarrow> group_row" where
  "put_group rid N g = (if gr_relay g = rid then (case N (gr_id g) of None \<Rightarrow> g
     | Some (nm, s) \<Rightarrow> g\<lparr>gr_name := nm, gr_sort := s\<rparr>) else g)"

definition laid :: "int \<Rightarrow> db \<Rightarrow> (int \<Rightarrow> placement option) \<Rightarrow> (int \<Rightarrow> (string \<times> int) option) \<Rightarrow> db" where
  "laid rid d P N = d\<lparr>t_members := map (put_member rid P) (t_members d),
     t_groups := map (put_group rid N) (t_groups d)\<rparr>"

fun member_places :: "int \<Rightarrow> int \<Rightarrow> nat \<Rightarrow> int list \<Rightarrow> (int \<times> placement) list" where
  "member_places gid no k [] = []"
| "member_places gid no k (mid # mids) =
     (mid, gid, int k, no + 1) # member_places gid (no + 1) (Suc k) mids"

fun layout_places :: "int \<Rightarrow> layout_group list \<Rightarrow> (int \<times> placement) list" where
  "layout_places no [] = []"
| "layout_places no (g # gs) = member_places (lg_id g) no 0 (lg_members g) @
     layout_places (no + int (length (lg_members g))) gs"

fun group_places :: "nat \<Rightarrow> layout_group list \<Rightarrow> (int \<times> string \<times> int) list" where
  "group_places k [] = []"
| "group_places k (g # gs) = (lg_id g, trim_space (lg_name g), int k) # group_places (Suc k) gs"

lemma put_fields [simp]:
  "mb_id (put_member rid P m) = mb_id m" "mb_relay (put_member rid P m) = mb_relay m"
  "mb_channel (put_member rid P m) = mb_channel m"
  "gr_id (put_group rid N g) = gr_id g" "gr_relay (put_group rid N g) = gr_relay g"
  by (simp_all add: put_member_def put_group_def split: option.splits)

lemma put_empty: "put_member rid Map.empty = id" "put_group rid Map.empty = id"
  by (rule ext, simp add: put_member_def put_group_def)+

lemma laid_empty: "laid rid d Map.empty Map.empty = d"
  by (simp add: laid_def put_empty)

lemma laid_member:
  "upd_members (\<lambda>m. mb_id m = mid \<and> mb_relay m = rid)
     (\<lambda>m. m\<lparr>mb_group := g, mb_sort := s, mb_number := n\<rparr>) (laid rid d P N) =
   laid rid d (P(mid \<mapsto> (g, s, n))) N"
  by (auto simp: upd_members_def laid_def update_where_def put_member_def split: option.splits
      intro!: db.fold_congs map_cong)

lemma laid_group:
  "upd_groups (\<lambda>g. gr_id g = gid \<and> gr_relay g = rid)
     (\<lambda>g. g\<lparr>gr_name := nm, gr_sort := s\<rparr>) (laid rid d P N) =
   laid rid d P (N(gid \<mapsto> (nm, s)))"
  by (auto simp: upd_groups_def laid_def update_where_def put_group_def split: option.splits
      intro!: db.fold_congs map_cong)

text \<open>Memberships are only moved into groups that exist, so no statement fails.\<close>

lemma schema_laid:
  assumes "schema_ok d" "\<And>i v. P i = Some v \<Longrightarrow> fst v \<in> gr_id ` set (t_groups d)"
  shows "schema_ok (laid rid d P N)"
proof -
  have e: "map mb_id (map (put_member rid P) (t_members d)) = map mb_id (t_members d)"
    "map mb_relay (map (put_member rid P) (t_members d)) = map mb_relay (t_members d)"
    "map mb_channel (map (put_member rid P) (t_members d)) = map mb_channel (t_members d)"
    "map (\<lambda>r. (mb_relay r, mb_channel r)) (map (put_member rid P) (t_members d)) =
       map (\<lambda>r. (mb_relay r, mb_channel r)) (t_members d)"
    "map gr_id (map (put_group rid N) (t_groups d)) = map gr_id (t_groups d)"
    "map gr_relay (map (put_group rid N) (t_groups d)) = map gr_relay (t_groups d)"
    by simp_all
  have g: "gr_id ` (put_group rid N ` set (t_groups d)) = gr_id ` set (t_groups d)"
    by (simp add: image_image)
  have "refers mb_group (map (put_member rid P) (t_members d)) gr_id (map (put_group rid N) (t_groups d))"
    using assms schema_fk(1) [OF assms(1)]
    by (fastforce simp: refers_map list_all_iff g put_member_def split: option.splits)
  then show ?thesis
    using assms(1) unfolding schema_ok_iff
    by (simp add: laid_def constraints_def foreign_keys_def unique_cong [OF e(1)] unique_cong [OF e(4)]
        unique_cong [OF e(5)] refers_cong [OF e(2)] refers_cong [OF e(3)] refers_cong [OF e(6)])
qed

lemma fst_member_places: "map fst (member_places gid no k mids) = mids"
  by (induction mids arbitrary: no k) simp_all

lemma fst_layout_places: "map fst (layout_places no gs) = concat (map lg_members gs)"
  by (induction gs arbitrary: no) (simp_all add: fst_member_places)

lemma member_places_gid: "(i, g, s, n) \<in> set (member_places gid no k mids) \<Longrightarrow> g = gid"
  by (induction mids arbitrary: no k) auto

lemma fst_group_places: "map fst (group_places k gs) = map lg_id gs"
  by (induction gs arbitrary: k) simp_all

lemma fold_place_members:
  assumes "schema_ok d" "\<And>i v. P i = Some v \<Longrightarrow> fst v \<in> gr_id ` set (t_groups d)"
    "gid \<in> gr_id ` set (t_groups d)"
  shows "foldD (place_member rid M gid) (gs, ms, no) (enumerate k mids) (laid rid d P N) = (Inr st, d') \<longleftrightarrow>
     set mids \<subseteq> set M \<and> distinct mids \<and> set mids \<inter> set ms = {} \<and>
     st = (gs, rev mids @ ms, no + int (length mids)) \<and>
     d' = laid rid d (P ++ map_of (rev (member_places gid no k mids))) N"
  using assms(2)
proof (induction mids arbitrary: P ms no k)
  case Nil
  then show ?case by (auto simp: okD_eq)
next
  case (Cons mid mids)
  let ?P = "P(mid \<mapsto> (gid, int k, no + 1))"
  have P: "fst v \<in> gr_id ` set (t_groups d)" if "?P i = Some v" for i v
    using that Cons.prems assms(3) by (auto split: if_splits)
  have ok: "schema_ok (laid rid d ?P N)" by (rule schema_laid [OF assms(1) P])
  have step: "place_member rid M gid (gs, ms, no) (k, mid) (laid rid d P N) = (Inr st', d'') \<longleftrightarrow>
      mid \<in> set M \<and> mid \<notin> set ms \<and> st' = (gs, mid # ms, no + 1) \<and> d'' = laid rid d ?P N" for st' d''
    by (auto simp: place_member_def dbm_simps laid_member ok)
  have e: "P ++ map_of (rev (member_places gid no k (mid # mids))) =
      ?P ++ map_of (rev (member_places gid (no + 1) (Suc k) mids))"
    by (simp add: map_add_assoc)
  have "foldD (place_member rid M gid) (gs, ms, no) (enumerate k (mid # mids)) (laid rid d P N) = (Inr st, d') \<longleftrightarrow>
      mid \<in> set M \<and> mid \<notin> set ms \<and>
      foldD (place_member rid M gid) (gs, mid # ms, no + 1) (enumerate (Suc k) mids) (laid rid d ?P N) = (Inr st, d')"
    by (auto simp: bindD_Inr step)
  moreover have "foldD (place_member rid M gid) (gs, mid # ms, no + 1) (enumerate (Suc k) mids)
        (laid rid d ?P N) = (Inr st, d') \<longleftrightarrow>
      set mids \<subseteq> set M \<and> distinct mids \<and>
      set mids \<inter> set (mid # ms) = {} \<and> st = (gs, rev mids @ mid # ms, no + 1 + int (length mids)) \<and>
      d' = laid rid d (?P ++ map_of (rev (member_places gid (no + 1) (Suc k) mids))) N"
    by (rule Cons.IH) (erule P)
  ultimately show ?case unfolding e by auto
qed

lemma fold_place_groups:
  assumes "schema_ok d" "\<And>i v. P i = Some v \<Longrightarrow> fst v \<in> gr_id ` set (t_groups d)"
    "set G \<subseteq> gr_id ` set (t_groups d)"
  shows "foldD (place_group rid G M) (gs, ms, no) (enumerate k L) (laid rid d P N) = (Inr st, d') \<longleftrightarrow>
     set (map lg_id L) \<subseteq> set G \<and> distinct (map lg_id L) \<and> set (map lg_id L) \<inter> set gs = {} \<and>
     list_all (\<lambda>g. \<not> blank (lg_name g)) L \<and>
     set (concat (map lg_members L)) \<subseteq> set M \<and> distinct (concat (map lg_members L)) \<and>
     set (concat (map lg_members L)) \<inter> set ms = {} \<and>
     st = (rev (map lg_id L) @ gs, rev (concat (map lg_members L)) @ ms,
           no + int (length (concat (map lg_members L)))) \<and>
     d' = laid rid d (P ++ map_of (rev (layout_places no L))) (N ++ map_of (rev (group_places k L)))"
  using assms(2)
proof (induction L arbitrary: P N gs ms no k)
  case Nil
  then show ?case by (auto simp: okD_eq)
next
  case (Cons g L)
  let ?ps = "member_places (lg_id g) no 0 (lg_members g)" and ?mids = "lg_members g"
  let ?P = "P ++ map_of (rev ?ps)" and ?N = "N(lg_id g \<mapsto> (trim_space (lg_name g), int k))"
  let ?no = "no + int (length ?mids)"
  have ok: "schema_ok (laid rid d P ?N)" by (rule schema_laid [OF assms(1)]) (erule Cons.prems)
  have mem: "foldD (place_member rid M (lg_id g)) (lg_id g # gs, ms, no) (enumerate 0 ?mids)
        (laid rid d P ?N) = (Inr st', d'') \<longleftrightarrow>
      set ?mids \<subseteq> set M \<and> distinct ?mids \<and> set ?mids \<inter> set ms = {} \<and>
      st' = (lg_id g # gs, rev ?mids @ ms, ?no) \<and> d'' = laid rid d ?P ?N"
    if "lg_id g \<in> set G" for st' d''
    by (rule fold_place_members [OF assms(1)]) (use that assms(3) in \<open>auto elim: Cons.prems\<close>)
  have step: "place_group rid G M (gs, ms, no) (k, g) (laid rid d P N) = (Inr st', d'') \<longleftrightarrow>
      lg_id g \<in> set G \<and> lg_id g \<notin> set gs \<and> \<not> blank (lg_name g) \<and>
      set ?mids \<subseteq> set M \<and> distinct ?mids \<and> set ?mids \<inter> set ms = {} \<and>
      st' = (lg_id g # gs, rev ?mids @ ms, ?no) \<and> d'' = laid rid d ?P ?N" for st' d''
    by (auto simp: place_group_def dbm_simps laid_group ok mem)
  show ?case
  proof (cases "lg_id g \<in> set G")
    case False
    then show ?thesis by (auto simp: bindD_Inr step)
  next
    case True
    have P: "fst v \<in> gr_id ` set (t_groups d)" if "?P i = Some v" for i v
    proof (cases "map_of (rev ?ps) i")
      case None
      then show ?thesis using that Cons.prems by (auto simp: map_add_def)
    next
      case (Some w)
      then have "v = w" "(i, w) \<in> set ?ps" using that by (auto dest: map_of_SomeD)
      then show ?thesis
        using member_places_gid [of i "fst w" "fst (snd w)" "snd (snd w)"] True assms(3) by auto
    qed
    have IH: "foldD (place_group rid G M) (lg_id g # gs, rev ?mids @ ms, ?no) (enumerate (Suc k) L)
        (laid rid d ?P ?N) = (Inr st, d') \<longleftrightarrow>
      set (map lg_id L) \<subseteq> set G \<and> distinct (map lg_id L) \<and> set (map lg_id L) \<inter> set (lg_id g # gs) = {} \<and>
      list_all (\<lambda>g. \<not> blank (lg_name g)) L \<and>
      set (concat (map lg_members L)) \<subseteq> set M \<and> distinct (concat (map lg_members L)) \<and>
      set (concat (map lg_members L)) \<inter> set (rev ?mids @ ms) = {} \<and>
      st = (rev (map lg_id L) @ lg_id g # gs, rev (concat (map lg_members L)) @ rev ?mids @ ms,
            ?no + int (length (concat (map lg_members L)))) \<and>
      d' = laid rid d (?P ++ map_of (rev (layout_places ?no L))) (?N ++ map_of (rev (group_places (Suc k) L)))"
      by (rule Cons.IH) (erule P)
    have e: "P ++ map_of (rev (layout_places no (g # L))) = ?P ++ map_of (rev (layout_places ?no L))"
      "N ++ map_of (rev (group_places k (g # L))) = ?N ++ map_of (rev (group_places (Suc k) L))"
      by (simp_all add: map_add_assoc)
    have "foldD (place_group rid G M) (gs, ms, no) (enumerate k (g # L)) (laid rid d P N) = (Inr st, d') \<longleftrightarrow>
        lg_id g \<notin> set gs \<and> \<not> blank (lg_name g) \<and> set ?mids \<subseteq> set M \<and> distinct ?mids \<and>
        set ?mids \<inter> set ms = {} \<and>
        foldD (place_group rid G M) (lg_id g # gs, rev ?mids @ ms, ?no) (enumerate (Suc k) L)
          (laid rid d ?P ?N) = (Inr st, d')"
      using True by (auto simp: bindD_Inr step)
    moreover obtain C I where C: "concat (map lg_members L) = C" and I: "map lg_id L = I" by blast
    moreover have "concat (map lg_members (g # L)) = ?mids @ C" "map lg_id (g # L) = lg_id g # I"
      using C I by simp_all
    ultimately show ?thesis
      unfolding IH e C I using True by (simp only:) auto
  qed
qed

section \<open>The lineup it leaves\<close>

lemma find_map_key:
  "(\<And>r. k (f r) = k r) \<Longrightarrow> find (\<lambda>r. k r = i) (map f rows) = map_option f (find (\<lambda>r. k r = i) rows)"
  by (induction rows) auto

lemma group_at_row:
  assumes "schema_ok d" "g \<in> set (t_groups d)"
  shows "group_at d (gr_id g) = g"
  using find_unique [OF schema_okD(7) [OF assms(1)] assms(2)] by (simp add: group_at_def)

lemma group_at_laid:
  assumes "i \<in> gr_id ` set (t_groups d)"
  shows "group_at (laid rid d P N) i = put_group rid N (group_at d i)"
proof -
  obtain g where "find (\<lambda>g. gr_id g = i) (t_groups d) = Some g"
    using assms by (cases "find (\<lambda>g. gr_id g = i) (t_groups d)") (auto simp: find_None_iff)
  then show ?thesis by (simp add: group_at_def laid_def find_map_key)
qed

definition place_key :: "(int \<Rightarrow> int) \<Rightarrow> int \<times> placement \<Rightarrow> int \<times> int \<times> int" where
  "place_key ord x = (case x of (mid, g, s, n) \<Rightarrow> (ord g, s, mid))"

lemma member_places_set:
  "(i, g, s, n) \<in> set (member_places gid no k mids) \<Longrightarrow> g = gid \<and> int k \<le> s"
  by (induction mids arbitrary: no k) force+

lemma member_places_sorted:
  "sorted_wrt (\<lambda>x y. place_key ord x < place_key ord y) (member_places gid no k mids)"
proof (induction mids arbitrary: no k)
  case (Cons mid mids)
  have "place_key ord (mid, gid, int k, no + 1) < place_key ord x"
    if "x \<in> set (member_places gid (no + 1) (Suc k) mids)" for x
  proof -
    obtain i g s n where x: "x = (i, g, s, n)" by (cases x)
    then show ?thesis
      using member_places_set [OF that [unfolded x]] by (auto simp: place_key_def)
  qed
  with Cons show ?case by simp
qed simp

lemma layout_places_set:
  "(i, g, s, n) \<in> set (layout_places no L) \<Longrightarrow> g \<in> set (map lg_id L)"
  by (induction L arbitrary: no) (auto dest: member_places_gid)

lemma layout_places_sorted:
  assumes "\<And>j. j < length L \<Longrightarrow> ord (lg_id (L ! j)) = int (k + j)"
  shows "sorted_wrt (\<lambda>x y. place_key ord x < place_key ord y) (layout_places no L)"
  using assms
proof (induction L arbitrary: no k)
  case (Cons g L)
  have o: "ord (lg_id g) = int k" using Cons.prems [of 0] by simp
  have later: "ord h \<ge> int (Suc k)" if h: "h \<in> set (map lg_id L)" for h
  proof -
    obtain j where "j < length L" "h = lg_id (L ! j)" using h by (auto simp: in_set_conv_nth)
    then show ?thesis using Cons.prems [of "Suc j"] by simp
  qed
  have "place_key ord x < place_key ord y"
    if "x \<in> set (member_places (lg_id g) no 0 (lg_members g))" "y \<in> set (layout_places n' L)" for x y n'
  proof -
    obtain i g' s n where x: "x = (i, g', s, n)" by (cases x)
    have g': "g' = lg_id g" by (rule member_places_gid [OF that(1) [unfolded x]])
    obtain i' h s' m where y: "y = (i', h, s', m)" by (cases y)
    have "int (Suc k) \<le> ord h" using layout_places_set that(2) y later by blast
    then show ?thesis using o by (simp add: x y g' place_key_def)
  qed
  moreover have "sorted_wrt (\<lambda>x y. place_key ord x < place_key ord y) (layout_places n' L)" for n'
    by (rule Cons.IH [of "Suc k"]) (use Cons.prems [of "Suc _"] in simp)
  ultimately show ?case by (simp add: sorted_wrt_append member_places_sorted)
qed simp

lemma member_numbers:
  "map (\<lambda>(_, _, _, n). n) (member_places gid no k mids) = [no + 1..no + int (length mids)]"
proof (induction mids arbitrary: no k)
  case (Cons mid mids)
  have "[no + 1..no + int (length (mid # mids))] = (no + 1) # [no + 1 + 1..no + 1 + int (length mids)]"
    by (simp add: upto_rec1 add.assoc)
  with Cons show ?case by simp
qed simp

lemma upto_join:
  "0 \<le> b \<Longrightarrow> 0 \<le> c \<Longrightarrow> [a + 1..a + b] @ [a + b + 1..a + b + c] = [a + 1..a + b + (c::int)]"
  using upto_split1 [of "a + 1" "a + b + 1" "a + b + c"] by (cases "c = 0") auto

lemma layout_numbers:
  "map (\<lambda>(_, _, _, n). n) (layout_places no L) = [no + 1..no + int (length (concat (map lg_members L)))]"
proof (induction L arbitrary: no)
  case (Cons g L)
  show ?case
    using upto_join [of "int (length (lg_members g))" "int (length (concat (map lg_members L)))" no]
    by (simp add: member_numbers Cons.IH [of "no + int (length (lg_members g))"] add.assoc)
qed simp

lemma group_places_nth:
  assumes "distinct (map lg_id L)" "j < length L"
  shows "map_of (rev (group_places k L)) (lg_id (L ! j)) = Some (trim_space (lg_name (L ! j)), int (k + j))"
proof -
  have "(lg_id (L ! j), trim_space (lg_name (L ! j)), int (k + j)) \<in> set (group_places k L)"
    using assms(2)
  proof (induction L arbitrary: j k)
    case (Cons g L)
    then show ?case using Cons.IH [of "j - 1" "Suc k"] by (cases j) auto
  qed simp
  moreover have "distinct (map fst (rev (group_places k L)))"
    using assms(1) fst_group_places [of k L] by (simp flip: rev_map)
  ultimately show ?thesis by (simp add: map_of_is_SomeI)
qed

text \<open>The layouts the loop accepts: permutations of the groups and of the memberships.\<close>

definition laid_out :: "db \<Rightarrow> int \<Rightarrow> layout_group list \<Rightarrow> bool" where
  "laid_out d rid L \<longleftrightarrow> store_inv d \<and>
     mset (map lg_id L) = mset (map gr_id (filter (\<lambda>g. gr_relay g = rid) (t_groups d))) \<and>
     mset (concat (map lg_members L)) = mset (map mb_id (members_of d rid))"

abbreviation places :: "layout_group list \<Rightarrow> int \<Rightarrow> placement option" where
  "places L \<equiv> map_of (rev (layout_places 0 L))"

abbreviation names :: "layout_group list \<Rightarrow> int \<Rightarrow> (string \<times> int) option" where
  "names L \<equiv> map_of (rev (group_places 0 L))"

abbreviation laid_db :: "db \<Rightarrow> int \<Rightarrow> layout_group list \<Rightarrow> db" where
  "laid_db d rid L \<equiv> laid rid d (places L) (names L)"

lemma lo_inv: "laid_out d rid L \<Longrightarrow> store_inv d"
  and lo_groups_perm: "laid_out d rid L \<Longrightarrow>
    mset (map lg_id L) = mset (map gr_id (filter (\<lambda>g. gr_relay g = rid) (t_groups d)))"
  and lo_members_perm: "laid_out d rid L \<Longrightarrow>
    mset (concat (map lg_members L)) = mset (map mb_id (members_of d rid))"
  by (simp_all add: laid_out_def)

lemma lo_schema: "laid_out d rid L \<Longrightarrow> schema_ok d"
  and lo_groups: "laid_out d rid L \<Longrightarrow> groups_ok d"
  by (simp_all add: laid_out_def store_inv_def lineup_ok_def)

lemma lo_layout_group_ids:
  assumes lo: "laid_out d rid L"
  shows "set (map lg_id L) = gr_id ` {g \<in> set (t_groups d). gr_relay g = rid}"
  using arg_cong [OF lo_groups_perm [OF lo], of set_mset] by simp

lemma lo_distinct_groups:
  assumes lo: "laid_out d rid L"
  shows "distinct (map lg_id L)"
proof -
  note groups_perm = lo_groups_perm [OF lo]
    and schema = lo_schema [OF lo]
  have "distinct (map gr_id (filter (\<lambda>g. gr_relay g = rid) (t_groups d)))"
    using schema_okD(7) [OF schema] by (simp add: unique_by_def distinct_map_filter)
  then show ?thesis using groups_perm mset_eq_imp_distinct_iff by blast
qed

lemma lo_distinct_members:
  assumes lo: "laid_out d rid L"
  shows "distinct (concat (map lg_members L))"
proof -
  note members_perm = lo_members_perm [OF lo]
    and schema = lo_schema [OF lo]
  have "distinct (map mb_id (members_of d rid))"
    using schema_okD(8) [OF schema] by (simp add: unique_by_def members_of_def distinct_map_filter)
  then show ?thesis using members_perm mset_eq_imp_distinct_iff by blast
qed

lemma lo_placed:
  assumes lo: "laid_out d rid L" and "(i, g, s, n) \<in> set (layout_places 0 L)"
  shows "(places L) i = Some (g, s, n)" "g \<in> gr_id ` set (t_groups d)" "gr_relay (group_at d g) = rid"
proof -
  note schema = lo_schema [OF lo]
    and layout_group_ids = lo_layout_group_ids [OF lo]
    and distinct_members = lo_distinct_members [OF lo]
  have "distinct (map fst (rev (layout_places 0 L)))"
    using distinct_members fst_layout_places [of 0 L] by (simp flip: rev_map)
  then show "(places L) i = Some (g, s, n)" using assms(2) by (simp add: map_of_is_SomeI)
  have "g \<in> set (map lg_id L)" using layout_places_set [OF assms(2)] .
  then obtain r where "r \<in> set (t_groups d)" "gr_relay r = rid" "g = gr_id r"
    unfolding layout_group_ids by auto
  then show "g \<in> gr_id ` set (t_groups d)" "gr_relay (group_at d g) = rid"
    using group_at_row [OF schema] by auto
qed

lemma lo_every_member_placed:
  assumes lo: "laid_out d rid L" and "m \<in> set (t_members d)" "mb_relay m = rid"
  obtains g s n where "(mb_id m, g, s, n) \<in> set (layout_places 0 L)"
proof -
  note members_perm = lo_members_perm [OF lo]
  have "mb_id m \<in> set (concat (map lg_members L))"
    using arg_cong [OF members_perm, of set_mset] assms(2,3) by (auto simp: members_of_def)
  then have "mb_id m \<in> set (map fst (layout_places 0 L))" by (simp only: fst_layout_places)
  then show thesis using that by auto
qed

lemma lo_schema_out:
  assumes lo: "laid_out d rid L"
  shows "schema_ok (laid_db d rid L)"
proof (rule schema_laid [OF lo_schema [OF lo]])
  note placed = lo_placed [OF lo]
  fix i v assume "(places L) i = Some v"
  then have "(i, fst v, fst (snd v), snd (snd v)) \<in> set (layout_places 0 L)"
    by (auto dest: map_of_SomeD)
  then show "fst v \<in> gr_id ` set (t_groups d)" by (rule placed(2))
qed

lemma lo_lineup_out:
  assumes lo: "laid_out d rid L"
  shows "lineup (laid_db d rid L) rid = map (\<lambda>(i, _). put_member rid (places L)
    (the (find (\<lambda>m. mb_id m = i) (t_members d)))) (layout_places 0 L)"
    (is "_ = map ?row _")
  unfolding lineup_def
proof (rule sort_key_unique)
  note members_perm = lo_members_perm [OF lo]
    and schema = lo_schema [OF lo]
  have rows: "map ?row (layout_places 0 L) =
      map (put_member rid (places L)) (map (\<lambda>i. the (find (\<lambda>m. mb_id m = i) (t_members d))) (concat (map lg_members L)))"
    by (simp add: fst_layout_places [of 0, symmetric] comp_def case_prod_beta)
  have "the (find (\<lambda>r. mb_id r = mb_id m) (t_members d)) = m" if "m \<in> set (t_members d)" for m
    using find_unique [OF schema_okD(8) [OF schema] that] by simp
  then have "map (\<lambda>i. the (find (\<lambda>m. mb_id m = i) (t_members d))) (map mb_id (members_of d rid)) = members_of d rid"
    by (auto simp: members_of_def intro!: map_idI)
  then have "mset (map (\<lambda>i. the (find (\<lambda>m. mb_id m = i) (t_members d))) (concat (map lg_members L))) =
      mset (members_of d rid)"
    by (metis members_perm mset_map)
  then have "mset (map ?row (layout_places 0 L)) = image_mset (put_member rid (places L)) (mset (members_of d rid))"
    unfolding rows by (simp only: mset_map)
  also have "\<dots> = mset (members_of (laid_db d rid L) rid)"
    by (simp add: members_of_def laid_def filter_map comp_def)
  finally show "mset (map ?row (layout_places 0 L)) = mset (members_of (laid_db d rid L) rid)" .
next
  note members_perm = lo_members_perm [OF lo]
    and schema = lo_schema [OF lo]
    and layout_group_ids = lo_layout_group_ids [OF lo]
    and distinct_groups = lo_distinct_groups [OF lo]
    and placed = lo_placed [OF lo]
  let ?ord = "\<lambda>g. gr_sort (group_at (laid_db d rid L) g)"
  have "?ord (lg_id (L ! j)) = int (0 + j)" if j: "j < length L" for j
  proof -
    have "lg_id (L ! j) \<in> set (map lg_id L)" using j by simp
    then obtain r where r: "r \<in> set (t_groups d)" "gr_relay r = rid" "lg_id (L ! j) = gr_id r"
      unfolding layout_group_ids by auto
    then show ?thesis
      using group_places_nth [OF distinct_groups j, of 0] group_at_row [OF schema r(1)]
      by (simp add: group_at_laid put_group_def)
  qed
  then have sorted: "sorted_wrt (\<lambda>x y. place_key ?ord x < place_key ?ord y) (layout_places 0 L)"
    by (rule layout_places_sorted)
  have key: "member_key (laid_db d rid L) (?row x) = place_key ?ord x" if x: "x \<in> set (layout_places 0 L)" for x
  proof -
    obtain i g s n where e: "x = (i, g, s, n)" by (cases x)
    have "i \<in> set (concat (map lg_members L))"
      using x unfolding e fst_layout_places [of 0, symmetric] by force
    then have "i \<in> set (map mb_id (members_of d rid))"
      using members_perm by (metis set_mset_mset)
    then obtain m where m: "m \<in> set (t_members d)" "mb_id m = i" "mb_relay m = rid"
      by (auto simp: members_of_def)
    have "find (\<lambda>m. mb_id m = i) (t_members d) = Some m"
      using find_unique [OF schema_okD(8) [OF schema] m(1)] m(2) by simp
    then show ?thesis
      using placed(1) [OF x [unfolded e]] m by (simp add: e member_key_def place_key_def put_member_def)
  qed
  show "sorted_wrt (\<lambda>a b. member_key (laid_db d rid L) a < member_key (laid_db d rid L) b) (map ?row (layout_places 0 L))"
    unfolding sorted_wrt_map using sorted by (rule sorted_wrt_mono_rel [rotated]) (simp only: key)
qed

lemma lo_numbers_out:
  assumes lo: "laid_out d rid L"
  shows "map mb_number (lineup (laid_db d rid L) rid) = [1..int (length (concat (map lg_members L)))]"
    and "map mb_id (lineup (laid_db d rid L) rid) = concat (map lg_members L)"
proof -
  note members_perm = lo_members_perm [OF lo]
    and schema = lo_schema [OF lo]
    and placed = lo_placed [OF lo]
    and lineup_out = lo_lineup_out [OF lo]
  have row: "the (find (\<lambda>m. mb_id m = i) (t_members d)) \<in> {m. mb_id m = i \<and> mb_relay m = rid}"
    if "(i, g, s, n) \<in> set (layout_places 0 L)" for i g s n
  proof -
    have "i \<in> set (map fst (layout_places 0 L))" using that by force
    then have "i \<in> set (map mb_id (members_of d rid))"
      unfolding fst_layout_places using members_perm by (metis set_mset_mset)
    then obtain m where m: "m \<in> set (t_members d)" "mb_id m = i" "mb_relay m = rid"
      by (auto simp: members_of_def)
    then show ?thesis
      using find_unique [OF schema_okD(8) [OF schema] m(1)] by simp
  qed
  have "map mb_number (lineup (laid_db d rid L) rid) = map (\<lambda>(_, _, _, n). n) (layout_places 0 L)"
    unfolding lineup_out map_map
    using row placed(1) by (intro map_cong refl) (auto simp: put_member_def)
  then show "map mb_number (lineup (laid_db d rid L) rid) = [1..int (length (concat (map lg_members L)))]"
    by (simp add: layout_numbers)
  have "map mb_id (lineup (laid_db d rid L) rid) = map fst (layout_places 0 L)"
    unfolding lineup_out map_map using row by (intro map_cong refl) auto
  then show "map mb_id (lineup (laid_db d rid L) rid) = concat (map lg_members L)"
    by (simp add: fst_layout_places)
qed

lemma lo_groups_out:
  assumes lo: "laid_out d rid L"
  shows "groups_ok (laid_db d rid L)"
  unfolding groups_ok_def
proof
  note schema = lo_schema [OF lo] and groups = lo_groups [OF lo]
    and placed = lo_placed [OF lo] and every_member_placed = lo_every_member_placed [OF lo]
  fix m' assume "m' \<in> set (t_members (laid_db d rid L))"
  then obtain m where m: "m \<in> set (t_members d)" "m' = put_member rid (places L) m"
    by (auto simp: laid_def)
  show "gr_relay (group_at (laid_db d rid L) (mb_group m')) = mb_relay m'"
  proof (cases "mb_relay m = rid")
    case True
    then obtain g s n where "(mb_id m, g, s, n) \<in> set (layout_places 0 L)"
      using every_member_placed [OF m(1)] by blast
    from placed [OF this] show ?thesis using True by (simp add: m(2) put_member_def group_at_laid)
  next
    case False
    then show ?thesis
      using m schema_fk(1) [OF schema m(1)] groups
      by (simp add: put_member_def group_at_laid groups_ok_def)
  qed
qed

lemma lo_others_out:
  assumes lo: "laid_out d rid L" and "rid' \<noteq> rid"
  shows "numbered (laid_db d rid L) rid' = numbered d rid'"
proof -
  note schema = lo_schema [OF lo]
    and groups = lo_groups [OF lo]
  have m: "members_of (laid_db d rid L) rid' = members_of d rid'"
  proof -
    have "members_of (laid_db d rid L) rid' = map (put_member rid (places L)) (members_of d rid')"
      by (simp add: members_of_def laid_def filter_map comp_def)
    also have "\<dots> = members_of d rid'"
      using assms(2) by (intro map_idI) (auto simp: members_of_def put_member_def)
    finally show ?thesis .
  qed
  have "member_key (laid_db d rid L) x = member_key d x" if "x \<in> set (members_of d rid')" for x
  proof -
    have x: "x \<in> set (t_members d)" "mb_relay x = rid'" using that by (auto simp: members_of_def)
    then have "gr_relay (group_at d (mb_group x)) \<noteq> rid" using groups assms(2) by (simp add: groups_ok_def)
    then show ?thesis
      using schema_fk(1) [OF schema x(1)] by (simp add: member_key_def group_at_laid put_group_def)
  qed
  then have "lineup (laid_db d rid L) rid' = lineup d rid'"
    unfolding lineup_def m by (rule sort_key_cong)
  then show ?thesis by (simp add: numbered_def)
qed

lemma lo_inv_out:
  assumes lo: "laid_out d rid L"
  shows "store_inv (laid_db d rid L)"
proof -
  note inv = lo_inv [OF lo]
    and schema_out = lo_schema_out [OF lo]
    and numbers_out = lo_numbers_out(1) [OF lo]
    and ids_out = lo_numbers_out(2) [OF lo]
    and groups_out = lo_groups_out [OF lo]
    and others_out = lo_others_out [OF lo]
  have "numbered (laid_db d rid L) rid'" for rid'
  proof (cases "rid' = rid")
    case True
    have "length (lineup (laid_db d rid L) rid) = length (concat (map lg_members L))"
      by (metis ids_out length_map)
    then show ?thesis using True numbers_out by (simp add: numbered_def)
  next
    case False
    then show ?thesis using others_out inv by (simp add: store_inv_def lineup_ok_def)
  qed
  then show ?thesis using schema_out groups_out by (simp add: store_inv_def lineup_ok_def)
qed

lemma lo_group_rows_out:
  assumes lo: "laid_out d rid L"
  shows "map (\<lambda>g. (gr_id g, gr_name g)) (list_relay_groups rid (laid_db d rid L)) =
     map (\<lambda>g. (lg_id g, trim_space (lg_name g))) L"
proof -
  note groups_perm = lo_groups_perm [OF lo]
    and schema = lo_schema [OF lo]
    and layout_group_ids = lo_layout_group_ids [OF lo]
    and distinct_groups = lo_distinct_groups [OF lo]
  let ?k = "\<lambda>g. (gr_sort g, gr_id g)"
  let ?gs = "filter (\<lambda>g. gr_relay g = rid) (t_groups d)"
  let ?rows = "map (\<lambda>g. put_group rid (names L) (group_at d (lg_id g))) L"
  have row: "put_group rid (names L) (group_at d (lg_id (L ! j))) =
      (group_at d (lg_id (L ! j)))\<lparr>gr_name := trim_space (lg_name (L ! j)), gr_sort := int j\<rparr> \<and>
      gr_id (group_at d (lg_id (L ! j))) = lg_id (L ! j)" if j: "j < length L" for j
  proof -
    have "lg_id (L ! j) \<in> set (map lg_id L)" using j by simp
    then obtain r where r: "r \<in> set (t_groups d)" "gr_relay r = rid" "lg_id (L ! j) = gr_id r"
      unfolding layout_group_ids by auto
    then show ?thesis
      using group_places_nth [OF distinct_groups j, of 0] group_at_row [OF schema r(1)]
      by (simp add: put_group_def)
  qed
  have "map (group_at d) (map gr_id ?gs) = ?gs"
    using group_at_row [OF schema] by (auto intro!: map_idI)
  then have "mset (map (group_at d) (map lg_id L)) = mset ?gs"
    by (metis groups_perm mset_map)
  then have "mset (map (put_group rid (names L)) (map (group_at d) (map lg_id L))) =
      mset (map (put_group rid (names L)) ?gs)"
    by (simp only: mset_map)
  then have "mset ?rows = mset (filter (\<lambda>g. gr_relay g = rid) (t_groups (laid_db d rid L)))"
    by (simp add: laid_def filter_map comp_def)
  moreover have "sorted_wrt (\<lambda>a b. ?k a < ?k b) ?rows"
    using row by (simp add: sorted_wrt_iff_nth_less)
  ultimately have "list_relay_groups rid (laid_db d rid L) = ?rows"
    unfolding list_relay_groups_def stable_sort_key by (rule sort_key_unique)
  moreover have "map (\<lambda>g. (gr_id g, gr_name g)) ?rows = map (\<lambda>g. (lg_id g, trim_space (lg_name g))) L"
    using row by (intro nth_equalityI) auto
  ultimately show ?thesis by simp
qed


section \<open>The operation\<close>

lemma list_memberships_ids:
  "schema_ok d \<Longrightarrow> map ms_id (list_relay_memberships rid d) = map mb_id (lineup d rid)"
  "schema_ok d \<Longrightarrow> map ms_number (list_relay_memberships rid d) = map mb_number (lineup d rid)"
  by (simp_all add: list_relay_memberships_def lineup_rows_eq scan_membership_def comp_def)

lemma list_groups_mset:
  "mset (map gr_id (list_relay_groups rid d)) = mset (map gr_id (filter (\<lambda>g. gr_relay g = rid) (t_groups d)))"
  by (simp add: list_relay_groups_def)

lemma mset_eq_distinct:
  "distinct ys \<Longrightarrow> mset xs = mset ys \<longleftrightarrow> distinct xs \<and> set xs \<subseteq> set ys \<and> length xs = length ys"
  by (metis card_subset_eq distinct_card finite_set mset_eq_imp_distinct_iff mset_eq_length
      mset_eq_setD order_refl set_eq_iff_mset_eq_distinct)

definition relay_touched :: "string \<Rightarrow> int \<Rightarrow> db \<Rightarrow> db" where
  "relay_touched now rid = upd_relay rid (\<lambda>r. r\<lparr>rl_updated := now\<rparr>)"

lemma relay_touched_tables [simp]:
  "t_members (relay_touched now rid d) = t_members d" "t_groups (relay_touched now rid d) = t_groups d"
  "t_channels (relay_touched now rid d) = t_channels d"
  by (simp_all add: relay_touched_def upd_relay_def)

lemma relay_touched_inv: "store_inv (relay_touched now rid d) = store_inv d"
proof -
  have "map rl_id (update_where (\<lambda>r. rl_id r = rid) (\<lambda>r. r\<lparr>rl_updated := now\<rparr>) (t_relays d)) = map rl_id (t_relays d)"
    "map rl_slug (update_where (\<lambda>r. rl_id r = rid) (\<lambda>r. r\<lparr>rl_updated := now\<rparr>) (t_relays d)) = map rl_slug (t_relays d)"
    by (simp_all add: map_update_where)
  note e = this
  have "rl_id ` set (update_where (\<lambda>r. rl_id r = rid) (\<lambda>r. r\<lparr>rl_updated := now\<rparr>) (t_relays d)) = rl_id ` set (t_relays d)"
    using arg_cong [OF e(1), of set] by simp
  then have "schema_ok (relay_touched now rid d) = schema_ok d"
    unfolding schema_ok_iff
    by (simp add: relay_touched_def upd_relay_def constraints_def foreign_keys_def refers_map
        refers_null_map unique_by_def e)
  then show ?thesis
    by (simp add: store_inv_def lineup_ok_def groups_ok_def group_at_def numbered_def lineup_def
        member_key_def [abs_def] members_of_def)
qed

lemma replace_layout_tx_Inr:
  assumes inv: "store_inv d"
  shows "replace_layout_tx now rid L (map gr_id (list_relay_groups rid d))
       (map ms_id (list_relay_memberships rid d)) d = (Inr u, d') \<longleftrightarrow>
     laid_out d rid L \<and> list_all (\<lambda>g. \<not> blank (lg_name g)) L \<and>
     d' = relay_touched now rid (laid_db d rid L)"
    (is "?tx \<longleftrightarrow> ?rhs")
proof -
  let ?G = "map gr_id (list_relay_groups rid d)" and ?M = "map ms_id (list_relay_memberships rid d)"
  let ?o = "laid_db d rid L"
  have ok: "schema_ok d" using inv by (simp add: store_inv_def)
  have G: "set ?G \<subseteq> gr_id ` set (t_groups d)" by (auto simp: list_relay_groups_def)
  have dG: "distinct ?G"
  proof -
    have "distinct (map gr_id (filter (\<lambda>g. gr_relay g = rid) (t_groups d)))"
      using schema_okD(7) [OF ok] by (simp add: unique_by_def distinct_map_filter)
    then show ?thesis using list_groups_mset mset_eq_imp_distinct_iff by blast
  qed
  have M: "?M = map mb_id (lineup d rid)" by (rule list_memberships_ids(1) [OF ok])
  have dM: "distinct ?M" unfolding M by (rule lineup_ids_distinct [OF ok])
  have mM: "mset ?M = mset (map mb_id (members_of d rid))" unfolding M by (simp add: lineup_def)
  have fold: "foldD (place_group rid ?G ?M) ([], [], 0) (enumerate 0 L) (laid rid d Map.empty Map.empty) = (Inr st, d1) \<longleftrightarrow>
      set (map lg_id L) \<subseteq> set ?G \<and> distinct (map lg_id L) \<and> set (map lg_id L) \<inter> set [] = {} \<and>
      list_all (\<lambda>g. \<not> blank (lg_name g)) L \<and>
      set (concat (map lg_members L)) \<subseteq> set ?M \<and> distinct (concat (map lg_members L)) \<and>
      set (concat (map lg_members L)) \<inter> set [] = {} \<and>
      st = (rev (map lg_id L) @ [], rev (concat (map lg_members L)) @ [],
            0 + int (length (concat (map lg_members L)))) \<and>
      d1 = laid rid d (Map.empty ++ map_of (rev (layout_places 0 L))) (Map.empty ++ map_of (rev (group_places 0 L)))"
    for st d1 by (rule fold_place_groups [OF ok _ G]) simp
  obtain C where C: "concat (map lg_members L) = C" by blast
  obtain I where I: "map lg_id L = I" by blast
  have lI: "length L = length I" using I by auto
  have "?tx \<longleftrightarrow> length I = length ?G \<and> set I \<subseteq> set ?G \<and> distinct I \<and>
      list_all (\<lambda>g. \<not> blank (lg_name g)) L \<and> set C \<subseteq> set ?M \<and> distinct C \<and> length C = length ?M \<and>
      schema_ok (relay_touched now rid ?o) \<and> d' = relay_touched now rid ?o"
    unfolding replace_layout_tx_def bindD_Inr guardD_Inr run_stmt_Inr relay_touched_def lI
    using fold [unfolded laid_empty C I] by (auto simp: split_beta bindD_Inr guardD_Inr run_stmt_Inr)
  also have "\<dots> \<longleftrightarrow> mset I = mset ?G \<and> mset C = mset ?M \<and> list_all (\<lambda>g. \<not> blank (lg_name g)) L \<and>
      schema_ok (relay_touched now rid ?o) \<and> d' = relay_touched now rid ?o"
    using mset_eq_distinct [OF dG, of I] mset_eq_distinct [OF dM, of C] by blast
  also have "\<dots> \<longleftrightarrow> laid_out d rid L \<and> list_all (\<lambda>g. \<not> blank (lg_name g)) L \<and>
      schema_ok (relay_touched now rid ?o) \<and> d' = relay_touched now rid ?o"
    unfolding laid_out_def list_groups_mset mM C I using inv by blast
  also have "\<dots> \<longleftrightarrow> ?rhs"
    using lo_inv_out [THEN relay_touched_inv [THEN iffD2]] by (auto simp: store_inv_def)
  finally show ?thesis .
qed

lemma get_relay_Inr: "get_relay i d = (Inr r, d') \<longleftrightarrow> d' = d \<and> find (\<lambda>r. rl_id r = i) (t_relays d) = Some r"
  by (auto simp: get_relay_def split: option.splits)

lemma find_key_ex: "(\<exists>r. find (\<lambda>r. k r = i) rows = Some r) \<longleftrightarrow> i \<in> k ` set rows"
  by (induction rows) auto

lemma relay_touched_relays: "rl_id ` set (t_relays (relay_touched now rid d)) = rl_id ` set (t_relays d)"
proof -
  have "map rl_id (t_relays (relay_touched now rid d)) = map rl_id (t_relays d)"
    by (simp add: relay_touched_def upd_relay_def map_update_where)
  from arg_cong [OF this, of set] show ?thesis by simp
qed

lemma replace_layout_iff:
  assumes "store_inv d" "rid \<in> rl_id ` set (t_relays d)"
  shows "(\<exists>x d'. replace_relay_layout now rid L d = (Inr x, d')) \<longleftrightarrow>
    mset (map lg_id L) = mset (map gr_id (list_relay_groups rid d)) \<and>
    mset (concat (map lg_members L)) = mset (map ms_id (list_relay_memberships rid d)) \<and>
    list_all (\<lambda>g. \<not> blank (lg_name g)) L"
proof -
  have ok: "schema_ok d" using assms(1) by (simp add: store_inv_def)
  have r: "\<exists>r. get_relay rid d = (Inr r, d)"
    using assms(2) find_key_ex [of rl_id rid "t_relays d"] by (auto simp: get_relay_Inr)
  have r': "\<exists>r. get_relay rid (relay_touched now rid (laid_db d rid L)) = (Inr r, relay_touched now rid (laid_db d rid L))"
    using assms(2) find_key_ex [of rl_id rid "t_relays (relay_touched now rid (laid_db d rid L))"]
    unfolding relay_touched_relays by (auto simp: get_relay_Inr laid_def)
  have "(\<exists>x d'. replace_relay_layout now rid L d = (Inr x, d')) \<longleftrightarrow>
      laid_out d rid L \<and> list_all (\<lambda>g. \<not> blank (lg_name g)) L"
    using r r' replace_layout_tx_Inr [OF assms(1)]
    unfolding replace_relay_layout_def get_relay_detail_def bindD_Inr queryD_eq with_tx_Inr get_relay_Inr
    by auto
  also have "laid_out d rid L \<longleftrightarrow> mset (map lg_id L) = mset (map gr_id (list_relay_groups rid d)) \<and>
      mset (concat (map lg_members L)) = mset (map ms_id (list_relay_memberships rid d))"
    unfolding laid_out_def list_groups_mset list_memberships_ids(1) [OF ok]
    using assms(1) by (simp add: lineup_def)
  finally show ?thesis by blast
qed

lemma replace_layout_result:
  assumes inv: "store_inv d" and run: "replace_relay_layout now rid L d = (Inr x, d')"
  shows "store_inv d'" "map ms_id (rd_members x) = concat (map lg_members L)"
    "map ms_number (rd_members x) = [1..int (length (rd_members x))]"
    "map (\<lambda>g. (gr_id g, gr_name g)) (rd_groups x) = map (\<lambda>g. (lg_id g, trim_space (lg_name g))) L"
proof -
  let ?d = "relay_touched now rid (laid_db d rid L)"
  have tx: "laid_out d rid L" and d': "d' = ?d" and x: "rd_groups x = list_relay_groups rid ?d"
    "rd_members x = list_relay_memberships rid ?d"
    using run replace_layout_tx_Inr [OF inv, of now rid L]
    unfolding replace_relay_layout_def get_relay_detail_def bindD_Inr queryD_eq with_tx_Inr get_relay_Inr
    by auto
  show i: "store_inv d'" unfolding d' relay_touched_inv by (rule lo_inv_out [OF tx])
  then have ok: "schema_ok ?d" unfolding d' by (simp add: store_inv_def)
  have l: "lineup ?d rid = lineup (laid_db d rid L) rid"
    by (simp add: lineup_def members_of_def member_key_def [abs_def] group_at_def)
  show ids: "map ms_id (rd_members x) = concat (map lg_members L)"
    unfolding x list_memberships_ids(1) [OF ok] l by (rule lo_numbers_out(2) [OF tx])
  then have "length (rd_members x) = length (concat (map lg_members L))" by (metis length_map)
  then show "map ms_number (rd_members x) = [1..int (length (rd_members x))]"
    unfolding x list_memberships_ids(2) [OF ok] l by (simp add: lo_numbers_out(1) [OF tx])
  show "map (\<lambda>g. (gr_id g, gr_name g)) (rd_groups x) = map (\<lambda>g. (lg_id g, trim_space (lg_name g))) L"
    unfolding x using lo_group_rows_out [OF tx] by (simp add: list_relay_groups_def)
qed

lemma keeps_replace_layout: "keeps store_inv (replace_relay_layout now rid L)"
  unfolding keeps_def using replace_layout_result(1) by blast

section \<open>Properties\<close>

text \<open>A relay with two groups and three channels, for the witnesses.\<close>

definition sample_channel :: "string \<Rightarrow> channel_row" where
  "sample_channel i = \<lparr> cr_id = i, cr_name = i, cr_logo = [], cr_url = ''http://h/'' @ i, cr_headers = [],
     cr_transcode = False, cr_policy = policy_fixed, cr_fixed = None, cr_epg = None, cr_tvg = [],
     cr_created = [], cr_updated = [] \<rparr>"

definition sample_member :: "int \<Rightarrow> int \<Rightarrow> string \<Rightarrow> int \<Rightarrow> int \<Rightarrow> member_row" where
  "sample_member i g c n s = \<lparr> mb_id = i, mb_relay = 1, mb_group = g, mb_channel = c, mb_number = n,
     mb_sort = s \<rparr>"

definition sample_db :: db where
  "sample_db = empty_db\<lparr>t_channels := map sample_channel [''a'', ''b'', ''c''],
     t_relays := [\<lparr> rl_id = 1, rl_name = ''R'', rl_slug = ''r'', rl_created = [], rl_updated = [] \<rparr>],
     t_groups := [\<lparr> gr_id = 1, gr_relay = 1, gr_name = ''News'', gr_sort = 0 \<rparr>,
                  \<lparr> gr_id = 2, gr_relay = 1, gr_name = ''Sport'', gr_sort = 1 \<rparr>],
     t_members := [sample_member 1 1 ''a'' 1 0, sample_member 2 1 ''b'' 2 1, sample_member 3 2 ''c'' 3 0],
     q_relays := 1, q_groups := 2, q_members := 3\<rparr>"

lemma sample_schema: "schema_ok sample_db"
  by (simp add: schema_ok_iff constraints_def foreign_keys_def unique_by_def refers_def refers_null_def
      sample_db_def sample_channel_def sample_member_def empty_db_def to_lower_def lower_char_def)

lemma sample_group_at: "gr_sort (group_at sample_db 1) = 0" "gr_sort (group_at sample_db 2) = 1"
  "gr_relay (group_at sample_db 1) = 1" "gr_relay (group_at sample_db 2) = 1"
  by (simp_all add: group_at_def sample_db_def)

lemma sample_lineup: "lineup sample_db rid =
    (if rid = 1 then [sample_member 1 1 ''a'' 1 0, sample_member 2 1 ''b'' 2 1, sample_member 3 2 ''c'' 3 0] else [])"
proof -
  have "t_members sample_db = [sample_member 1 1 ''a'' 1 0, sample_member 2 1 ''b'' 2 1, sample_member 3 2 ''c'' 3 0]"
    by (simp add: sample_db_def)
  then show ?thesis
    by (simp add: lineup_def members_of_def member_key_def sample_group_at sample_member_def)
qed

lemma sample_inv: "store_inv sample_db"
proof -
  have "groups_ok sample_db"
    by (simp add: groups_ok_def group_at_def sample_db_def sample_member_def)
  moreover have "numbered sample_db rid" for rid
    by (simp add: numbered_def sample_lineup sample_member_def upto_rec1)
  ultimately show ?thesis by (simp add: store_inv_def lineup_ok_def sample_schema)
qed

definition sample_layout :: "layout_group list" where
  "sample_layout = [\<lparr> lg_id = 2, lg_name = '' Sport '', lg_members = [3, 1] \<rparr>,
     \<lparr> lg_id = 1, lg_name = ''News'', lg_members = [2] \<rparr>]"

lemma sample_lists:
  "map ms_id (list_relay_memberships 1 sample_db) = [1, 2, 3]"
  "mset (map gr_id (list_relay_groups 1 sample_db)) = {#1, 2#}"
  "1 \<in> rl_id ` set (t_relays sample_db)"
  unfolding list_memberships_ids(1) [OF sample_schema] sample_lineup list_groups_mset
  by (simp_all add: sample_member_def sample_db_def)

text \<open>C21: \<^verbatim>\<open>ReplaceRelayLayout\<close> accepts exactly the layouts that name every group and every membership of
  the relay once, with no blank group name.\<close>

theorem replace_layout_permutations:
  assumes "store_inv d" "rid \<in> rl_id ` set (t_relays d)"
  shows "(\<exists>x d'. replace_relay_layout now rid L d = (Inr x, d')) \<longleftrightarrow>
    mset (map lg_id L) = mset (map gr_id (list_relay_groups rid d)) \<and>
    mset (concat (map lg_members L)) = mset (map ms_id (list_relay_memberships rid d)) \<and>
    list_all (\<lambda>g. \<not> blank (lg_name g)) L"
  by (rule replace_layout_iff [OF assms])

theorem replace_layout_permutations_witness:
  "(\<exists>x d'. replace_relay_layout ''t'' 1 sample_layout sample_db = (Inr x, d')) \<and>
   \<not> (\<exists>x d'. replace_relay_layout ''t'' 1 (take 1 sample_layout) sample_db = (Inr x, d'))"
  unfolding replace_layout_permutations [OF sample_inv sample_lists(3)] sample_lists
  by (simp add: sample_layout_def trim_space_def trim_left_def trim_right_def space_runes_def)

text \<open>C9: After \<^verbatim>\<open>ReplaceRelayLayout\<close> the relay's lineup is the layout read from top to bottom, its
  channels are numbered from 1 in that order, its groups carry the trimmed names of the layout, and
  the invariant of the store holds.\<close>

theorem replace_layout_lineup:
  assumes "store_inv d" "replace_relay_layout now rid L d = (Inr x, d')"
  shows "store_inv d' \<and> map ms_id (rd_members x) = concat (map lg_members L) \<and>
    map ms_number (rd_members x) = [1..int (length (rd_members x))] \<and>
    map (\<lambda>g. (gr_id g, gr_name g)) (rd_groups x) = map (\<lambda>g. (lg_id g, trim_space (lg_name g))) L"
  using replace_layout_result [OF assms] by blast

theorem replace_layout_lineup_witness:
  "\<exists>x d'. replace_relay_layout ''t'' 1 sample_layout sample_db = (Inr x, d') \<and>
     map ms_id (rd_members x) = [3, 1, 2] \<and> map gr_id (rd_groups x) = [2, 1]"
proof -
  have "\<exists>x d'. replace_relay_layout ''t'' 1 sample_layout sample_db = (Inr x, d')"
    unfolding replace_layout_iff [OF sample_inv sample_lists(3)] sample_lists
    by (simp add: sample_layout_def trim_space_def trim_left_def trim_right_def space_runes_def)
  then obtain x d' where run: "replace_relay_layout ''t'' 1 sample_layout sample_db = (Inr x, d')" by blast
  note r = replace_layout_lineup [OF sample_inv run]
  have "map fst (map (\<lambda>g. (gr_id g, gr_name g)) (rd_groups x)) = [2, 1]"
    using r by (simp add: sample_layout_def)
  then have "map gr_id (rd_groups x) = [2, 1]" by (simp add: comp_def)
  moreover have "map ms_id (rd_members x) = [3, 1, 2]" using r by (simp add: sample_layout_def)
  ultimately show ?thesis using run by (intro exI [of _ x] exI [of _ d'] conjI)
qed

end
