(* ===== verification/StoreProxyUpdate.thy ===== *)
theory StoreProxyUpdate
  imports StoreChannels
begin

text \<open>
  \<^verbatim>\<open>UpdateProxy\<close> and \<^verbatim>\<open>refreshProxyDependentsTx\<close> of \<^verbatim>\<open>internal/core/store/proxies.go\<close>: saving a proxy
  rewrites the derived \<^verbatim>\<open>upstream_url\<close> of the channels whose primary row goes through it.
\<close>

text \<open>\<^verbatim>\<open>Channel{ID: id}\<close>.\<close>

definition bare_channel :: "string \<Rightarrow> channel" where
  "bare_channel i = \<lparr> ch_id = i, ch_name = [], ch_logo = [], ch_url = [], ch_upstreams = [],
     ch_policy = [], ch_fixed = [], ch_headers = [], ch_transcode = False, ch_epg = None, ch_tvg = [],
     ch_created = zero_time, ch_updated = zero_time, ch_slugs = [] \<rparr>"

definition dependents :: "string \<Rightarrow> db \<Rightarrow> string list" where
  "dependents px d =
     uniq_acc [] (map ur_channel (filter (\<lambda>u. ur_proxy u = Some px) (t_upstreams d)))"

definition touch_channels :: "string list \<Rightarrow> string \<Rightarrow> db \<Rightarrow> db" where
  "touch_channels ids now d =
     d\<lparr>t_channels := update_where (\<lambda>r. cr_id r \<in> set ids) (\<lambda>r. r\<lparr>cr_updated := now\<rparr>) (t_channels d)\<rparr>"

definition refresh_channel :: "string \<Rightarrow> channel \<Rightarrow> unit dbm" where
  "refresh_channel px c =
     (let prim = primary_upstream c in
      if cu_proxy_id prim \<noteq> px then okD ()
      else mapErrD channel_conflict
        (run_stmt (upd_channel (ch_id c) (\<lambda>r. r\<lparr>cr_url := row_primary prim\<rparr>))))"

definition refresh_proxy_dependents :: "string \<Rightarrow> string \<Rightarrow> string list dbm" where
  "refresh_proxy_dependents px now =
     bindD (queryD (dependents px)) (\<lambda>ids.
     if ids = [] then okD []
     else bindD (run_stmt (touch_channels ids now)) (\<lambda>_.
       bindD (queryD (\<lambda>d. attach_channel_upstreams d (map bare_channel ids))) (\<lambda>cs.
       bindD (foldD (\<lambda>_ c. refresh_channel px c) () cs) (\<lambda>_.
       okD ids))))"

definition update_proxy_tx ::
    "(nat \<Rightarrow> string) \<Rightarrow> string \<Rightarrow> string \<Rightarrow> proxy_input \<Rightarrow> proxy \<Rightarrow> string list dbm" where
  "update_proxy_tx uuid now i inp existing =
     bindD (resolve_proxy_spec uuid inp (Some existing)) (\<lambda>spec.
     bindD (mapErrD proxy_conflict (run_stmt (upd_proxy i (\<lambda>r. r\<lparr>px_name := psp_name spec,
        px_policy := psp_policy spec, px_fixed := null_if_empty (psp_fixed spec),
        px_updated := now\<rparr>)))) (\<lambda>_.
     bindD (run_stmt (del_servers i)) (\<lambda>_.
     bindD (insert_proxy_servers i spec) (\<lambda>_.
     refresh_proxy_dependents i now))))"

definition update_proxy ::
    "(nat \<Rightarrow> string) \<Rightarrow> string \<Rightarrow> string \<Rightarrow> proxy_input \<Rightarrow> (proxy \<times> string list) dbm" where
  "update_proxy uuid now raw inp =
     (let i = trim_space raw in
      bindD (get_proxy i) (\<lambda>existing.
      bindD (with_tx (update_proxy_tx uuid now i inp existing)) (\<lambda>affected.
      bindD (get_proxy i) (\<lambda>p. okD (p, affected)))))"

end
