(* ===== verification/StoreSettings.thy ===== *)
theory StoreSettings
  imports StoreModel
begin

text \<open>
  The settings row, \<^verbatim>\<open>internal/core/store/settings.go\<close>: the transcoder profile and the brand of the
  admin UI.  \<^verbatim>\<open>utf8.RuneCountInString\<close> is the parameter \<open>runes\<close>.
\<close>

record transcode_settings =
  ts_crf :: int
  ts_preset :: string
  ts_bitrate :: int
  ts_height :: int
  ts_startup :: int

record brand_settings =
  br_icon :: string
  br_title :: string

definition allowed_presets :: "string list" where
  "allowed_presets = [''ultrafast'', ''superfast'', ''veryfast'', ''faster'', ''fast'', ''medium'',
     ''slow'', ''slower'', ''veryslow'']"

definition default_brand_icon :: string where "default_brand_icon = ''/assets/brand.svg''"
definition default_brand_title :: string where "default_brand_title = ''IPTV Relay''"
definition legacy_brand_icon :: string where "legacy_brand_icon = ''/assets/assets/brand.svg''"

definition default_transcode_settings :: transcode_settings where
  "default_transcode_settings = \<lparr> ts_crf = 23, ts_preset = ''veryfast'', ts_bitrate = 128,
     ts_height = 0, ts_startup = 30 \<rparr>"

definition default_brand_settings :: brand_settings where
  "default_brand_settings = \<lparr> br_icon = default_brand_icon, br_title = default_brand_title \<rparr>"

section \<open>Validation\<close>

definition validate_transcode_settings :: "transcode_settings \<Rightarrow> store_err + unit" where
  "validate_transcode_settings t =
     (if ts_crf t < 0 \<or> 51 < ts_crf t
        then Inl (ErrValidation ''video_crf must be between 0 and 51'')
      else if trim_space (ts_preset t) \<notin> set allowed_presets
        then Inl (ErrValidation ''video_preset is not supported'')
      else if ts_bitrate t < 32 \<or> 512 < ts_bitrate t
        then Inl (ErrValidation ''audio_bitrate_kbps must be between 32 and 512'')
      else if ts_height t < 0 \<or> 4320 < ts_height t
        then Inl (ErrValidation ''max_height must be between 0 and 4320'')
      else if 0 < ts_height t \<and> ts_height t mod 2 \<noteq> 0
        then Inl (ErrValidation ''max_height must be even'')
      else if ts_startup t < 1 \<or> 300 < ts_startup t
        then Inl (ErrValidation ''startup_timeout_seconds must be between 1 and 300'')
      else Inr ())"

definition is_default_brand_icon :: "string \<Rightarrow> bool" where
  "is_default_brand_icon icon \<longleftrightarrow> trim_space icon \<in> {[], default_brand_icon, legacy_brand_icon}"

definition is_brand_icon_url :: "string \<Rightarrow> bool" where
  "is_brand_icon_url s = (case url_parse s of
       None \<Rightarrow> False
     | Some u \<Rightarrow>
         if has_prefix s ''//'' then False
         else if to_lower (u_scheme u) \<in> {''http'', ''https''} then u_host u \<noteq> []
         else if u_scheme u = [] then u_path u = ''/brand-icon''
         else False)"

definition normalize_brand_settings :: "brand_settings \<Rightarrow> brand_settings" where
  "normalize_brand_settings b =
     \<lparr> br_icon = (if is_default_brand_icon (trim_space (br_icon b)) then [] else trim_space (br_icon b)),
       br_title = (if blank (br_title b) then default_brand_title else trim_space (br_title b)) \<rparr>"

definition resolve_brand_settings :: "brand_settings \<Rightarrow> brand_settings" where
  "resolve_brand_settings b =
     (let st = normalize_brand_settings b in
      if br_icon st = [] \<or> \<not> is_brand_icon_url (br_icon st)
      then st\<lparr>br_icon := default_brand_icon\<rparr> else st)"

definition prepare_brand_settings :: "(string \<Rightarrow> nat) \<Rightarrow> brand_settings \<Rightarrow> store_err + brand_settings" where
  "prepare_brand_settings runes b =
     (let st = normalize_brand_settings b in
      if br_icon st \<noteq> [] \<and> 2048 < length (br_icon st)
        then Inl (ErrValidation ''brand icon URL is too long'')
      else if br_icon st \<noteq> [] \<and> \<not> is_brand_icon_url (br_icon st)
        then Inl (ErrValidation ''brand icon must be an image URL'')
      else if 64 < runes (br_title st)
        then Inl (ErrValidation ''brand title must be at most 64 characters'')
      else if CHR 0x0D \<in> set (br_title st) \<or> CHR 0x0A \<in> set (br_title st)
        then Inl (ErrValidation ''brand title cannot contain newlines'')
      else Inr st)"

definition validate_brand_settings :: "(string \<Rightarrow> nat) \<Rightarrow> brand_settings \<Rightarrow> store_err + unit" where
  "validate_brand_settings runes b = map_sum id (\<lambda>_. ()) (prepare_brand_settings runes b)"

section \<open>Reading and writing\<close>

definition missing_settings :: store_err where
  "missing_settings = ErrDb ''app_settings singleton missing''"

definition get_transcode_settings :: "transcode_settings dbm" where
  "get_transcode_settings = (\<lambda>d. case t_settings d of
       None \<Rightarrow> (Inl missing_settings, d)
     | Some r \<Rightarrow> (Inr \<lparr> ts_crf = se_crf r, ts_preset = se_preset r, ts_bitrate = se_bitrate r,
           ts_height = se_height r, ts_startup = se_startup r \<rparr>, d))"

definition get_brand_settings :: "brand_settings dbm" where
  "get_brand_settings = (\<lambda>d. case t_settings d of
       None \<Rightarrow> (Inl missing_settings, d)
     | Some r \<Rightarrow> (Inr (resolve_brand_settings \<lparr> br_icon = se_icon r, br_title = se_title r \<rparr>), d))"

definition settings_rows :: "db \<Rightarrow> nat" where
  "settings_rows d = (case t_settings d of None \<Rightarrow> 0 | Some _ \<Rightarrow> 1)"

definition require_settings_row :: "nat \<Rightarrow> unit dbm" where
  "require_settings_row n = guardD (n \<noteq> 0) missing_settings"

definition put_transcode :: "transcode_settings \<Rightarrow> settings_row \<Rightarrow> settings_row" where
  "put_transcode t r = r\<lparr>se_crf := ts_crf t, se_preset := trim_space (ts_preset t),
     se_bitrate := ts_bitrate t, se_height := ts_height t, se_startup := ts_startup t\<rparr>"

definition put_brand :: "brand_settings \<Rightarrow> settings_row \<Rightarrow> settings_row" where
  "put_brand b r = r\<lparr>se_icon := br_icon b, se_title := br_title b\<rparr>"

definition update_app_settings :: "(string \<Rightarrow> nat) \<Rightarrow> transcode_settings \<Rightarrow> brand_settings option \<Rightarrow>
    (transcode_settings \<times> brand_settings) dbm" where
  "update_app_settings runes t brand =
     bindD (liftD (validate_transcode_settings t)) (\<lambda>_.
     bindD (liftD (case brand of None \<Rightarrow> Inr None | Some b \<Rightarrow> map_sum id Some (prepare_brand_settings runes b))) (\<lambda>row.
     bindD (stmt_rows settings_rows (upd_settings (\<lambda>r. (case row of
         None \<Rightarrow> put_transcode t r | Some b \<Rightarrow> put_brand b (put_transcode t r))))) (\<lambda>n.
     bindD (require_settings_row n) (\<lambda>_.
     bindD get_transcode_settings (\<lambda>saved.
     bindD get_brand_settings (\<lambda>got. okD (saved, got)))))))"

definition update_transcode_settings :: "(string \<Rightarrow> nat) \<Rightarrow> transcode_settings \<Rightarrow> transcode_settings dbm" where
  "update_transcode_settings runes t = bindD (update_app_settings runes t None) (\<lambda>(saved, _). okD saved)"

definition update_brand_settings :: "(string \<Rightarrow> nat) \<Rightarrow> brand_settings \<Rightarrow> brand_settings dbm" where
  "update_brand_settings runes b =
     bindD (liftD (prepare_brand_settings runes b)) (\<lambda>st.
     bindD (stmt_rows settings_rows (upd_settings (put_brand st))) (\<lambda>n.
     bindD (require_settings_row n) (\<lambda>_. get_brand_settings)))"

end
