(* ===== verification/StoreEpg.thy ===== *)
theory StoreEpg
  imports StoreModel
begin

text \<open>
  EPG sources, the last part of \<^verbatim>\<open>internal/core/store/store.go\<close>.  Durations are nanoseconds;
  \<^verbatim>\<open>time.ParseDuration\<close> is the parameter \<open>dur\<close>.
\<close>

record epg_source =
  es_id :: int
  es_name :: string
  es_url :: string
  es_enabled :: bool
  es_interval :: int
  es_last :: "string option"
  es_error :: string
  es_created :: string
  es_updated :: string

record epg_input =
  ein_name :: string
  ein_url :: string
  ein_enabled :: "bool option"
  ein_interval :: string

definition second_ns :: int where "second_ns = 1000000000"
definition minute_ns :: int where "minute_ns = 60 * second_ns"
definition hour_ns :: int where "hour_ns = 60 * minute_ns"

text \<open>A row as the API sees it; an empty last refresh reads as none.\<close>

definition scan_epg_source :: "epg_row \<Rightarrow> epg_source" where
  "scan_epg_source r = \<lparr> es_id = ep_id r, es_name = ep_name r, es_url = ep_url r,
     es_enabled = ep_enabled r, es_interval = ep_seconds r * second_ns,
     es_last = (case ep_last r of Some t \<Rightarrow> if t = [] then None else Some t | None \<Rightarrow> None),
     es_error = ep_error r, es_created = ep_created r, es_updated = ep_updated r \<rparr>"

definition list_epg_sources :: "db \<Rightarrow> epg_source list" where
  "list_epg_sources d =
     map scan_epg_source (stable_sort (\<lambda>a b. to_lower (ep_name a) < to_lower (ep_name b)) (t_epgs d))"

definition list_enabled_epg_sources :: "db \<Rightarrow> epg_source list" where
  "list_enabled_epg_sources d =
     map scan_epg_source (stable_sort (\<lambda>a b. ep_id a < ep_id b) (filter ep_enabled (t_epgs d)))"

definition get_epg_source :: "int \<Rightarrow> epg_source dbm" where
  "get_epg_source i = (\<lambda>d. case find (\<lambda>r. ep_id r = i) (t_epgs d) of
       None \<Rightarrow> (Inl ErrNotFound, d) | Some r \<Rightarrow> (Inr (scan_epg_source r), d))"

definition find_epg_source_by_url :: "string \<Rightarrow> epg_source dbm" where
  "find_epg_source_by_url raw = (\<lambda>d. case find (\<lambda>r. ep_url r = trim_space raw) (t_epgs d) of
       None \<Rightarrow> (Inl ErrNotFound, d) | Some r \<Rightarrow> (Inr (scan_epg_source r), d))"

definition parse_refresh_interval :: "(string \<Rightarrow> int option) \<Rightarrow> string \<Rightarrow> int \<Rightarrow> store_err + int" where
  "parse_refresh_interval dur raw fallback =
     (let s = trim_space raw in
      if s = [] then Inr fallback
      else case dur s of
          None \<Rightarrow> Inl (ErrValidation ''refresh_interval must be a duration like 1h'')
        | Some n \<Rightarrow> if n < minute_ns then Inl (ErrValidation ''refresh_interval must be >= 1m'')
            else Inr n)"

definition validate_epg_input :: "epg_input \<Rightarrow> store_err + unit" where
  "validate_epg_input inp =
     (if blank (ein_name inp) then Inl (ErrValidation ''name is required'')
      else case url_parse (trim_space (ein_url inp)) of
          None \<Rightarrow> Inl (ErrValidation ''url must be http(s)'')
        | Some u \<Rightarrow>
            if u_scheme u \<noteq> ''http'' \<and> u_scheme u \<noteq> ''https'' \<or> u_host u = []
            then Inl (ErrValidation ''url must be http(s)'') else Inr ())"

text \<open>\<^verbatim>\<open>createEPGSourceTx\<close> (\<^verbatim>\<open>import.go\<close>) and \<^verbatim>\<open>CreateEPGSource\<close> run the same statements.\<close>

definition create_epg_source_tx ::
    "(string \<Rightarrow> int option) \<Rightarrow> string \<Rightarrow> epg_input \<Rightarrow> int \<Rightarrow> epg_source dbm" where
  "create_epg_source_tx dur now inp fallback =
     bindD (liftD (parse_refresh_interval dur (ein_interval inp) fallback)) (\<lambda>interval.
     bindD (liftD (validate_epg_input inp)) (\<lambda>_.
     bindD (queryD next_epg) (\<lambda>i.
     bindD (run_stmt (ins_epg \<lparr> ep_id = i, ep_name = trim_space (ein_name inp),
        ep_url = trim_space (ein_url inp),
        ep_enabled = (case ein_enabled inp of None \<Rightarrow> True | Some b \<Rightarrow> b),
        ep_seconds = interval div second_ns, ep_last = None, ep_error = [], ep_created = now,
        ep_updated = now \<rparr>)) (\<lambda>_.
     get_epg_source i))))"

definition create_epg_source ::
    "(string \<Rightarrow> int option) \<Rightarrow> string \<Rightarrow> epg_input \<Rightarrow> int \<Rightarrow> epg_source dbm" where
  "create_epg_source dur now inp fallback = create_epg_source_tx dur now inp fallback"

definition update_epg_source ::
    "(string \<Rightarrow> int option) \<Rightarrow> string \<Rightarrow> int \<Rightarrow> epg_input \<Rightarrow> int \<Rightarrow> epg_source dbm" where
  "update_epg_source dur now i inp fallback =
     bindD (get_epg_source i) (\<lambda>existing.
     bindD (liftD (if blank (ein_interval inp) then Inr (es_interval existing)
                   else parse_refresh_interval dur (ein_interval inp) fallback)) (\<lambda>interval.
     bindD (liftD (validate_epg_input inp)) (\<lambda>_.
     bindD (run_stmt (upd_epg i (\<lambda>r. r\<lparr>ep_name := trim_space (ein_name inp),
        ep_url := trim_space (ein_url inp),
        ep_enabled := (case ein_enabled inp of None \<Rightarrow> es_enabled existing | Some b \<Rightarrow> b),
        ep_seconds := interval div second_ns, ep_updated := now\<rparr>))) (\<lambda>_.
     get_epg_source i))))"

definition epg_source_channel_count :: "int \<Rightarrow> db \<Rightarrow> nat" where
  "epg_source_channel_count i d = length (filter (\<lambda>r. cr_epg r = Some i) (t_channels d))"

definition delete_epg_source :: "int \<Rightarrow> unit dbm" where
  "delete_epg_source i =
     bindD (queryD (epg_source_channel_count i)) (\<lambda>n.
     bindD (guardD (n = 0) (ErrConflict (''epg source used by '' @ show_nat n @ '' channel(s)''))) (\<lambda>_.
     bindD (stmt_rows (\<lambda>d. length (filter (\<lambda>r. ep_id r = i) (t_epgs d)))
              (del_epgs (\<lambda>r. ep_id r = i))) (\<lambda>k.
     guardD (k \<noteq> 0) ErrNotFound)))"

definition mark_epg_refresh :: "int \<Rightarrow> string \<Rightarrow> string \<Rightarrow> string \<Rightarrow> unit dbm" where
  "mark_epg_refresh i t msg now =
     run_stmt (upd_epg i (\<lambda>r. r\<lparr>ep_last := Some t, ep_error := msg, ep_updated := now\<rparr>))"

definition mark_epg_refresh_error :: "int \<Rightarrow> string \<Rightarrow> string \<Rightarrow> unit dbm" where
  "mark_epg_refresh_error i msg now =
     run_stmt (upd_epg i (\<lambda>r. r\<lparr>ep_error := msg, ep_updated := now\<rparr>))"

end
