(* ===== verification/StoreImport.thy ===== *)
theory StoreImport
  imports StoreLineup StoreEpg
begin

text \<open>
  \<^verbatim>\<open>internal/core/store/import.go\<close>: importing a playlist as a relay and a channel list as channels,
  each in one transaction.  The result of an import that fails is its error; \<^verbatim>\<open>ImportRelay\<close> returns a
  half-filled result beside the error, which no caller reads.  \<^verbatim>\<open>Duration.String\<close> of the default
  interval, which \<^verbatim>\<open>parseRefreshInterval\<close> reads back, is the parameter \<open>show_dur\<close>.
\<close>

record import_entry =
  ie_name :: string
  ie_logo :: string
  ie_url :: string
  ie_headers :: headers
  ie_group :: string
  ie_tvg :: string
  ie_epg :: "int option"

record import_relay_input =
  iri_name :: string
  iri_slug :: string
  iri_epg_urls :: "string list"
  iri_interval :: int
  iri_entries :: "import_entry list"

record import_relay_result =
  irr_relay :: int
  irr_slug :: string
  irr_created :: nat
  irr_reused :: nat
  irr_members :: nat
  irr_groups :: nat
  irr_epgs :: nat
  irr_epg_ids :: "int list"
  irr_updated :: "string list"

record import_channel_entry =
  ice_name :: string
  ice_url :: string
  ice_proxy :: string

record import_channels_result =
  icr_created :: nat
  icr_reused :: nat
  icr_added :: nat
  icr_updated :: "string list"
  icr_warnings :: "string list"

section \<open>Channel names\<close>

definition channel_name_key :: "string \<Rightarrow> string" where
  "channel_name_key name = to_lower (trim_space name)"

definition load_channel_name_keys :: "db \<Rightarrow> string list" where
  "load_channel_name_keys d = map (\<lambda>r. channel_name_key (cr_name r)) (t_channels d)"

text \<open>The n-th candidate is the base name, then \<open>base (2)\<close>, \<open>base (3)\<close>, ...; \<open>fuel\<close> bounds the tries.\<close>

definition name_candidate :: "string \<Rightarrow> nat \<Rightarrow> string" where
  "name_candidate base n = (if n \<le> 1 then base else base @ '' ('' @ show_nat n @ '')'')"

fun first_free_name :: "nat \<Rightarrow> string list \<Rightarrow> string \<Rightarrow> nat \<Rightarrow> string option" where
  "first_free_name 0 taken base n = None"
| "first_free_name (Suc fuel) taken base n =
     (if channel_name_key (name_candidate base n) \<in> set taken
      then first_free_name fuel taken base (Suc n) else Some (name_candidate base n))"

text \<open>One try more than there are taken keys is enough (\<open>first_free_name_some\<close>).\<close>

definition next_unique_channel_name :: "string list \<Rightarrow> string \<Rightarrow> string option" where
  "next_unique_channel_name taken base =
     (let b = (if blank base then ''Channel'' else trim_space base) in
      first_free_name (Suc (length taken)) taken b 1)"

section \<open>Finding channels\<close>

definition scan_row :: "channel_row option \<Rightarrow> store_err + channel" where
  "scan_row r = (case r of None \<Rightarrow> Inl ErrNotFound | Some c \<Rightarrow> Inr (scan_channel c))"

text \<open>\<^verbatim>\<open>findChannelByUpstreamURLTx\<close>: a channel whose primary URL this is comes first, then by id.\<close>

definition find_by_url_row :: "string \<Rightarrow> string \<Rightarrow> db \<Rightarrow> channel_row option" where
  "find_by_url_row raw px d =
     (let url = trim_space raw; p = trim_space px in
      if p = [] then
        (case stable_sort (\<lambda>a b. (if cr_url a = url then 0 else 1 :: int, cr_id a) <
                                (if cr_url b = url then 0 else 1, cr_id b))
           (filter (\<lambda>c. cr_url c = url \<or>
               list_ex (\<lambda>u. ur_channel u = cr_id c \<and> ur_url u = url \<and> ur_proxy u = None) (t_upstreams d))
             (t_channels d)) of [] \<Rightarrow> None | c # _ \<Rightarrow> Some c)
      else find (\<lambda>c. list_ex (\<lambda>u. ur_channel u = cr_id c \<and> ur_url u = url \<and> ur_proxy u = Some p)
                       (t_upstreams d)) (t_channels d))"

definition find_channel_by_upstream_url :: "string \<Rightarrow> string \<Rightarrow> channel dbm" where
  "find_channel_by_upstream_url raw px = (\<lambda>d. liftD (scan_row (find_by_url_row raw px d)) d)"

definition find_channel_by_name :: "string \<Rightarrow> channel dbm" where
  "find_channel_by_name name = (\<lambda>d. liftD (scan_row
     (find (\<lambda>c. to_lower (cr_name c) = to_lower (trim_space name)) (t_channels d))) d)"

text \<open>\<^verbatim>\<open>errors.Is(err, ErrNotFound)\<close>: a missing row is not an error of the import.\<close>

definition if_found :: "'v dbm \<Rightarrow> 'v option dbm" where
  "if_found m = (\<lambda>d. case m d of
       (Inl e, d') \<Rightarrow> (if e = ErrNotFound then (Inr None, d') else (Inl e, d'))
     | (Inr x, d') \<Rightarrow> (Inr (Some x), d'))"

section \<open>ImportRelay\<close>

definition resolve_import_channel_epg :: "import_entry \<Rightarrow> int list \<Rightarrow> int option \<times> string" where
  "resolve_import_channel_epg ent ids =
     (let tvg = trim_space (ie_tvg ent) in
      if tvg = [] \<or> ids = [] then (None, [])
      else if (case ie_epg ent of Some i \<Rightarrow> i \<in> set ids | None \<Rightarrow> False) then (ie_epg ent, tvg)
      else if length ids = 1 then (Some (hd ids), tvg)
      else (None, []))"

definition fill_channel_epg :: "string \<Rightarrow> string \<Rightarrow> int \<Rightarrow> string \<Rightarrow> unit dbm" where
  "fill_channel_epg now ch src tvg =
     run_stmt (upd_channel ch (\<lambda>r. r\<lparr>cr_epg := Some src, cr_tvg := tvg, cr_updated := now\<rparr>))"

definition import_epg :: "(string \<Rightarrow> int option) \<Rightarrow> (int \<Rightarrow> string) \<Rightarrow> string \<Rightarrow> int \<Rightarrow>
    int list \<times> nat \<Rightarrow> nat \<times> string \<Rightarrow> (int list \<times> nat) dbm" where
  "import_epg dur show_dur now interval st x = (case (st, x) of ((ids, n), (i, raw)) \<Rightarrow>
     if blank raw then okD (ids, n)
     else bindD (if_found (find_epg_source_by_url (trim_space raw))) (\<lambda>found.
       case found of
         Some s \<Rightarrow> okD (ids @ [es_id s], n)
       | None \<Rightarrow>
           bindD (create_epg_source_tx dur now \<lparr> ein_name = ''Imported EPG '' @ show_nat (i + 1),
             ein_url = trim_space raw, ein_enabled = None, ein_interval = show_dur interval \<rparr> interval) (\<lambda>s.
           okD (ids @ [es_id s], Suc n))))"

text \<open>The groups made so far by title, with the id and the next position of each.\<close>

type_synonym group_states = "(string \<times> int \<times> int) list"

definition ensure_group :: "int \<Rightarrow> group_states \<Rightarrow> string \<Rightarrow> (group_states \<times> int \<times> int) dbm" where
  "ensure_group rid gs raw =
     (let title = (if raw = [] then ''Channels'' else raw) in
      case map_of gs title of
        Some st \<Rightarrow> okD (gs, st)
      | None \<Rightarrow>
          bindD (queryD (\<lambda>d. next_ord (group_ords rid d))) (\<lambda>ord.
          bindD (insert_group_row rid title ord) (\<lambda>gid.
          okD (gs @ [(title, gid, 0)], gid, 0))))"

record import_state =
  im_taken :: "string list"
  im_groups :: group_states
  im_created :: nat
  im_reused :: nat
  im_members :: nat
  im_updated :: "string list"

text \<open>The channel of an entry: an existing one with the URL, or a new one under a free name.\<close>

definition import_channel :: "(nat \<Rightarrow> string) \<Rightarrow> string \<Rightarrow> int list \<Rightarrow> import_state \<Rightarrow> import_entry \<Rightarrow>
    (import_state \<times> string) dbm" where
  "import_channel uuid now ids st ent =
     (case resolve_import_channel_epg ent ids of (src, tvg) \<Rightarrow>
      bindD (if_found (find_channel_by_upstream_url (ie_url ent) [])) (\<lambda>found.
      case found of
        None \<Rightarrow>
          bindD (liftD (case next_unique_channel_name (im_taken st) (ie_name ent) of
              None \<Rightarrow> Inl (ErrDb ''no free name'') | Some n \<Rightarrow> Inr n)) (\<lambda>name.
          bindD (create_channel_tx uuid now \<lparr> cin_name = name, cin_logo = ie_logo ent,
              cin_url = ie_url ent, cin_upstreams = None, cin_policy = [], cin_fixed = [],
              cin_headers = Some (ie_headers ent), cin_transcode = None,
              cin_epg = (if src \<noteq> None \<and> tvg \<noteq> [] then src else None),
              cin_tvg = (if src \<noteq> None \<and> tvg \<noteq> [] then Some tvg else None) \<rparr>) (\<lambda>ch.
          okD (st\<lparr>im_taken := channel_name_key name # im_taken st, im_created := Suc (im_created st)\<rparr>,
               ch_id ch)))
      | Some ch \<Rightarrow>
          (case src of
             Some e \<Rightarrow>
               if \<not> has_mapping (ch_epg ch) (ch_tvg ch) \<and> tvg \<noteq> [] then
                 bindD (fill_channel_epg now (ch_id ch) e tvg) (\<lambda>_.
                 okD (st\<lparr>im_reused := Suc (im_reused st), im_updated := ch_id ch # im_updated st\<rparr>, ch_id ch))
               else okD (st\<lparr>im_reused := Suc (im_reused st)\<rparr>, ch_id ch)
           | None \<Rightarrow> okD (st\<lparr>im_reused := Suc (im_reused st)\<rparr>, ch_id ch))))"

definition import_entry_step :: "(nat \<Rightarrow> string) \<Rightarrow> string \<Rightarrow> int \<Rightarrow> int list \<Rightarrow> import_state \<Rightarrow>
    import_entry \<Rightarrow> import_state dbm" where
  "import_entry_step uuid now rid ids st ent =
     bindD (import_channel uuid now ids st ent) (\<lambda>(st', ch).
     bindD (ensure_group rid (im_groups st') (ie_group ent)) (\<lambda>(gs, gid, ord).
     bindD (add_membership_tx rid \<lparr> min_channel = ch, min_group = gid, min_number = 0,
              min_sort = Some ord \<rparr>) (\<lambda>_.
     okD (st'\<lparr>im_members := Suc (im_members st'),
        im_groups := map (\<lambda>(t, g, p). if g = gid then (t, g, p + 1) else (t, g, p)) gs\<rparr>))))"

definition sorted_ids :: "string list \<Rightarrow> string list" where
  "sorted_ids ids = stable_sort (\<lambda>a b. a < b) (remdups ids)"

definition import_relay_tx :: "(nat \<Rightarrow> string) \<Rightarrow> (string \<Rightarrow> int option) \<Rightarrow> (int \<Rightarrow> string) \<Rightarrow> string \<Rightarrow>
    string \<Rightarrow> string \<Rightarrow> int \<Rightarrow> import_relay_input \<Rightarrow> import_relay_result dbm" where
  "import_relay_tx uuid dur show_dur now name slug interval inp =
     bindD (insert_relay_row name slug now) (\<lambda>rid.
     bindD (foldD (import_epg dur show_dur now interval) ([], 0) (enumerate 0 (iri_epg_urls inp))) (\<lambda>(ids, n).
     bindD (queryD load_channel_name_keys) (\<lambda>taken.
     bindD (foldD (import_entry_step uuid now rid ids)
        \<lparr> im_taken = taken, im_groups = [], im_created = 0, im_reused = 0, im_members = 0,
          im_updated = [] \<rparr> (iri_entries inp)) (\<lambda>st.
     bindD (if im_groups st = [] then ensure_group rid [] ''Channels''
            else okD (im_groups st, 0, 0)) (\<lambda>(gs, _).
     okD \<lparr> irr_relay = rid, irr_slug = slug, irr_created = im_created st, irr_reused = im_reused st,
           irr_members = im_members st, irr_groups = length gs, irr_epgs = n, irr_epg_ids = ids,
           irr_updated = sorted_ids (im_updated st) \<rparr>)))))"

definition import_relay :: "(nat \<Rightarrow> string) \<Rightarrow> (string \<Rightarrow> int option) \<Rightarrow> (int \<Rightarrow> string) \<Rightarrow> string \<Rightarrow>
    import_relay_input \<Rightarrow> import_relay_result dbm" where
  "import_relay uuid dur show_dur now inp =
     (let name = (if blank (iri_name inp) then ''Imported Relay'' else trim_space (iri_name inp));
          slug0 = normalize_slug (iri_slug inp);
          slug = (if slug0 = [] then normalize_slug name else slug0);
          interval = (if iri_interval inp \<le> 0 then hour_ns else iri_interval inp) in
      bindD (liftD (validate_slug slug)) (\<lambda>_.
      with_tx (import_relay_tx uuid dur show_dur now name slug interval inp)))"

section \<open>ImportChannels\<close>

text \<open>The \<^verbatim>\<open>%q\<close> of a name without bytes to escape.\<close>

definition quoted :: "string \<Rightarrow> string" where
  "quoted s = [CHR 0x22] @ s @ [CHR 0x22]"

text \<open>The cache of proxies by lower-case name, threaded through the loop.\<close>

definition resolve_import_proxy :: "(string \<times> proxy) list \<Rightarrow> string \<Rightarrow>
    ((string \<times> proxy) list \<times> proxy option) dbm" where
  "resolve_import_proxy cache raw =
     (let name = trim_space raw; key = to_lower name in
      if name = [] then okD (cache, None)
      else case map_of cache key of
          Some p \<Rightarrow> okD (cache, Some p)
        | None \<Rightarrow> bindD (if_found (find_proxy_by_name name)) (\<lambda>found.
            case found of
              None \<Rightarrow> failD (ErrValidation (''unknown proxy '' @ quoted name))
            | Some p \<Rightarrow> okD ((key, p) # cache, Some p)))"

definition proxied_row :: "string \<Rightarrow> proxy \<Rightarrow> channel_upstream" where
  "proxied_row raw p = \<lparr> cu_id = [], cu_url = raw, cu_proxy_id = prx_id p, cu_headers = [],
     cu_proxy = Some (snapshot_proxy p) \<rparr>"

fun first_found :: "(string \<Rightarrow> channel dbm) \<Rightarrow> string list \<Rightarrow> channel dbm" where
  "first_found f [] = failD ErrNotFound"
| "first_found f (u # us) = bindD (if_found (f u)) (\<lambda>r. case r of Some c \<Rightarrow> okD c | None \<Rightarrow> first_found f us)"

definition find_import_channel :: "string \<Rightarrow> proxy option \<Rightarrow> channel dbm" where
  "find_import_channel raw px =
     bindD (if_found (find_channel_by_upstream_url raw (case px of None \<Rightarrow> [] | Some p \<Rightarrow> prx_id p))) (\<lambda>r.
     case r of
       Some c \<Rightarrow> okD c
     | None \<Rightarrow>
         (case px of
            None \<Rightarrow> failD ErrNotFound
          | Some p \<Rightarrow> first_found (\<lambda>u. find_channel_by_upstream_url u [])
                        (resolved_for_dedupe (proxied_row raw p))))"

definition append_channel_upstream :: "(nat \<Rightarrow> string) \<Rightarrow> string \<Rightarrow> string \<Rightarrow> string \<Rightarrow> proxy option \<Rightarrow> bool dbm" where
  "append_channel_upstream uuid now ch raw px =
     bindD (normalize_channel_upstream uuid \<lparr> cu_id = [], cu_url = raw,
        cu_proxy_id = (case px of None \<Rightarrow> [] | Some p \<Rightarrow> prx_id p), cu_headers = [], cu_proxy = None \<rparr> []) (\<lambda>item0.
     (let item = (case px of Some p \<Rightarrow> if cu_proxy_id item0 \<noteq> [] then item0\<lparr>cu_proxy := Some (snapshot_proxy p)\<rparr> else item0
                   | None \<Rightarrow> item0) in
      bindD (queryD (\<lambda>d. upstreams_of d ch)) (\<lambda>ups.
      if list_ex (\<lambda>u. cu_url u = cu_url item \<and> cu_proxy_id u = cu_proxy_id item \<or>
           list_ex (\<lambda>ru. ru \<in> set (resolved_for_dedupe item)) (resolved_for_dedupe u)) ups
      then okD False
      else bindD (queryD (\<lambda>d. next_ord (map ur_sort (filter (\<lambda>u. ur_channel u = ch) (t_upstreams d))))) (\<lambda>nxt.
        bindD (mapErrD channel_conflict (run_stmt (ins_upstream \<lparr> ur_id = cu_id item, ur_channel = ch,
           ur_url = cu_url item, ur_headers = normalize_headers (cu_headers item), ur_sort = nxt,
           ur_proxy = null_if_empty (cu_proxy_id item) \<rparr>))) (\<lambda>_.
        bindD (run_stmt (upd_channel ch (\<lambda>r. r\<lparr>cr_updated := now\<rparr>))) (\<lambda>_.
        okD True))))))"

type_synonym import_channels_state = "(string \<times> proxy) list \<times> import_channels_result"

definition import_channels_step :: "(nat \<Rightarrow> string) \<Rightarrow> string \<Rightarrow> import_channels_state \<Rightarrow>
    import_channel_entry \<Rightarrow> import_channels_state dbm" where
  "import_channels_step uuid now st ent = (case st of (cache, res) \<Rightarrow>
     (let name = trim_space (ice_name ent); raw = trim_space (ice_url ent) in
      bindD (resolve_import_proxy cache (ice_proxy ent)) (\<lambda>(cache', px).
      bindD (if_found (find_import_channel raw px)) (\<lambda>owner.
      case owner of
        Some o' \<Rightarrow>
          okD (cache', if channel_name_key (ch_name o') = channel_name_key name
            then res\<lparr>icr_reused := Suc (icr_reused res)\<rparr>
            else res\<lparr>icr_warnings := icr_warnings res @ [''url already used by '' @ ch_name o']\<rparr>)
      | None \<Rightarrow>
          bindD (if_found (find_channel_by_name name)) (\<lambda>existing.
          case existing of
            Some c \<Rightarrow>
              bindD (append_channel_upstream uuid now (ch_id c) raw px) (\<lambda>added.
              okD (cache', if added
                then res\<lparr>icr_added := Suc (icr_added res), icr_updated := ch_id c # icr_updated res\<rparr>
                else res\<lparr>icr_reused := Suc (icr_reused res)\<rparr>))
          | None \<Rightarrow>
              bindD (create_channel_tx uuid now \<lparr> cin_name = name, cin_logo = [], cin_url = [],
                cin_upstreams = Some [\<lparr> cu_id = [], cu_url = raw,
                  cu_proxy_id = (case px of None \<Rightarrow> [] | Some p \<Rightarrow> prx_id p), cu_headers = [], cu_proxy = None \<rparr>],
                cin_policy = [], cin_fixed = [], cin_headers = None, cin_transcode = None, cin_epg = None,
                cin_tvg = None \<rparr>) (\<lambda>_.
              okD (cache', res\<lparr>icr_created := Suc (icr_created res)\<rparr>)))))))"

definition import_channels :: "(nat \<Rightarrow> string) \<Rightarrow> string \<Rightarrow> import_channel_entry list \<Rightarrow>
    import_channels_result dbm" where
  "import_channels uuid now entries =
     bindD (with_tx (foldD (import_channels_step uuid now)
        ([], \<lparr> icr_created = 0, icr_reused = 0, icr_added = 0, icr_updated = [], icr_warnings = [] \<rparr>)
        entries)) (\<lambda>(_, res).
     okD (res\<lparr>icr_updated := sorted_ids (icr_updated res)\<rparr>))"

end
