(* ===== verification/StoreBackup.thy ===== *)
theory StoreBackup
  imports StoreImport
begin

text \<open>
  \<^verbatim>\<open>internal/core/store/backup.go\<close>: the portable snapshot of the library and its restore in one
  transaction.  \<^verbatim>\<open>uuid.Parse\<close> is the parameter \<open>uuid_ok\<close>; the wrapping of an error with the position
  of the item it concerns is not modelled (the error itself is).
\<close>

record backup_proxy =
  bp_id :: string
  bp_name :: string
  bp_policy :: string
  bp_fixed :: string
  bp_servers :: "proxy_server list"

record backup_epg =
  be_id :: int
  be_name :: string
  be_url :: string
  be_enabled :: bool
  be_seconds :: int

record backup_upstream =
  bu_id :: string
  bu_url :: string
  bu_proxy_id :: string
  bu_proxy_name :: string
  bu_headers :: headers

record backup_channel =
  bc_id :: string
  bc_name :: string
  bc_logo :: string
  bc_upstreams :: "backup_upstream list"
  bc_policy :: string
  bc_fixed :: string
  bc_headers :: headers
  bc_transcode :: bool
  bc_epg :: "int option"
  bc_tvg :: string

record backup_group =
  bg_id :: int
  bg_name :: string
  bg_sort :: int

record backup_member =
  bm_id :: int
  bm_group :: int
  bm_channel :: string
  bm_number :: int
  bm_sort :: int

record backup_relay =
  br_id :: int
  br_name :: string
  br_slug :: string
  br_groups :: "backup_group list"
  br_members :: "backup_member list"

record library_backup =
  lb_version :: int
  lb_proxies :: "backup_proxy list"
  lb_epgs :: "backup_epg list"
  lb_channels :: "backup_channel list"
  lb_relays :: "backup_relay list"

record restore_result =
  rs_channel_ids :: "string list"
  rs_removed_channels :: "string list"
  rs_relays :: "(int \<times> string) list"
  rs_removed_relays :: "(int \<times> string) list"
  rs_old_epgs :: "int list"
  rs_refresh_epgs :: "int list"

definition library_backup_version :: int where "library_backup_version = 1"
definition default_backup_seconds :: int where "default_backup_seconds = 3600"

section \<open>Export\<close>

definition export_upstream :: "(string \<times> string) list \<Rightarrow> channel_upstream \<Rightarrow> backup_upstream" where
  "export_upstream names u = \<lparr> bu_id = cu_id u, bu_url = cu_url u, bu_proxy_id = cu_proxy_id u,
     bu_proxy_name = coalesce (map_of names (cu_proxy_id u)), bu_headers = cu_headers u \<rparr>"

definition export_channel :: "(string \<times> string) list \<Rightarrow> channel \<Rightarrow> backup_channel" where
  "export_channel names c = \<lparr> bc_id = ch_id c, bc_name = ch_name c, bc_logo = ch_logo c,
     bc_upstreams = map (export_upstream names) (ch_upstreams c), bc_policy = ch_policy c,
     bc_fixed = ch_fixed c, bc_headers = ch_headers c, bc_transcode = ch_transcode c,
     bc_epg = ch_epg c, bc_tvg = ch_tvg c \<rparr>"

definition export_proxy :: "proxy \<Rightarrow> backup_proxy" where
  "export_proxy p = \<lparr> bp_id = prx_id p, bp_name = prx_name p, bp_policy = prx_policy p,
     bp_fixed = prx_fixed p, bp_servers = prx_servers p \<rparr>"

definition export_epg :: "epg_source \<Rightarrow> backup_epg" where
  "export_epg s = \<lparr> be_id = es_id s, be_name = es_name s, be_url = es_url s,
     be_enabled = es_enabled s, be_seconds = es_interval s div second_ns \<rparr>"

definition export_relay :: "db \<Rightarrow> relay_row \<Rightarrow> backup_relay" where
  "export_relay d r = \<lparr> br_id = rl_id r, br_name = rl_name r, br_slug = rl_slug r,
     br_groups = map (\<lambda>g. \<lparr> bg_id = gr_id g, bg_name = gr_name g, bg_sort = gr_sort g \<rparr>)
       (list_relay_groups (rl_id r) d),
     br_members = map (\<lambda>m. \<lparr> bm_id = ms_id m, bm_group = ms_group m, bm_channel = ms_channel m,
         bm_number = ms_number m, bm_sort = ms_sort m \<rparr>) (list_relay_memberships (rl_id r) d) \<rparr>"

definition export_library :: "(nat \<Rightarrow> nat) \<Rightarrow> db \<Rightarrow> library_backup" where
  "export_library low d =
     (let ps = list_proxies low d;
          names = map (\<lambda>p. (prx_id p, prx_name p)) (rev ps) in
      \<lparr> lb_version = library_backup_version,
        lb_proxies = map export_proxy ps,
        lb_epgs = map export_epg (list_epg_sources d),
        lb_channels = map (export_channel names) (list_channels low d),
        lb_relays = map (export_relay d) (list_relays d) \<rparr>)"

section \<open>Restoring one item\<close>

definition restore_proxy :: "(nat \<Rightarrow> string) \<Rightarrow> (string \<Rightarrow> bool) \<Rightarrow> string \<Rightarrow> backup_proxy \<Rightarrow>
    (string \<times> string) dbm" where
  "restore_proxy uuid uuid_ok now b =
     (let i = trim_space (bp_id b) in
      bindD (guardD (uuid_ok i) (ErrValidation ''proxy id is required'')) (\<lambda>_.
      bindD (resolve_proxy_spec uuid \<lparr> pin_name = bp_name b, pin_policy = bp_policy b,
         pin_fixed = bp_fixed b, pin_servers = Some (bp_servers b) \<rparr> None) (\<lambda>spec.
      bindD (insert_proxy_row i spec now) (\<lambda>_.
      bindD (insert_proxy_servers i spec) (\<lambda>_.
      okD (i, psp_name spec))))))"

definition restore_epg :: "string \<Rightarrow> backup_epg \<Rightarrow> unit dbm" where
  "restore_epg now b =
     (let seconds = (if be_seconds b \<le> 0 then default_backup_seconds else be_seconds b) in
      bindD (guardD (0 < be_id b) (ErrValidation ''epg source id is required'')) (\<lambda>_.
      bindD (guardD (60 \<le> seconds) (ErrValidation ''refresh_interval must be >= 1m'')) (\<lambda>_.
      bindD (liftD (validate_epg_input \<lparr> ein_name = be_name b, ein_url = be_url b,
         ein_enabled = None, ein_interval = [] \<rparr>)) (\<lambda>_.
      mapErrD (on_unique (ErrConflict ''epg source already exists''))
        (run_stmt (ins_epg \<lparr> ep_id = be_id b, ep_name = trim_space (be_name b),
           ep_url = trim_space (be_url b), ep_enabled = be_enabled b, ep_seconds = seconds,
           ep_last = None, ep_error = [], ep_created = now, ep_updated = now \<rparr>))))))"

definition is_http_url :: "string \<Rightarrow> bool" where
  "is_http_url raw =
     (let s = to_lower (trim_space raw) in has_prefix s ''http://'' \<or> has_prefix s ''https://'')"

text \<open>A proxied row finds its proxy by id, then by name; a full URL may go without one.\<close>

definition rematch_upstream :: "string list \<Rightarrow> (string \<times> string) list \<Rightarrow> backup_upstream \<Rightarrow>
    store_err + channel_upstream" where
  "rematch_upstream ids by_name u =
     (let pid = trim_space (bu_proxy_id u); pname = trim_space (bu_proxy_name u);
          row = (\<lambda>p. \<lparr> cu_id = bu_id u, cu_url = bu_url u, cu_proxy_id = p, cu_headers = bu_headers u,
                      cu_proxy = None \<rparr>);
          named = (if pname = [] then None else map_of by_name (to_lower pname)) in
      if pid \<noteq> [] \<and> pid \<in> set ids then Inr (row pid)
      else case named of
          Some i \<Rightarrow> Inr (row i)
        | None \<Rightarrow>
            if (pid \<noteq> [] \<or> pname \<noteq> []) \<and> \<not> is_http_url (bu_url u)
            then Inl (ErrValidation (''unknown proxy '' @ (if pname = [] then pid else pname)))
            else Inr (row []))"

fun rematch_upstreams :: "string list \<Rightarrow> (string \<times> string) list \<Rightarrow> backup_upstream list \<Rightarrow>
    store_err + channel_upstream list" where
  "rematch_upstreams ids by_name [] = Inr []"
| "rematch_upstreams ids by_name (u # us) =
     bindE (rematch_upstream ids by_name u) (\<lambda>r.
     bindE (rematch_upstreams ids by_name us) (\<lambda>rs. Inr (r # rs)))"

definition restore_channel_epg :: "backup_channel \<Rightarrow> db \<Rightarrow> int option \<times> string" where
  "restore_channel_epg b d = (case bc_epg b of
       None \<Rightarrow> (None, [])
     | Some e \<Rightarrow> if e \<in> set (map ep_id (t_epgs d)) then (Some e, trim_space (bc_tvg b)) else (None, []))"

definition restore_channel :: "(nat \<Rightarrow> string) \<Rightarrow> (string \<Rightarrow> bool) \<Rightarrow> string \<Rightarrow> string list \<Rightarrow>
    (string \<times> string) list \<Rightarrow> backup_channel \<Rightarrow> string dbm" where
  "restore_channel uuid uuid_ok now ids by_name b =
     (let i = trim_space (bc_id b) in
      bindD (guardD (uuid_ok i) (ErrValidation ''channel id is required'')) (\<lambda>_.
      bindD (liftD (rematch_upstreams ids by_name (bc_upstreams b))) (\<lambda>ups.
      bindD (queryD (restore_channel_epg b)) (\<lambda>(epg, tvg).
      bindD (insert_channel_tx uuid now i \<lparr> cin_name = bc_name b, cin_logo = bc_logo b, cin_url = [],
         cin_upstreams = Some ups, cin_policy = bc_policy b, cin_fixed = bc_fixed b,
         cin_headers = Some (bc_headers b), cin_transcode = Some (bc_transcode b), cin_epg = epg,
         cin_tvg = Some tvg \<rparr>) (\<lambda>_.
      okD i)))))"

definition restore_group :: "int \<Rightarrow> int list \<times> int \<Rightarrow> backup_group \<Rightarrow> (int list \<times> int) dbm" where
  "restore_group rid st g =
     (let name = trim_space (bg_name g) in
      bindD (guardD (0 < bg_id g) (ErrValidation ''group id is required'')) (\<lambda>_.
      bindD (guardD (name \<noteq> []) (ErrValidation ''group name is required'')) (\<lambda>_.
      bindD (run_stmt (ins_group \<lparr> gr_id = bg_id g, gr_relay = rid, gr_name = name,
                gr_sort = bg_sort g \<rparr>)) (\<lambda>_.
      okD (bg_id g # fst st, max (snd st) (bg_id g))))))"

definition restore_member :: "int \<Rightarrow> int list \<Rightarrow> int \<Rightarrow> backup_member \<Rightarrow> int dbm" where
  "restore_member rid groups hi m =
     bindD (guardD (0 < bm_id m) (ErrValidation ''membership id is required'')) (\<lambda>_.
     bindD (guardD (\<not> blank (bm_channel m)) (ErrValidation ''channel_id is required'')) (\<lambda>_.
     bindD (guardD (bm_group m \<in> set groups) (ErrValidation ''group not found'')) (\<lambda>_.
     bindD (\<lambda>d. guardD (bm_channel m \<in> set (map cr_id (t_channels d))) (ErrValidation ''channel not found'') d) (\<lambda>_.
     bindD (mapErrD (on_unique already_in_relay) (run_stmt (ins_member \<lparr> mb_id = bm_id m,
        mb_relay = rid, mb_group = bm_group m, mb_channel = bm_channel m, mb_number = bm_number m,
        mb_sort = bm_sort m \<rparr>))) (\<lambda>_.
     okD (max hi (bm_id m)))))))"

definition restore_relay :: "string \<Rightarrow> backup_relay \<Rightarrow> ((int \<times> string) \<times> int \<times> int) dbm" where
  "restore_relay now b =
     (let name = trim_space (br_name b); slug0 = normalize_slug (br_slug b);
          slug = (if slug0 = [] then normalize_slug name else slug0) in
      bindD (guardD (0 < br_id b) (ErrValidation ''relay id is required'')) (\<lambda>_.
      bindD (guardD (name \<noteq> []) (ErrValidation ''name is required'')) (\<lambda>_.
      bindD (liftD (validate_slug slug)) (\<lambda>_.
      bindD (mapErrD (on_unique (ErrConflict ''slug already exists''))
         (run_stmt (ins_relay \<lparr> rl_id = br_id b, rl_name = name, rl_slug = slug, rl_created = now,
            rl_updated = now \<rparr>))) (\<lambda>_.
      bindD (foldD (restore_group (br_id b)) ([], 0) (br_groups b)) (\<lambda>(groups, gmax).
      bindD (foldD (restore_member (br_id b) groups) 0 (br_members b)) (\<lambda>mmax.
      okD ((br_id b, slug), gmax, mmax))))))))"

section \<open>RestoreLibrary\<close>

definition except_strings :: "string list \<Rightarrow> string list \<Rightarrow> string list" where
  "except_strings old keep = filter (\<lambda>i. i \<notin> set keep) old"

definition except_relays_by_slug :: "(int \<times> string) list \<Rightarrow> (int \<times> string) list \<Rightarrow> (int \<times> string) list" where
  "except_relays_by_slug old keep = filter (\<lambda>r. snd r \<notin> set (map snd keep)) old"

definition list_channel_ids :: "db \<Rightarrow> string list" where
  "list_channel_ids d = map cr_id (t_channels d)"

definition list_relay_id_slugs :: "db \<Rightarrow> (int \<times> string) list" where
  "list_relay_id_slugs d = map (\<lambda>r. (rl_id r, rl_slug r)) (t_relays d)"

definition list_epg_source_ids :: "db \<Rightarrow> int list" where
  "list_epg_source_ids d = map ep_id (t_epgs d)"

text \<open>\<^verbatim>\<open>resetAutoID\<close> on the four sequences.\<close>

definition reset_auto_ids :: "int \<Rightarrow> int \<Rightarrow> int \<Rightarrow> int \<Rightarrow> db \<Rightarrow> db" where
  "reset_auto_ids e r g m d = d\<lparr>q_epgs := max 0 e, q_relays := max 0 r, q_groups := max 0 g,
     q_members := max 0 m\<rparr>"

definition wipe :: "unit dbm" where
  "wipe = bindD (run_stmt (del_relays (\<lambda>_. True))) (\<lambda>_.
          bindD (run_stmt (del_channels (\<lambda>_. True))) (\<lambda>_.
          bindD (run_stmt (del_proxies (\<lambda>_. True))) (\<lambda>_.
          run_stmt (del_epgs (\<lambda>_. True)))))"

definition restore_library_tx :: "(nat \<Rightarrow> string) \<Rightarrow> (string \<Rightarrow> bool) \<Rightarrow> string \<Rightarrow> library_backup \<Rightarrow>
    restore_result dbm" where
  "restore_library_tx uuid uuid_ok now b =
     bindD (queryD (\<lambda>d. (list_channel_ids d, list_relay_id_slugs d, list_epg_source_ids d))) (\<lambda>(old_ch, old_rl, old_epg).
     bindD wipe (\<lambda>_.
     bindD (foldD (\<lambda>(ids, by_name) p. bindD (restore_proxy uuid uuid_ok now p) (\<lambda>(i, name).
              okD (i # ids, (to_lower name, i) # by_name))) ([], []) (lb_proxies b)) (\<lambda>(ids, by_name).
     bindD (foldD (\<lambda>hi s. bindD (restore_epg now s) (\<lambda>_. okD (max hi (be_id s)))) 0 (lb_epgs b)) (\<lambda>max_epg.
     bindD (foldD (\<lambda>acc c. bindD (restore_channel uuid uuid_ok now ids by_name c) (\<lambda>i. okD (acc @ [i])))
              [] (lb_channels b)) (\<lambda>chs.
     bindD (foldD (\<lambda>(rs, mr, mg, mm) r. bindD (restore_relay now r) (\<lambda>(x, g, m).
              okD (rs @ [x], max mr (fst x), max mg g, max mm m))) ([], 0, 0, 0) (lb_relays b)) (\<lambda>(rs, mr, mg, mm).
     bindD (run_stmt (reset_auto_ids max_epg mr mg mm)) (\<lambda>_.
     okD \<lparr> rs_channel_ids = chs, rs_removed_channels = except_strings old_ch chs, rs_relays = rs,
           rs_removed_relays = except_relays_by_slug old_rl rs, rs_old_epgs = old_epg,
           rs_refresh_epgs = map be_id (filter be_enabled (lb_epgs b)) \<rparr>)))))))"

definition restore_library :: "(nat \<Rightarrow> string) \<Rightarrow> (string \<Rightarrow> bool) \<Rightarrow> string \<Rightarrow> library_backup \<Rightarrow>
    restore_result dbm" where
  "restore_library uuid uuid_ok now b =
     bindD (guardD (lb_version b = library_backup_version) (ErrValidation ''unsupported backup version'')) (\<lambda>_.
     with_tx (restore_library_tx uuid uuid_ok now b))"

end
