(* ===== verification/StoreFrames.thy ===== *)
theory StoreFrames
  imports StoreLayout StoreProxyUpdate StoreSettings StoreBackup
begin

text \<open>
  What the operations of the store leave alone.  A view is a part of the tables; \<open>frames f m\<close> says
  that \<open>m\<close> does not change the view \<open>f\<close>, whether it succeeds or fails.  The lineup view (groups and
  memberships) is untouched by the channel, proxy, EPG and settings operations; the channel view by
  the relay, EPG and settings operations.
\<close>

definition frames :: "(db \<Rightarrow> 'a) \<Rightarrow> 'v dbm \<Rightarrow> bool" where
  "frames f m \<longleftrightarrow> (\<forall>d r d'. m d = (r, d') \<longrightarrow> f d' = f d)"

named_theorems frame_stmts "the statements a view does not see"
named_theorems frame_ops "the operations a view does not see"

section \<open>Views\<close>

locale db_view =
  fixes f :: "db \<Rightarrow> 'a"
  assumes f_fresh: "f (d\<lparr>fresh := n\<rparr>) = f d"
begin

lemma view_same: "same_db d d' \<Longrightarrow> f d' = f d"
  unfolding same_db_def by (metis f_fresh)

lemma frames_ro: "read_only m \<Longrightarrow> frames f m"
  unfolding frames_def read_only_def using view_same by blast

lemma frames_bindD: "frames f m \<Longrightarrow> (\<And>x. frames f (g x)) \<Longrightarrow> frames f (bindD m g)"
  unfolding frames_def bindD_def by (auto split: prod.splits sum.splits)

lemma frames_mapErrD: "frames f m \<Longrightarrow> frames f (mapErrD g m)"
  unfolding frames_def mapErrD_def by (auto split: prod.splits sum.splits)

lemma frames_if_found: "frames f m \<Longrightarrow> frames f (if_found m)"
  unfolding frames_def if_found_def by (auto split: prod.splits sum.splits if_splits)

lemma frames_with_tx: "frames f m \<Longrightarrow> frames f (with_tx m)"
  unfolding frames_def with_tx_def by (auto simp: f_fresh split: prod.splits sum.splits)

lemma frames_foldD: "(\<And>a x. frames f (g a x)) \<Longrightarrow> frames f (foldD g acc xs)"
proof (induction xs arbitrary: acc)
  case Nil
  then show ?case by (simp add: frames_def okD_def)
next
  case (Cons x xs)
  then show ?case by (simp add: frames_bindD)
qed

lemma frames_if: "frames f m \<Longrightarrow> frames f m' \<Longrightarrow> frames f (if b then m else m')"
  by simp

lemma frames_prod: "(\<And>a b. frames f (g a b)) \<Longrightarrow> frames f (case_prod g x)"
  by (simp split: prod.splits)

lemma frames_prod2: "(\<And>a b. frames f (g a b y)) \<Longrightarrow> frames f (case_prod g x y)"
  by (simp split: prod.splits)

lemma frames_option: "frames f m \<Longrightarrow> (\<And>y. frames f (g y)) \<Longrightarrow> frames f (case_option m g x)"
  by (simp split: option.splits)

lemma frames_run_stmt: "(\<And>d. f (g d) = f d) \<Longrightarrow> frames f (run_stmt g)"
  unfolding frames_def run_stmt_def by (auto split: option.splits)

lemma frames_stmt_rows: "(\<And>d. f (g d) = f d) \<Longrightarrow> frames f (stmt_rows n g)"
  unfolding frames_def stmt_rows_def bindD_def run_stmt_def okD_def
  by (auto split: option.splits)

lemmas frame_intros = frames_bindD frames_mapErrD frames_with_tx frames_foldD frames_if frames_prod
  frames_prod2 frames_option frames_if_found frames_run_stmt frames_stmt_rows

end

definition lineup_view :: "db \<Rightarrow> group_row list \<times> member_row list" where
  "lineup_view d = (t_groups d, t_members d)"

interpretation lineup: db_view lineup_view
  by unfold_locales (simp add: lineup_view_def)

interpretation chan: db_view t_channels
  by unfold_locales simp

section \<open>Statements\<close>

lemma lineup_view_stmts [frame_stmts]:
  "lineup_view (ins_channel c d) = lineup_view d" "lineup_view (upd_channel i g d) = lineup_view d"
  "lineup_view (del_channels p d) = lineup_view d" "lineup_view (ins_upstream u d) = lineup_view d"
  "lineup_view (del_upstreams i d) = lineup_view d" "lineup_view (ins_proxy x d) = lineup_view d"
  "lineup_view (upd_proxy i h d) = lineup_view d" "lineup_view (del_proxies q d) = lineup_view d"
  "lineup_view (ins_server s d) = lineup_view d" "lineup_view (del_servers i d) = lineup_view d"
  "lineup_view (ins_epg e d) = lineup_view d" "lineup_view (upd_epg n k d) = lineup_view d"
  "lineup_view (del_epgs v d) = lineup_view d" "lineup_view (upd_settings w d) = lineup_view d"
  "lineup_view (touch_channels ids now d) = lineup_view d"
  "lineup_view (ins_relay r d) = lineup_view d" "lineup_view (upd_relay n l d) = lineup_view d"
  by (simp_all add: lineup_view_def ins_channel_def upd_channel_def del_channels_def ins_upstream_def
      del_upstreams_def ins_proxy_def upd_proxy_def del_proxies_def ins_server_def del_servers_def
      ins_epg_def upd_epg_def del_epgs_def upd_settings_def touch_channels_def ins_relay_def
      upd_relay_def Let_def)

lemma chan_view_stmts [frame_stmts]:
  "t_channels (ins_proxy x d) = t_channels d"
  "t_channels (upd_proxy i h d) = t_channels d" "t_channels (del_proxies q d) = t_channels d"
  "t_channels (ins_server s d) = t_channels d" "t_channels (del_servers i d) = t_channels d"
  "t_channels (ins_epg e d) = t_channels d" "t_channels (upd_epg n k d) = t_channels d"
  "t_channels (del_epgs v d) = t_channels d" "t_channels (upd_settings w d) = t_channels d"
  "t_channels (ins_upstream u d) = t_channels d" "t_channels (del_upstreams i d) = t_channels d"
  "t_channels (ins_relay r d) = t_channels d" "t_channels (upd_relay n l d) = t_channels d"
  "t_channels (del_relays y d) = t_channels d" "t_channels (ins_group g d) = t_channels d"
  "t_channels (upd_groups gp gf d) = t_channels d" "t_channels (del_groups gp d) = t_channels d"
  "t_channels (ins_member m d) = t_channels d" "t_channels (upd_members mp mf d) = t_channels d"
  "t_channels (del_members mp d) = t_channels d" "t_channels (reset_auto_ids a b c' e' d) = t_channels d"
  by (simp_all add: ins_upstream_def
      del_upstreams_def ins_proxy_def upd_proxy_def del_proxies_def ins_server_def del_servers_def
      ins_epg_def upd_epg_def del_epgs_def upd_settings_def ins_relay_def upd_relay_def del_relays_def
      ins_group_def upd_groups_def del_groups_def ins_member_def upd_members_def del_members_def
      reset_auto_ids_def Let_def)

section \<open>Reading operations\<close>

lemma ro_if_found [ro_rules]: "read_only m \<Longrightarrow> read_only (if_found m)"
  unfolding read_only_def if_found_def by (auto split: prod.splits sum.splits if_splits)

lemma ro_option [ro_rules]: "read_only m \<Longrightarrow> (\<And>y. read_only (g y)) \<Longrightarrow> read_only (case_option m g x)"
  by (simp split: option.splits)

lemma ro_find_row [ro_rules]:
  "read_only (\<lambda>d. case q d of None \<Rightarrow> (Inl e, d) | Some r \<Rightarrow> (Inr r, d))"
  by (auto simp: read_only_def split: option.splits)

lemma ro_reads [ro_rules]:
  "read_only (get_channel i)" "read_only (get_epg_source n)" "read_only (find_epg_source_by_url raw)"
  "read_only (get_relay n)" "read_only get_transcode_settings" "read_only get_brand_settings"
  "read_only (find_channel_by_upstream_url raw px)" "read_only (find_channel_by_name raw)"
  "read_only (require_settings_row k)"
  by (auto simp: read_only_def get_channel_def Let_def failD_def get_epg_source_def
      find_epg_source_by_url_def get_relay_def get_transcode_settings_def get_brand_settings_def
      find_channel_by_upstream_url_def find_channel_by_name_def require_settings_row_def guardD_def
      okD_def liftD_def split: option.splits if_splits)

lemma ro_get_relay_detail [ro_rules]: "read_only (get_relay_detail i)"
  by (simp add: get_relay_detail_def ro_rules)

lemma ro_ensure_epg [ro_rules]: "read_only (ensure_epg_source_exists e)"
  by (simp add: ensure_epg_source_exists_def ro_rules split: option.split)

lemma ro_normalize_upstream [ro_rules]: "read_only (normalize_channel_upstream uuid u used)"
  by (simp add: normalize_channel_upstream_def Let_def ro_rules)

lemma ro_add_upstream [ro_rules]: "read_only (add_upstream uuid out u)"
  by (simp add: add_upstream_def ro_rules)

lemma ro_resolve_channel_spec [ro_rules]: "read_only (resolve_channel_spec uuid inp ex)"
  unfolding resolve_channel_spec_def Let_def by (intro ro_rules)

lemma ro_diag: "(\<And>e. read_only (m e)) \<Longrightarrow> read_only (\<lambda>d. m d d)"
  by (simp add: read_only_def)

lemma ro_validate_membership [ro_rules]: "read_only (validate_membership_input rid inp)"
  unfolding validate_membership_input_def by (rule ro_diag) (intro ro_rules)

lemma ro_first_found [ro_rules]: "(\<And>u. read_only (g u)) \<Longrightarrow> read_only (first_found g us)"
  by (induction us) (simp_all add: ro_rules)

lemma ro_find_import [ro_rules]: "read_only (find_import_channel raw px)"
  by (simp add: find_import_channel_def ro_rules)

lemma ro_resolve_import_proxy [ro_rules]: "read_only (resolve_import_proxy cache raw)"
  by (simp add: resolve_import_proxy_def Let_def ro_rules)

end
