(* ===== verification/StoreApi.thy ===== *)
theory StoreApi
  imports StoreFrames
begin

text \<open>
  Every operation of the store that writes, as one transition: \<open>exec\<close> runs an operation on the
  database and forgets its result, \<open>history\<close> runs a list of them on an empty database, each with
  the time stamp of its call.  What the environment decides (random ids, duration parsing and
  printing, rune counting, id checking) is the record \<open>store_env\<close>.
\<close>

record store_env =
  v_uuid :: "nat \<Rightarrow> string"
  v_dur :: "string \<Rightarrow> int option"
  v_show_dur :: "int \<Rightarrow> string"
  v_runes :: "string \<Rightarrow> nat"
  v_uuid_ok :: "string \<Rightarrow> bool"

datatype store_op =
    CreateProxy proxy_input
  | UpdateProxy string proxy_input
  | DeleteProxy string
  | CreateChannel channel_input
  | UpdateChannel string channel_input
  | DeleteChannel string
  | CreateEPGSource epg_input int
  | UpdateEPGSource int epg_input int
  | DeleteEPGSource int
  | MarkEPGSourceRefresh int string string
  | MarkEPGSourceRefreshError int string
  | CreateRelay string string
  | UpdateRelay int string string
  | DeleteRelay int
  | CreateRelayGroup int string
  | UpdateRelayGroup int int string
  | DeleteRelayGroup int int
  | AddMembership int membership_input
  | UpdateMembership int membership_input
  | DeleteMembership int
  | ReplaceRelayLayout int "layout_group list"
  | UpdateAppSettings transcode_settings "brand_settings option"
  | UpdateBrandSettings brand_settings
  | ImportRelay import_relay_input
  | ImportChannels "import_channel_entry list"
  | RestoreLibrary library_backup

definition done_with :: "'v dbm \<Rightarrow> unit dbm" where
  "done_with m = bindD m (\<lambda>_. okD ())"

fun exec :: "store_env \<Rightarrow> string \<Rightarrow> store_op \<Rightarrow> unit dbm" where
  "exec v now (CreateProxy p) = done_with (create_proxy (v_uuid v) now p)"
| "exec v now (UpdateProxy i p) = done_with (update_proxy (v_uuid v) now i p)"
| "exec v now (DeleteProxy i) = delete_proxy i"
| "exec v now (CreateChannel c) = done_with (create_channel (v_uuid v) now c)"
| "exec v now (UpdateChannel i c) = done_with (update_channel (v_uuid v) now i c)"
| "exec v now (DeleteChannel i) = delete_channel i"
| "exec v now (CreateEPGSource e dflt) = done_with (create_epg_source (v_dur v) now e dflt)"
| "exec v now (UpdateEPGSource i e dflt) = done_with (update_epg_source (v_dur v) now i e dflt)"
| "exec v now (DeleteEPGSource i) = delete_epg_source i"
| "exec v now (MarkEPGSourceRefresh i t msg) = mark_epg_refresh i t msg now"
| "exec v now (MarkEPGSourceRefreshError i msg) = mark_epg_refresh_error i msg now"
| "exec v now (CreateRelay name slug) = done_with (create_relay now name slug)"
| "exec v now (UpdateRelay i name slug) = done_with (update_relay now i name slug)"
| "exec v now (DeleteRelay i) = delete_relay i"
| "exec v now (CreateRelayGroup rid name) = done_with (create_relay_group rid name)"
| "exec v now (UpdateRelayGroup rid gid name) = done_with (update_relay_group rid gid name)"
| "exec v now (DeleteRelayGroup rid gid) = delete_relay_group rid gid"
| "exec v now (AddMembership rid m) = done_with (add_membership rid m)"
| "exec v now (UpdateMembership i m) = done_with (update_membership i m)"
| "exec v now (DeleteMembership i) = delete_membership i"
| "exec v now (ReplaceRelayLayout rid l) = done_with (replace_relay_layout now rid l)"
| "exec v now (UpdateAppSettings t b) = done_with (update_app_settings (v_runes v) t b)"
| "exec v now (UpdateBrandSettings b) = done_with (update_brand_settings (v_runes v) b)"
| "exec v now (ImportRelay i) = done_with (import_relay (v_uuid v) (v_dur v) (v_show_dur v) now i)"
| "exec v now (ImportChannels es) = done_with (import_channels (v_uuid v) now es)"
| "exec v now (RestoreLibrary b) = done_with (restore_library (v_uuid v) (v_uuid_ok v) now b)"

text \<open>A failed operation reports its error; the next one runs on the tables it left.\<close>

definition history :: "store_env \<Rightarrow> (string \<times> store_op) list \<Rightarrow> db" where
  "history v ops = foldl (\<lambda>d (now, op'). snd (exec v now op' d)) empty_db ops"

section \<open>Frames of the operations\<close>

lemma frame_rows [frame_ops]:
  "frames lineup_view (insert_proxy_servers px spec)"
  "frames lineup_view (insert_proxy_row i spec now)"
  "frames lineup_view (insert_channel_upstreams i cspec)"
  "frames lineup_view (insert_relay_row name slug now)"
  "frames lineup_view (fill_channel_epg now i n tvg)"
  "frames lineup_view (refresh_channel px c)"
  unfolding insert_proxy_servers_def insert_proxy_row_def insert_channel_upstreams_def
    insert_relay_row_def fill_channel_epg_def refresh_channel_def Let_def
  by (rule lineup.frame_intros frame_stmts lineup.frames_ro ro_rules)+

lemma frame_txs [frame_ops]:
  "frames lineup_view (insert_channel_tx uuid now i inp)"
  "frames lineup_view (replace_channel_upstreams i cspec)"
  "frames lineup_view (refresh_proxy_dependents px now)"
  "frames lineup_view (create_epg_source_tx dur now e k)"
  "frames lineup_view (append_channel_upstream uuid now i raw p)"
  "frames lineup_view (create_proxy_tx uuid now pin)"
  unfolding insert_channel_tx_def replace_channel_upstreams_def refresh_proxy_dependents_def
    create_epg_source_tx_def append_channel_upstream_def create_proxy_tx_def Let_def
  by (rule lineup.frame_intros frame_ops frame_stmts lineup.frames_ro ro_rules)+

lemma frame_txs2 [frame_ops]:
  "frames lineup_view (create_channel_tx uuid now inp)"
  "frames lineup_view (update_channel_tx uuid now i inp ex h t epg tvg)"
  "frames lineup_view (update_proxy_tx uuid now i pin px)"
  "frames lineup_view (import_epg dur sd now k st x)"
  unfolding create_channel_tx_def update_channel_tx_def update_proxy_tx_def import_epg_def Let_def
  by (rule lineup.frame_intros frame_ops frame_stmts lineup.frames_ro ro_rules)+

lemma frame_imports [frame_ops]:
  "frames lineup_view (import_channel uuid now ids st ent)"
  "frames lineup_view (import_channels_step uuid now sti ient)"
  unfolding import_channel_def import_channels_step_def Let_def
  by (rule lineup.frame_intros frame_ops frame_stmts lineup.frames_ro ro_rules)+

text \<open>The operations that do not see the lineups.\<close>

fun outside_lineups :: "store_op \<Rightarrow> bool" where
  "outside_lineups (DeleteRelay _) = False"
| "outside_lineups (CreateRelay _ _) = False"
| "outside_lineups (CreateRelayGroup _ _) = False"
| "outside_lineups (UpdateRelayGroup _ _ _) = False"
| "outside_lineups (DeleteRelayGroup _ _) = False"
| "outside_lineups (AddMembership _ _) = False"
| "outside_lineups (UpdateMembership _ _) = False"
| "outside_lineups (DeleteMembership _) = False"
| "outside_lineups (ReplaceRelayLayout _ _) = False"
| "outside_lineups (ImportRelay _) = False"
| "outside_lineups (RestoreLibrary _) = False"
| "outside_lineups _ = True"

lemma frame_exec: "outside_lineups op' \<Longrightarrow> frames lineup_view (exec v now op')"
  apply (cases op'; simp only: outside_lineups.simps exec.simps done_with_def
    create_proxy_def update_proxy_def delete_proxy_def create_channel_def update_channel_def delete_channel_def
    create_epg_source_def update_epg_source_def delete_epg_source_def mark_epg_refresh_def
    mark_epg_refresh_error_def update_relay_def update_app_settings_def update_brand_settings_def
    import_channels_def Let_def simp_thms)
  apply (rule lineup.frame_intros frame_ops frame_stmts lineup.frames_ro ro_rules)+
  done

end
