(* ===== verification/StoreInvariant.thy ===== *)
theory StoreInvariant
  imports StoreApi
begin

text \<open>
  The invariants of the store over all histories of operations: the schema's constraints, groups and
  memberships of one relay together, complete EPG pairs, and, when no backup was restored, channel
  numbers that count each lineup from 1.
\<close>

section \<open>Groups\<close>

lemma ins_group_at:
  "gr_id r \<notin> gr_id ` set (t_groups d) \<Longrightarrow> i \<in> gr_id ` set (t_groups d) \<Longrightarrow>
     group_at (ins_group r d) i = group_at d i"
proof -
  assume r: "gr_id r \<notin> gr_id ` set (t_groups d)" and i: "i \<in> gr_id ` set (t_groups d)"
  then have "gr_id r \<noteq> i" by auto
  then have "find (\<lambda>g. gr_id g = i) (insort_key gr_id r gs) = find (\<lambda>g. gr_id g = i) gs" for gs
    by (induction gs) auto
  then show ?thesis by (simp add: group_at_def ins_group_def)
qed

lemma lineup_ok_groups:
  assumes "schema_ok d" "lineup_ok d" "t_members d' = t_members d"
    "\<And>i. i \<in> gr_id ` set (t_groups d) \<Longrightarrow> i \<in> mb_group ` set (t_members d) \<Longrightarrow>
       gr_relay (group_at d' i) = gr_relay (group_at d i) \<and> gr_sort (group_at d' i) = gr_sort (group_at d i)"
  shows "lineup_ok d'"
proof -
  have g: "gr_relay (group_at d' (mb_group m)) = gr_relay (group_at d (mb_group m)) \<and>
      member_key d' m = member_key d m" if "m \<in> set (t_members d)" for m
    using assms(4) [OF schema_fk(1) [OF assms(1) that]] that by (simp add: member_key_def)
  then have "groups_ok d'"
    using assms(2,3) by (auto simp: lineup_ok_def groups_ok_def)
  moreover have "numbered d' rid" for rid
  proof -
    have "members_of d' rid = members_of d rid" by (simp add: members_of_def assms(3))
    then have "lineup d' rid = lineup d rid"
      using g by (auto simp: lineup_def members_of_def intro!: sort_key_cong)
    then show ?thesis using assms(2) by (simp add: lineup_ok_def numbered_def)
  qed
  ultimately show ?thesis by (simp add: lineup_ok_def)
qed

lemma keeps_insert_group: "keeps store_inv (insert_group_row rid name ord)"
  unfolding keeps_def
proof (intro allI impI)
  fix d x d' assume inv: "store_inv d" and "insert_group_row rid name ord d = (Inr x, d')"
  then obtain r where r: "d' = ins_group r d" "gr_id r = next_group d" "schema_ok (ins_group r d)"
    by (auto simp: insert_group_row_def dbm_simps)
  have new: "gr_id r \<notin> gr_id ` set (t_groups d)" using next_ids_new(3) r(2) by simp
  have "lineup_ok (ins_group r d)"
  proof (rule lineup_ok_groups [of d])
    show "schema_ok d" "lineup_ok d" using inv by (simp_all add: store_inv_def)
    show "t_members (ins_group r d) = t_members d" by (simp add: ins_group_def)
  qed (simp add: ins_group_at [OF new])
  with r show "store_inv d'" by (simp add: store_inv_def)
qed

lemma find_update_where:
  "(\<And>r. q (f r) = q r) \<Longrightarrow> find q (update_where p f rows) =
     map_option (\<lambda>r. if p r then f r else r) (find q rows)"
  by (induction rows) (auto simp: update_where_def)

lemma upd_groups_at:
  assumes "\<And>g. gr_id (f g) = gr_id g" "i \<in> gr_id ` set (t_groups d)"
  shows "group_at (upd_groups p f d) i = (let g = group_at d i in if p g then f g else g)"
proof -
  obtain g where "find (\<lambda>g. gr_id g = i) (t_groups d) = Some g"
    using assms(2) by (cases "find (\<lambda>g. gr_id g = i) (t_groups d)") (auto simp: find_None_iff)
  then show ?thesis using assms(1) by (simp add: group_at_def upd_groups_def find_update_where Let_def)
qed

lemma keeps_rename_group:
  "keeps store_inv (stmt_rows n (upd_groups p (\<lambda>g. g\<lparr>gr_name := name\<rparr>)))"
proof (rule store.keeps_stmt_rows)
  fix d assume inv: "store_inv d" and ok: "schema_ok (upd_groups p (\<lambda>g. g\<lparr>gr_name := name\<rparr>) d)"
  have "lineup_ok (upd_groups p (\<lambda>g. g\<lparr>gr_name := name\<rparr>) d)"
  proof (rule lineup_ok_groups [of d])
    show "schema_ok d" "lineup_ok d" using inv by (simp_all add: store_inv_def)
    show "t_members (upd_groups p (\<lambda>g. g\<lparr>gr_name := name\<rparr>) d) = t_members d"
      by (simp add: upd_groups_def)
  qed (simp add: upd_groups_at Let_def)
  with ok show "store_inv (upd_groups p (\<lambda>g. g\<lparr>gr_name := name\<rparr>) d)" by (simp add: store_inv_def)
qed

lemma find_delete_where:
  "(\<And>r. r \<in> set rows \<Longrightarrow> q r \<Longrightarrow> \<not> p r) \<Longrightarrow> find q (delete_where p rows) = find q rows"
  by (induction rows) (auto simp: delete_where_def)

text \<open>Deleting whole relays, or empty groups: what is left keeps its lineup.\<close>

lemma lineup_ok_deleted:
  assumes "lineup_ok d"
    and "\<And>rid. members_of d' rid = members_of d rid \<or> members_of d' rid = []"
    and "\<And>m. m \<in> set (t_members d') \<Longrightarrow> m \<in> set (t_members d) \<and> group_at d' (mb_group m) = group_at d (mb_group m)"
  shows "lineup_ok d'"
proof -
  have "groups_ok d'"
    using assms(1,3) by (auto simp: lineup_ok_def groups_ok_def)
  moreover have "numbered d' rid" for rid
  proof (cases "members_of d' rid = []")
    case True
    then show ?thesis by (simp add: numbered_def lineup_def)
  next
    case False
    then have m: "members_of d' rid = members_of d rid" using assms(2) by blast
    have "lineup d' rid = lineup d rid"
      unfolding lineup_def m
    proof (rule sort_key_cong)
      fix x assume "x \<in> set (members_of d rid)"
      then have "x \<in> set (members_of d' rid)" by (simp add: m)
      then have "x \<in> set (t_members d')" by (simp add: members_of_def)
      then show "member_key d' x = member_key d x" using assms(3) by (simp add: member_key_def)
    qed
    then show ?thesis using assms(1) by (simp add: lineup_ok_def numbered_def)
  qed
  ultimately show ?thesis by (simp add: lineup_ok_def)
qed

lemma group_at_in:
  assumes "schema_ok d" "m \<in> set (t_members d)"
  shows "group_at d (mb_group m) \<in> set (t_groups d) \<and> gr_id (group_at d (mb_group m)) = mb_group m"
proof -
  have "group_at d (mb_group m) \<in> set (filter (\<lambda>g. gr_id g = mb_group m) (t_groups d))"
    by (simp add: member_groups [OF assms])
  then show ?thesis by simp
qed

lemma group_relay:
  assumes "schema_ok d" "groups_ok d" "m \<in> set (t_members d)" "x \<in> set (t_groups d)" "gr_id x = mb_group m"
  shows "gr_relay x = mb_relay m"
  using unique_byD [OF schema_okD(7) [OF assms(1)] assms(4)] group_at_in [OF assms(1,3)] assms(2,3,5)
  by (metis groups_ok_def)

lemma keeps_del_relays: "keeps store_inv (stmt_rows n (del_relays p))"
proof (rule store.keeps_stmt_rows)
  fix d assume inv: "store_inv d" and ok: "schema_ok (del_relays p d)"
  let ?gone = "rl_id ` {r \<in> set (t_relays d). p r}"
  let ?m = "\<lambda>m. mb_relay m \<in> ?gone \<or> mb_group m \<in> gr_id ` {g \<in> set (t_groups d). gr_relay g \<in> ?gone}"
  have s: "schema_ok d" and g: "groups_ok d" using inv by (simp_all add: store_inv_def lineup_ok_def)
  have rel: "?m m \<longleftrightarrow> mb_relay m \<in> ?gone" if "m \<in> set (t_members d)" for m
    using group_relay [OF s g that] by auto
  have mem: "t_members (del_relays p d) = filter (\<lambda>m. mb_relay m \<notin> ?gone) (t_members d)"
    using rel by (auto simp: del_relays_def Let_def delete_where_def intro!: filter_cong)
  have grp: "t_groups (del_relays p d) = delete_where (\<lambda>g. gr_relay g \<in> ?gone) (t_groups d)"
    by (simp add: del_relays_def Let_def)
  have "lineup_ok (del_relays p d)"
  proof (rule lineup_ok_deleted [of d])
    show "lineup_ok d" using inv by (simp add: store_inv_def)
    show "members_of (del_relays p d) rid = members_of d rid \<or> members_of (del_relays p d) rid = []" for rid
    proof (cases "rid \<in> ?gone")
      case True
      then show ?thesis unfolding members_of_def mem filter_filter
        by (intro disjI2 filter_False ballI) blast
    next
      case False
      then show ?thesis unfolding members_of_def mem filter_filter
        by (intro disjI1 filter_cong refl) blast
    qed
    show "m \<in> set (t_members d) \<and> group_at (del_relays p d) (mb_group m) = group_at d (mb_group m)"
      if "m \<in> set (t_members (del_relays p d))" for m
    proof -
      have m: "m \<in> set (t_members d)" "mb_relay m \<notin> ?gone" using that unfolding mem by auto
      have "find (\<lambda>g. gr_id g = mb_group m) (t_groups (del_relays p d)) = find (\<lambda>g. gr_id g = mb_group m) (t_groups d)"
        unfolding grp using group_relay [OF s g m(1)] m(2) by (intro find_delete_where) auto
      with m show ?thesis by (simp add: group_at_def)
    qed
  qed
  with ok show "store_inv (del_relays p d)" by (simp add: store_inv_def)
qed

lemma keeps_del_group: "keeps store_inv (delete_relay_group rid gid)"
  unfolding keeps_def
proof (intro allI impI)
  fix d x d' assume inv: "store_inv d" and run: "delete_relay_group rid gid d = (Inr x, d')"
  let ?p = "\<lambda>g. gr_id g = gid \<and> gr_relay g = rid"
  have ok: "schema_ok (del_groups ?p d)" and d': "d' = del_groups ?p d"
    and none: "filter (\<lambda>m. mb_group m = gid \<and> mb_relay m = rid) (t_members d) = []"
    using run by (auto simp: delete_relay_group_def dbm_simps)
  have s: "schema_ok d" and g: "groups_ok d" using inv by (simp_all add: store_inv_def lineup_ok_def)
  have free: "\<not> ?p y" if "m \<in> set (t_members d)" "y \<in> set (t_groups d)" "gr_id y = mb_group m" for m y
    using group_relay [OF s g that] none that(1,3) by (auto simp: filter_empty_conv)
  have mem: "t_members (del_groups ?p d) = t_members d"
    using free by (auto simp: del_groups_def Let_def delete_where_def intro!: filter_True)
  have "lineup_ok (del_groups ?p d)"
  proof (rule lineup_ok_groups [of d])
    show "schema_ok d" "lineup_ok d" using inv by (simp_all add: store_inv_def)
    show "t_members (del_groups ?p d) = t_members d" by (rule mem)
    fix i assume "i \<in> mb_group ` set (t_members d)"
    then obtain m where m: "m \<in> set (t_members d)" "i = mb_group m" by blast
    have "find (\<lambda>g. gr_id g = i) (t_groups (del_groups ?p d)) = find (\<lambda>g. gr_id g = i) (t_groups d)"
      unfolding del_groups_def Let_def using free [OF m(1)] m(2) by (simp add: find_delete_where)
    then show "gr_relay (group_at (del_groups ?p d) i) = gr_relay (group_at d i) \<and>
        gr_sort (group_at (del_groups ?p d) i) = gr_sort (group_at d i)"
      by (simp add: group_at_def)
  qed
  with ok d' show "store_inv d'" by (simp add: store_inv_def)
qed

section \<open>Every operation keeps the lineups\<close>

text \<open>An operation that leaves groups and memberships alone keeps the invariant.\<close>

lemma lineup_ok_view: "lineup_view d' = lineup_view d \<Longrightarrow> lineup_ok d' = lineup_ok d"
  by (simp add: lineup_view_def lineup_ok_def groups_ok_def group_at_def numbered_def lineup_def
      member_key_def [abs_def] members_of_def)

section \<open>Schema\<close>

lemma schema_rows [keep_rules]:
  "keeps schema_ok (insert_proxy_servers px spec)"
  "keeps schema_ok (insert_proxy_row i spec now)"
  "keeps schema_ok (insert_channel_upstreams i cspec)"
  "keeps schema_ok (insert_relay_row name slug now)"
  "keeps schema_ok (insert_group_row k name ord)"
  "keeps schema_ok (fill_channel_epg now i n tvg)"
  "keeps schema_ok (refresh_channel px c)"
  "keeps schema_ok (renumber_relay_memberships k)"
  unfolding insert_proxy_servers_def insert_proxy_row_def insert_channel_upstreams_def
    insert_relay_row_def insert_group_row_def fill_channel_epg_def refresh_channel_def Let_def
    renumber_relay_memberships_def
  by (rule schema.keeps_intros keep_rules schema.keeps_ro ro_rules)+

lemma schema_txs [keep_rules]:
  "keeps schema_ok (insert_channel_tx uuid now i inp)"
  "keeps schema_ok (replace_channel_upstreams i cspec)"
  "keeps schema_ok (refresh_proxy_dependents px now)"
  "keeps schema_ok (create_epg_source_tx dur now e k)"
  "keeps schema_ok (append_channel_upstream uuid now i raw p)"
  "keeps schema_ok (create_proxy_tx uuid now pin)"
  unfolding insert_channel_tx_def replace_channel_upstreams_def refresh_proxy_dependents_def
    create_epg_source_tx_def append_channel_upstream_def create_proxy_tx_def Let_def
  by (rule schema.keeps_intros keep_rules schema.keeps_ro ro_rules)+

lemma schema_txs2 [keep_rules]:
  "keeps schema_ok (create_channel_tx uuid now inp)"
  "keeps schema_ok (update_channel_tx uuid now i inp ex h t epg tvg)"
  "keeps schema_ok (update_proxy_tx uuid now i pin px)"
  "keeps schema_ok (import_epg dur sd now k st x)"
  unfolding create_channel_tx_def update_channel_tx_def update_proxy_tx_def import_epg_def Let_def
  by (rule schema.keeps_intros keep_rules schema.keeps_ro ro_rules)+

lemma schema_imports [keep_rules]:
  "keeps schema_ok (import_channel uuid now ids st ent)"
  "keeps schema_ok (import_channels_step uuid now sti ient)"
  "keeps schema_ok (wipe)"
  "keeps schema_ok (restore_proxy uuid ok now bp)"
  "keeps schema_ok (restore_epg now be)"
  "keeps schema_ok (restore_channel uuid ok now idl nl bc)"
  unfolding import_channel_def import_channels_step_def wipe_def restore_proxy_def restore_epg_def
    restore_channel_def Let_def
  by (rule schema.keeps_intros keep_rules schema.keeps_ro ro_rules)+

section \<open>Lineups\<close>

named_theorems store_rules "operations that keep the schema and the lineups"

lemma keeps_framed: "frames lineup_view m \<Longrightarrow> keeps schema_ok m \<Longrightarrow> keeps store_inv m"
  unfolding frames_def keeps_def store_inv_def using lineup_ok_view by blast

lemma store_rows [store_rules]:
  "keeps store_inv (insert_relay_row name slug now)"
  "keeps store_inv (import_epg dur sd now k st x)"
  "keeps store_inv (import_channel uuid now ids ist ent)"
  by (rule keeps_framed frame_ops keep_rules)+

declare keeps_insert_group [store_rules] keeps_rename_group [store_rules] keeps_del_relays [store_rules]
  keeps_del_group [store_rules] keeps_add_membership [store_rules] keeps_update_membership [store_rules]
  keeps_delete_membership [store_rules] keeps_replace_layout [store_rules]

lemma store_ensure_group [store_rules]: "keeps store_inv (ensure_group rid gs raw)"
  unfolding ensure_group_def Let_def
  by (rule store.keeps_intros store_rules store.keeps_ro ro_rules)+

lemma store_import_step [store_rules]: "keeps store_inv (import_entry_step uuid now rid ids st ent)"
  unfolding import_entry_step_def
  by (rule store.keeps_intros store_rules store.keeps_ro ro_rules)+

lemma store_import [store_rules]: "keeps store_inv (import_relay uuid dur sd now inp)"
  unfolding import_relay_def import_relay_tx_def Let_def
  by (rule store.keeps_intros store_rules store.keeps_ro ro_rules)+

fun is_restore :: "store_op \<Rightarrow> bool" where
  "is_restore (RestoreLibrary _) = True"
| "is_restore _ = False"

section \<open>Restoring\<close>

text \<open>A restored relay: its groups are its own, so its memberships are in groups of the relay.\<close>

definition base_inv :: "db \<Rightarrow> bool" where
  "base_inv d \<longleftrightarrow> schema_ok d \<and> groups_ok d"

interpretation base: db_invariant base_inv
  by unfold_locales (simp add: base_inv_def schema.I_fresh groups_ok_def group_at_def)

lemma groups_ok_view: "lineup_view d' = lineup_view d \<Longrightarrow> groups_ok d' = groups_ok d"
  by (simp add: lineup_view_def groups_ok_def group_at_def)

lemma base_framed: "frames lineup_view m \<Longrightarrow> keeps schema_ok m \<Longrightarrow> keeps base_inv m"
  unfolding frames_def keeps_def base_inv_def using groups_ok_view by blast

lemma foldD_inv:
  assumes "\<And>a x d a' d'. P a d \<Longrightarrow> x \<in> set xs \<Longrightarrow> f a x d = (Inr a', d') \<Longrightarrow> P a' d'"
    and "P a d" "foldD f a xs d = (Inr a', d')"
  shows "P a' d'"
  using assms
proof (induction xs arbitrary: a d)
  case Nil
  then show ?case by (simp add: okD_def)
next
  case (Cons x xs)
  from Cons.prems(3) obtain b e where b: "f a x d = (Inr b, e)" "foldD f b xs e = (Inr a', d')"
    by (auto simp: bindD_Inr)
  have "P b e" using Cons.prems(1) [OF Cons.prems(2) _ b(1)] by simp
  from _ this b(2) show ?case
  proof (rule Cons.IH)
    fix a y d a' d' assume "P a d" "y \<in> set xs" "f a y d = (Inr a', d')"
    then show "P a' d'" by (intro Cons.prems(1) [of a d y a' d']) simp_all
  qed
qed

definition restoring :: "int \<Rightarrow> int list \<Rightarrow> db \<Rightarrow> bool" where
  "restoring rid gs d \<longleftrightarrow> base_inv d \<and>
     (\<forall>i \<in> set gs. i \<in> gr_id ` set (t_groups d) \<and> gr_relay (group_at d i) = rid)"

lemma schema_groups_new:
  "schema_ok (ins_group r d) \<Longrightarrow> gr_id r \<notin> gr_id ` set (t_groups d)"
proof -
  assume "schema_ok (ins_group r d)"
  then have "distinct (map gr_id (insort_key gr_id r (t_groups d)))"
    using schema_okD(7) by (fastforce simp: unique_by_def ins_group_def)
  moreover have "mset (map gr_id (insort_key gr_id r (t_groups d))) = mset (gr_id r # map gr_id (t_groups d))"
    by (simp add: mset_insort)
  ultimately have "distinct (gr_id r # map gr_id (t_groups d))" by (metis mset_eq_imp_distinct_iff)
  then show ?thesis by simp
qed

lemma group_at_new: "gr_id r \<notin> gr_id ` set (t_groups d) \<Longrightarrow> group_at (ins_group r d) (gr_id r) = r"
proof -
  assume r: "gr_id r \<notin> gr_id ` set (t_groups d)"
  have "gr_id r \<notin> gr_id ` set gs \<Longrightarrow> find (\<lambda>g. gr_id g = gr_id r) (insort_key gr_id r gs) = Some r" for gs
    by (induction gs) auto
  then show ?thesis using r by (simp add: group_at_def ins_group_def)
qed

lemma restore_group_step:
  assumes "restoring rid (fst st) d" "restore_group rid st g d = (Inr st', d')"
  shows "restoring rid (fst st') d'"
proof -
  let ?r = "\<lparr> gr_id = bg_id g, gr_relay = rid, gr_name = trim_space (bg_name g), gr_sort = bg_sort g \<rparr>"
  have s: "schema_ok (ins_group ?r d)" "d' = ins_group ?r d" "fst st' = bg_id g # fst st"
    using assms(2) by (auto simp: restore_group_def Let_def dbm_simps)
  have new: "gr_id ?r \<notin> gr_id ` set (t_groups d)" by (rule schema_groups_new [OF s(1)])
  have old: "group_at (ins_group ?r d) i = group_at d i" if "i \<in> gr_id ` set (t_groups d)" for i
    by (rule ins_group_at [OF new that])
  have ok: "schema_ok d" "groups_ok d" using assms(1) by (simp_all add: restoring_def base_inv_def)
  have "group_at (ins_group ?r d) (mb_group m) = group_at d (mb_group m)" if "m \<in> set (t_members d)" for m
    using old schema_fk(1) [OF ok(1) that] .
  then have "groups_ok (ins_group ?r d)"
    using ok(2) by (simp add: groups_ok_def ins_group_def)
  moreover have "bg_id g \<in> gr_id ` set (t_groups (ins_group ?r d)) \<and>
      gr_relay (group_at (ins_group ?r d) (bg_id g)) = rid"
    using group_at_new [OF new] by (simp add: ins_group_def set_insort_key)
  moreover have "i \<in> gr_id ` set (t_groups (ins_group ?r d)) \<and>
      gr_relay (group_at (ins_group ?r d) i) = rid" if "i \<in> set (fst st)" for i
    using assms(1) that old [of i] by (simp add: restoring_def ins_group_def set_insort_key)
  ultimately show ?thesis using s by (simp add: restoring_def base_inv_def)
qed

lemma restore_member_step:
  assumes "restoring rid gs d" "restore_member rid gs hi m d = (Inr x, d')"
  shows "restoring rid gs d'"
proof -
  obtain r where r: "schema_ok (ins_member r d)" "d' = ins_member r d" "mb_group r \<in> set gs" "mb_relay r = rid"
    using assms(2) by (force simp: restore_member_def dbm_simps)
  have at': "group_at (ins_member r d) i = group_at d i" for i
    by (simp add: group_at_def ins_member_def)
  have "groups_ok (ins_member r d)"
    unfolding groups_ok_def
  proof
    fix y assume "y \<in> set (t_members (ins_member r d))"
    then have "y = r \<or> y \<in> set (t_members d)" by (simp add: ins_member_def set_insort_key)
    then show "gr_relay (group_at (ins_member r d) (mb_group y)) = mb_relay y"
      using assms(1) r(3,4) at' by (auto simp only: restoring_def base_inv_def groups_ok_def)
  qed
  with assms(1) r at' show ?thesis by (simp add: restoring_def base_inv_def ins_member_def)
qed

lemma restore_relay_run:
  "restore_relay now b d = (Inr x, d') \<Longrightarrow> \<exists>e gs gmax d2 k. schema_ok (ins_relay e d) \<and>
     foldD (restore_group (br_id b)) ([], 0) (br_groups b) (ins_relay e d) = (Inr (gs, gmax), d2) \<and>
     foldD (restore_member (br_id b) gs) 0 (br_members b) d2 = (Inr k, d')"
  unfolding restore_relay_def Let_def dbm_simps split_paired_Ex case_prod_conv by blast

lemma restore_relay_step:
  assumes "base_inv d" "restore_relay now b d = (Inr x, d')"
  shows "base_inv d'"
proof -
  let ?r = "br_id b"
  obtain e gs gmax d2 k where
      e: "schema_ok (ins_relay e d)"
    and g: "foldD (restore_group ?r) ([], 0) (br_groups b) (ins_relay e d) = (Inr (gs, gmax), d2)"
    and m: "foldD (restore_member ?r gs) 0 (br_members b) d2 = (Inr k, d')"
    using restore_relay_run [OF assms(2)] by blast
  have "lineup_view (ins_relay e d) = lineup_view d" by (rule frame_stmts)
  from groups_ok_view [OF this] have "restoring ?r (fst ([], 0 :: int)) (ins_relay e d)"
    using e assms(1) by (simp add: restoring_def base_inv_def)
  then have "restoring ?r (fst (gs, gmax)) d2"
    by (rule foldD_inv [where P = "\<lambda>st. restoring ?r (fst st)", rotated, OF _ g]) (rule restore_group_step)
  then have "restoring ?r gs d2" by simp
  then have "restoring ?r gs d'"
    by (rule foldD_inv [where P = "\<lambda>_. restoring ?r gs", rotated, OF _ m]) (rule restore_member_step)
  then show ?thesis by (simp add: restoring_def)
qed

lemma wipe_step:
  assumes "wipe d = (Inr u, d')"
  shows "t_members d' = []"
proof -
  obtain d1 where d1: "d1 = del_relays (\<lambda>_. True) d" "schema_ok d1"
    and rest: "bindD (run_stmt (del_channels (\<lambda>_. True))) (\<lambda>_. bindD (run_stmt (del_proxies (\<lambda>_. True)))
       (\<lambda>_. run_stmt (del_epgs (\<lambda>_. True)))) d1 = (Inr u, d')"
    using assms by (auto simp: wipe_def dbm_simps)
  have "refers mb_relay (t_members d1) rl_id (t_relays d1)"
    using schema_okD(10) [OF d1(2)] by (simp add: foreign_keys_def)
  then have "t_members d1 = []"
    by (simp add: d1(1) del_relays_def Let_def delete_where_def refers_def list_all_iff)
  then show ?thesis
    using rest by (auto simp: dbm_simps del_channels_def del_proxies_def del_epgs_def Let_def)
qed

lemma base_restore_relay: "keeps base_inv (restore_relay now b)"
  unfolding keeps_def using restore_relay_step by blast

lemma base_wipe: "keeps base_inv wipe"
proof -
  have "groups_ok d'" if "wipe d = (Inr u, d')" for d d' u
    using wipe_step [OF that] by (simp add: groups_ok_def)
  then show ?thesis
    using schema_imports(3) unfolding keeps_def base_inv_def by blast
qed

lemma frame_restore [frame_ops]:
  "frames lineup_view (restore_proxy uuid ok now bp)"
  "frames lineup_view (restore_epg now be)"
  "frames lineup_view (restore_channel uuid ok now idl nl bc)"
  unfolding restore_proxy_def restore_epg_def restore_channel_def Let_def
  by (rule lineup.frame_intros frame_ops frame_stmts lineup.frames_ro ro_rules)+

lemma base_reset: "keeps base_inv (run_stmt (reset_auto_ids a b c e))"
  by (rule base.keeps_run_stmt)
    (simp add: base_inv_def reset_auto_ids_def groups_ok_def group_at_def)

lemma base_rows:
  "keeps base_inv (restore_proxy uuid ok now bp)" "keeps base_inv (restore_epg now be)"
  "keeps base_inv (restore_channel uuid ok now idl nl bc)"
  by (rule base_framed frame_ops keep_rules)+

lemma base_restore: "keeps base_inv (restore_library uuid ok now b)"
  unfolding restore_library_def restore_library_tx_def
  by (rule base.keeps_intros base_restore_relay base_wipe base_reset base_rows base.keeps_ro ro_rules)+

end
