(* ===== verification/StoreAtomic.thy ===== *)
theory StoreAtomic
  imports StoreApi
begin

text \<open>
  An operation of the store that fails leaves the tables as they were: a transaction is rolled back,
  a single statement that breaks a constraint writes nothing, and what runs after the write is a
  read that cannot fail, or the check that the write affected a row at all.
\<close>

section \<open>Deleting nothing\<close>

lemma delete_none: "length (filter p rows) = 0 \<Longrightarrow> delete_where p rows = rows"
  by (simp add: delete_where_def filter_empty_conv filter_True)

lemma update_none: "length (filter p rows) = 0 \<Longrightarrow> update_where p f rows = rows"
  unfolding update_where_def by (rule map_idI) (auto simp: filter_empty_conv)

lemma del_none:
  "length (filter p1 (t_channels d)) = 0 \<Longrightarrow> del_channels p1 d = d"
  "length (filter p2 (t_proxies d)) = 0 \<Longrightarrow> del_proxies p2 d = d"
  "length (filter p3 (t_epgs d)) = 0 \<Longrightarrow> del_epgs p3 d = d"
  "length (filter p4 (t_relays d)) = 0 \<Longrightarrow> del_relays p4 d = d"
  "length (filter p5 (t_groups d)) = 0 \<Longrightarrow> del_groups p5 d = d"
  "length (filter p6 (t_groups d)) = 0 \<Longrightarrow> upd_groups p6 g d = d"
  by (simp_all add: del_channels_def del_proxies_def del_epgs_def del_relays_def del_groups_def
      upd_groups_def delete_none update_none)

lemma atomic_rows:
  assumes "\<And>d. n d = 0 \<Longrightarrow> f d = d"
  shows "atomic (bindD (stmt_rows n f) (\<lambda>k. guardD (k \<noteq> 0) e))"
  unfolding atomic_def using assms by (auto simp: dbm_simps)

lemma atomic_rows_then:
  assumes "\<And>d. n d = 0 \<Longrightarrow> f d = d" "\<And>d e' d'. n d \<noteq> 0 \<Longrightarrow> R (f d) = (Inl e', d') \<Longrightarrow> False"
  shows "atomic (bindD (stmt_rows n f) (\<lambda>k. bindD (guardD (k \<noteq> 0) e) (\<lambda>_. R)))"
  unfolding atomic_def using assms by (auto simp: dbm_simps)

lemma atomic_deletes:
  "atomic (delete_proxy i)" "atomic (delete_channel i)" "atomic (delete_epg_source j)"
  "atomic (delete_relay j)" "atomic (delete_relay_group j k)"
  unfolding delete_proxy_def delete_channel_def delete_epg_source_def delete_relay_def
    delete_relay_group_def Let_def
  by (intro atomic_ro_bind atomic_rows del_none ro_rules; assumption)+

section \<open>Reading back\<close>

lemma find_key: "(\<exists>r. find (\<lambda>r. k r = v) rows = Some r) \<longleftrightarrow> v \<in> k ` set rows"
  by (induction rows) auto

lemma get_relay_err: "get_relay i d = (Inl e, d') \<longleftrightarrow> i \<notin> rl_id ` set (t_relays d) \<and> e = ErrNotFound \<and> d' = d"
  using find_key [of rl_id i "t_relays d"]
  by (auto simp: get_relay_def split: option.splits)

lemma get_epg_err: "get_epg_source i d = (Inl e, d') \<longleftrightarrow> i \<notin> ep_id ` set (t_epgs d) \<and> e = ErrNotFound \<and> d' = d"
  using find_key [of ep_id i "t_epgs d"]
  by (auto simp: get_epg_source_def split: option.splits)

lemma get_channel_err:
  "get_channel i d = (Inl e, d') \<longleftrightarrow>
     (trim_space i = [] \<or> trim_space i \<notin> cr_id ` set (t_channels d)) \<and> e = ErrNotFound \<and> d' = d"
  using find_key [of cr_id "trim_space i" "t_channels d"]
  by (auto simp: get_channel_def Let_def failD_def split: option.splits)

lemma get_proxy_err:
  "get_proxy i d = (Inl e, d') \<longleftrightarrow>
     (trim_space i = [] \<or> trim_space i \<notin> px_id ` set (t_proxies d)) \<and> e = ErrNotFound \<and> d' = d"
  using find_key [of px_id "trim_space i" "t_proxies d"]
  by (auto simp: get_proxy_def Let_def failD_def liftD_def proxy_of_row_def split: option.splits)

lemma get_Inr:
  "get_relay j d = (Inr r, d') \<Longrightarrow> d' = d \<and> j \<in> rl_id ` set (t_relays d)"
  "get_epg_source j d = (Inr s, d') \<Longrightarrow> d' = d \<and> j \<in> ep_id ` set (t_epgs d)"
  "get_channel i d = (Inr c, d') \<Longrightarrow> d' = d \<and> trim_space i \<noteq> [] \<and> trim_space i \<in> cr_id ` set (t_channels d)"
  "get_proxy i d = (Inr p, d') \<Longrightarrow> d' = d \<and> trim_space i \<noteq> [] \<and> trim_space i \<in> px_id ` set (t_proxies d)"
  using find_key [of rl_id j "t_relays d"] find_key [of ep_id j "t_epgs d"]
    find_key [of cr_id "trim_space i" "t_channels d"] find_key [of px_id "trim_space i" "t_proxies d"]
  by (auto simp: get_relay_def get_epg_source_def get_channel_def get_proxy_def Let_def failD_def
      liftD_def proxy_of_row_def split: option.splits if_splits)

lemma ids_stable:
  "rl_id ` set (t_relays (upd_relay n (\<lambda>r. r\<lparr>rl_name := a, rl_slug := b, rl_updated := c\<rparr>) d)) = rl_id ` set (t_relays d)"
  "ep_id ` set (t_epgs (upd_epg n (\<lambda>r. r\<lparr>ep_name := a', ep_url := b', ep_enabled := c', ep_seconds := d', ep_updated := e'\<rparr>) d)) =
     ep_id ` set (t_epgs d)"
  "i \<in> ep_id ` set (t_epgs (ins_epg er d)) \<longleftrightarrow> i = ep_id er \<or> i \<in> ep_id ` set (t_epgs d)"
  "i \<in> rl_id ` set (t_relays (ins_relay rr d)) \<longleftrightarrow> i = rl_id rr \<or> i \<in> rl_id ` set (t_relays d)"
  "t_relays (ins_group g d) = t_relays d"
  unfolding set_map [symmetric]
  by (simp_all add: upd_relay_def upd_epg_def map_update_where ins_epg_def ins_relay_def ins_group_def
      del: set_map) (simp_all add: set_insort_key)

section \<open>Operations\<close>

lemma atomic_ins_epg:
  "ep_id r = i \<Longrightarrow> atomic (bindD (run_stmt (ins_epg r)) (\<lambda>_. get_epg_source i))"
  by (rule atomic_bind_ok [OF atomic_run_stmt]) (auto simp: dbm_simps get_epg_err ids_stable)

lemma atomic_create_epg: "atomic (create_epg_source dur now e k)"
  unfolding create_epg_source_def create_epg_source_tx_def
  by (rule atomic_ins_epg atomic_ro_bind ro_rules epg_row.select_convs)+

lemma atomic_update_epg: "atomic (update_epg_source dur now i e k)"
  unfolding atomic_def update_epg_source_def dbm_simps get_epg_err
  by (auto dest!: get_Inr simp: ids_stable)

lemma atomic_update_relay: "atomic (update_relay now i name slug)"
  unfolding atomic_def update_relay_def Let_def dbm_simps get_relay_err
  by (auto dest!: get_Inr simp: ids_stable)

lemma atomic_new_relay:
  "atomic (bindD (with_tx (bindD (insert_relay_row name slug now)
     (\<lambda>i. bindD (insert_group_row i title ord) (\<lambda>_. okD i)))) get_relay)"
  by (rule atomic_bind_ok [OF atomic_with_tx])
    (auto simp: dbm_simps insert_relay_row_def insert_group_row_def get_relay_err ids_stable)

lemma atomic_create_relay: "atomic (create_relay now name slug)"
  unfolding create_relay_def Let_def
  by (rule atomic_new_relay atomic_ro_bind ro_rules)+

lemma atomic_then_ok: "atomic m \<Longrightarrow> (\<And>x. f x = okD (g x)) \<Longrightarrow> atomic (bindD m f)"
  by (rule atomic_bind_ok) (simp_all add: dbm_simps)

lemma atomic_insert_group: "atomic (insert_group_row rid name ord)"
  unfolding insert_group_row_def
  by (rule atomic_then_ok [OF atomic_run_stmt refl] atomic_ro_bind ro_rules)+

lemma atomic_create_group: "atomic (create_relay_group rid raw)"
  unfolding create_relay_group_def Let_def
  by (rule atomic_then_ok [OF atomic_insert_group refl] atomic_ro_bind ro_rules)+

lemma find_update_none:
  "(\<And>r. p (f r) = p r) \<Longrightarrow> find p (update_where p f rows) = None \<Longrightarrow> filter p rows = []"
  by (induction rows) (auto simp: update_where_def split: if_splits)

lemma atomic_group_renamed:
  assumes "\<And>g. p (f g) = p g"
  shows "atomic (bindD (stmt_rows (\<lambda>d. length (filter p (t_groups d))) (upd_groups p f)) (\<lambda>k.
    bindD (guardD (k \<noteq> 0) e) (\<lambda>_.
    (\<lambda>d. case find p (t_groups d) of None \<Rightarrow> (Inl e2, d) | Some g \<Rightarrow> (Inr g, d)))))"
  using find_update_none [of p f, OF assms]
  by (intro atomic_rows_then del_none) (auto simp: upd_groups_def split: option.splits)

lemma atomic_update_group: "atomic (update_relay_group rid gid raw)"
  unfolding update_relay_group_def Let_def
  by (intro atomic_ro_bind [OF ro_guardD] atomic_group_renamed) simp

lemma settings_read:
  "settings_rows d = 0 \<Longrightarrow> upd_settings f d = d" "settings_rows (upd_settings f d) = settings_rows d"
  "settings_rows d \<noteq> 0 \<Longrightarrow> get_brand_settings d \<noteq> (Inl e, d')"
  "settings_rows d \<noteq> 0 \<Longrightarrow> get_transcode_settings d \<noteq> (Inl e, d')"
  "get_transcode_settings d = (Inr ts, d') \<Longrightarrow> d' = d"
  by (auto simp: settings_rows_def upd_settings_def get_brand_settings_def get_transcode_settings_def
      split: option.splits)

lemma atomic_settings: "atomic (update_app_settings rcount t b)" "atomic (update_brand_settings rcount bs)"
proof -
  let ?read = "bindD get_transcode_settings (\<lambda>saved. bindD get_brand_settings (\<lambda>got. okD (saved, got)))"
  have read: "?read (upd_settings f d) \<noteq> (Inl e, d')" if "settings_rows d \<noteq> 0" for f d e d'
  proof
    assume run: "?read (upd_settings f d) = (Inl e, d')"
    have some: "settings_rows (upd_settings f d) \<noteq> 0" using that settings_read(2) by simp
    then obtain x d1 where "get_transcode_settings (upd_settings f d) = (Inr x, d1)"
      "get_brand_settings d1 = (Inl e, d')"
      using run settings_read(4) [OF some] by (auto simp: dbm_simps)
    then show False using settings_read(5) settings_read(3) [OF some] by metis
  qed
  show "atomic (update_app_settings rcount t b)"
    unfolding update_app_settings_def require_settings_row_def
    by (rule atomic_rows_then [OF settings_read(1)] atomic_ro_bind ro_rules | use read in blast)+
  show "atomic (update_brand_settings rcount bs)"
    unfolding update_brand_settings_def require_settings_row_def
    by (rule atomic_rows_then [OF settings_read(1)] atomic_ro_bind ro_rules | metis settings_read(2,3))+
qed

lemma atomic_memberships:
  "atomic (add_membership rid m)" "atomic (update_membership i m)" "atomic (delete_membership i)"
  by (simp_all add: add_membership_def update_membership_def delete_membership_def atomic_with_tx)

lemma atomic_marks: "atomic (mark_epg_refresh i t msg now)" "atomic (mark_epg_refresh_error i msg now)"
  by (simp_all add: mark_epg_refresh_def mark_epg_refresh_error_def atomic_run_stmt)

lemma atomic_pair_ok: "atomic (bindD (with_tx m) (\<lambda>(a, b). okD (g a b)))"
  by (rule atomic_bind_ok [OF atomic_with_tx]) (auto simp: dbm_simps)

lemma atomic_imports:
  "atomic (import_relay uuid dur sd now ri)" "atomic (import_channels uuid now es)"
  "atomic (restore_library uuid uok now b)"
  unfolding import_relay_def import_channels_def restore_library_def Let_def
  by (rule atomic_with_tx atomic_pair_ok atomic_ro_bind ro_rules)+

section \<open>Operations that read back what they wrote\<close>

text \<open>No statement of an update takes away the row that is read back.\<close>

interpretation px_ids: db_view "\<lambda>d. px_id ` set (t_proxies d)"
  by unfold_locales simp

interpretation rl_ids: db_view "\<lambda>d. rl_id ` set (t_relays d)"
  by unfold_locales simp

interpretation cr_ids: db_view "\<lambda>d. cr_id ` set (t_channels d)"
  by unfold_locales simp

lemma ids_upd:
  "(\<And>r. px_id (f r) = px_id r) \<Longrightarrow> px_id ` set (t_proxies (upd_proxy i f d)) = px_id ` set (t_proxies d)"
  "(\<And>r. cr_id (g r) = cr_id r) \<Longrightarrow> cr_id ` set (t_channels (upd_channel i g d)) = cr_id ` set (t_channels d)"
  "(\<And>r. rl_id (h r) = rl_id r) \<Longrightarrow> rl_id ` set (t_relays (upd_relay n h d)) = rl_id ` set (t_relays d)"
  unfolding set_map [symmetric]
  by (simp_all add: upd_proxy_def upd_channel_def upd_relay_def map_update_where del: set_map)

lemma ids_untouched:
  "t_proxies (upd_channel i g d) = t_proxies d" "t_proxies (touch_channels ids now d) = t_proxies d"
  "t_proxies (del_servers i d) = t_proxies d" "t_proxies (ins_server s d) = t_proxies d"
  "t_relays (upd_groups gp gf d) = t_relays d" "t_relays (upd_members mp mf d) = t_relays d"
  "t_channels (ins_upstream u d) = t_channels d" "t_channels (del_upstreams i d) = t_channels d"
  by (simp_all add: upd_channel_def touch_channels_def del_servers_def ins_server_def upd_groups_def
      upd_members_def ins_upstream_def del_upstreams_def)

lemma update_proxy_ids:
  "frames (\<lambda>d. px_id ` set (t_proxies d)) (update_proxy_tx uuid now i inp p)"
  unfolding update_proxy_tx_def refresh_proxy_dependents_def refresh_channel_def insert_proxy_servers_def
    Let_def
  by (rule px_ids.frame_intros px_ids.frames_ro ro_rules
      | simp add: ids_upd ids_untouched)+

lemma update_channel_ids:
  "frames (\<lambda>d. cr_id ` set (t_channels d)) (update_channel_tx uuid now i inp c h t epg tvg)"
  unfolding update_channel_tx_def replace_channel_upstreams_def insert_channel_upstreams_def Let_def
  by (rule cr_ids.frame_intros cr_ids.frames_ro ro_rules | simp add: ids_upd ids_untouched)+

lemma layout_ids:
  "frames (\<lambda>d. rl_id ` set (t_relays d)) (replace_layout_tx now rid l gs ms)"
  unfolding replace_layout_tx_def place_group_def place_member_def Let_def
  by (rule rl_ids.frame_intros rl_ids.frames_ro ro_rules | simp add: ids_upd ids_untouched)+

lemma with_tx_same: "with_tx m d = (Inl e, d') \<Longrightarrow> same_db d d'"
  by (auto simp: dbm_simps)

lemma atomic_update_proxy: "atomic (update_proxy uuid now i inp)"
  unfolding atomic_def
proof (intro allI impI)
  fix d e d' assume run: "update_proxy uuid now i inp d = (Inl e, d')"
  show "same_db d d'"
  proof (rule ccontr)
    assume no: "\<not> same_db d d'"
    then obtain p a d2 where g: "get_proxy (trim_space i) d = (Inr p, d)"
      and u: "update_proxy_tx uuid now (trim_space i) inp p d = (Inr a, d2)"
      and f: "get_proxy (trim_space i) d2 = (Inl e, d')"
      using run unfolding update_proxy_def Let_def
      by (auto simp: dbm_simps get_proxy_err dest: get_Inr(4))
    have "px_id ` set (t_proxies d2) = px_id ` set (t_proxies d)"
      using update_proxy_ids u unfolding frames_def by blast
    then show False using get_Inr(4) [OF g] f by (simp add: get_proxy_err)
  qed
qed

lemma atomic_update_channel: "atomic (update_channel uuid now i inp)"
  unfolding atomic_def
proof (intro allI impI)
  fix d e d' assume run: "update_channel uuid now i inp d = (Inl e, d')"
  show "same_db d d'"
  proof (rule ccontr)
    assume no: "\<not> same_db d d'"
    then obtain c h t epg tvg x d1 d2 where g1: "get_channel i d = (Inr c, d1)"
      and u1: "update_channel_tx uuid now i inp c h t epg tvg d1 = (Inr x, d2)"
      and f: "get_channel i d2 = (Inl e, d')"
      using run unfolding update_channel_def
      by (fastforce simp: dbm_simps get_channel_err dest: get_Inr(3) split: prod.splits)
    have g: "get_channel i d = (Inr c, d)" and u: "update_channel_tx uuid now i inp c h t epg tvg d = (Inr x, d2)"
      using get_Inr(3) [OF g1] g1 u1 by auto
    have "cr_id ` set (t_channels d2) = cr_id ` set (t_channels d)"
      using update_channel_ids u unfolding frames_def by blast
    then show False using get_Inr(3) [OF g] f by (simp add: get_channel_err)
  qed
qed

lemma atomic_layout: "atomic (replace_relay_layout now rid l)"
  unfolding atomic_def
proof (intro allI impI)
  fix d e d' assume run: "replace_relay_layout now rid l d = (Inl e, d')"
  show "same_db d d'"
  proof (rule ccontr)
    assume no: "\<not> same_db d d'"
    then obtain r gs ms x d2 where g: "get_relay rid d = (Inr r, d)"
      and u: "replace_layout_tx now rid l gs ms d = (Inr x, d2)"
      and f: "get_relay rid d2 = (Inl e, d')"
      using run unfolding replace_relay_layout_def get_relay_detail_def
      by (auto simp: dbm_simps get_relay_err dest: get_Inr(1))
    have "rl_id ` set (t_relays d2) = rl_id ` set (t_relays d)"
      using layout_ids u unfolding frames_def by blast
    then show False using get_Inr(1) [OF g] f by (simp add: get_relay_err)
  qed
qed

text \<open>Random ids come without blanks around them.\<close>

definition ids_clean :: "store_env \<Rightarrow> bool" where
  "ids_clean v \<longleftrightarrow> (\<forall>n. v_uuid v n \<noteq> [] \<and> trim_space (v_uuid v n) = v_uuid v n)"

lemma create_proxy_row:
  assumes "create_proxy_tx uuid now inp d = (Inr i, d')"
  shows "i \<in> range uuid \<and> i \<in> px_id ` set (t_proxies d')"
proof -
  obtain spec d1 r u where i: "i \<in> range uuid" and r: "px_id r = i"
    and s: "insert_proxy_servers i spec (ins_proxy r d1) = (Inr u, d')"
    using assms unfolding create_proxy_tx_def insert_proxy_row_def by (force simp: dbm_simps)
  have "frames (\<lambda>d. px_id ` set (t_proxies d)) (insert_proxy_servers i spec)"
    unfolding insert_proxy_servers_def
    by (rule px_ids.frame_intros px_ids.frames_ro ro_rules | simp add: ids_untouched)+
  then have "px_id ` set (t_proxies d') = px_id ` set (t_proxies (ins_proxy r d1))"
    using s unfolding frames_def by blast
  with i r show ?thesis by (simp add: ins_proxy_def)
qed

lemma create_channel_row:
  assumes "create_channel_tx uuid now inp d = (Inr c, d')"
  shows "ch_id c \<in> range uuid \<and> ch_id c \<in> cr_id ` set (t_channels d')"
proof -
  obtain n d1 where i: "insert_channel_tx uuid now (uuid n) inp d1 = (Inr c, d')"
    using assms by (auto simp: create_channel_tx_def dbm_simps)
  obtain r where "find (\<lambda>r. cr_id r = uuid n) (t_channels d') = Some r" "c = scan_channel r"
    using i by (auto simp: insert_channel_tx_def dbm_simps split: option.splits)
  then show ?thesis using find_key_Some by (force simp: scan_channel_def)
qed

lemma clean_id: "ids_clean v \<Longrightarrow> i \<in> range (v_uuid v) \<Longrightarrow> i \<noteq> [] \<and> trim_space i = i"
  by (auto simp: ids_clean_def)

lemma atomic_creates:
  assumes "ids_clean v"
  shows "atomic (create_proxy (v_uuid v) now p)" "atomic (create_channel (v_uuid v) now c)"
proof -
  show "atomic (create_proxy (v_uuid v) now p)"
    unfolding create_proxy_def
  proof (rule atomic_bind_ok [OF atomic_with_tx])
    fix d i d' e d'' assume "with_tx (create_proxy_tx (v_uuid v) now p) d = (Inr i, d')"
      and f: "get_proxy i d' = (Inl e, d'')"
    then have "i \<in> range (v_uuid v) \<and> i \<in> px_id ` set (t_proxies d')"
      by (simp add: with_tx_Inr create_proxy_row)
    then show False using clean_id [OF assms] f by (simp add: get_proxy_err)
  qed
  show "atomic (create_channel (v_uuid v) now c)"
    unfolding create_channel_def
  proof (rule atomic_bind_ok [OF atomic_with_tx])
    fix d ch d' e d'' assume "with_tx (create_channel_tx (v_uuid v) now c) d = (Inr ch, d')"
      and f: "get_channel (ch_id ch) d' = (Inl e, d'')"
    then have "ch_id ch \<in> range (v_uuid v) \<and> ch_id ch \<in> cr_id ` set (t_channels d')"
      by (simp add: with_tx_Inr create_channel_row)
    then show False using clean_id [OF assms] f by (simp add: get_channel_err)
  qed
qed

lemmas atomic_operations = atomic_deletes atomic_create_epg atomic_update_epg atomic_update_relay
  atomic_create_relay atomic_create_group atomic_update_group atomic_settings atomic_memberships
  atomic_marks atomic_imports atomic_update_proxy atomic_update_channel atomic_layout

lemma atomic_exec: "ids_clean v \<Longrightarrow> atomic (exec v now op')"
  by (cases op') (simp_all add: done_with_def atomic_operations atomic_creates atomic_then_ok)

section \<open>Properties\<close>


definition sample_env :: store_env where
  "sample_env = \<lparr> v_uuid = (\<lambda>n. replicate (Suc n) CHR ''u''), v_dur = (\<lambda>_. Some hour_ns), v_show_dur = show_int,
     v_runes = length, v_uuid_ok = (\<lambda>i. i \<noteq> []) \<rparr>"

lemma sample_env_clean: "ids_clean sample_env"
proof -
  have "set (replicate (Suc n) CHR ''u'') \<inter> set space_bytes = {}" for n
    by (simp add: space_bytes_def space_runes_def)
  then have "trim_space (replicate (Suc n) CHR ''u'') = replicate (Suc n) CHR ''u''" for n
    by (rule trim_space_id)
  then show ?thesis by (simp add: ids_clean_def sample_env_def)
qed

lemma sample_conflict:
  "fst (exec sample_env ''t'' (CreateRelay ''Second'' ''r'') sample_db) = Inl (ErrConflict ''slug already exists'')"
  by code_simp


end
