(* ===== verification/StoreHistory.thy ===== *)
theory StoreHistory
  imports StoreInvariant StoreAtomic
begin

text \<open>
  Histories of the store: an invariant every operation settles, succeed or fail, holds after any list
  of operations on an empty database.
\<close>

definition settles :: "(db \<Rightarrow> bool) \<Rightarrow> 'v dbm \<Rightarrow> bool" where
  "settles I m \<longleftrightarrow> (\<forall>d r d'. I d \<longrightarrow> m d = (r, d') \<longrightarrow> I d')"

context db_invariant
begin

lemma settles_ro: "read_only m \<Longrightarrow> settles I m"
  unfolding settles_def read_only_def using I_same by blast

lemma settles_with_tx: "keeps I m \<Longrightarrow> settles I (with_tx m)"
  unfolding settles_def keeps_def with_tx_def
  by (auto simp: I_fresh split: prod.splits sum.splits)

lemma settles_bindD:
  assumes "settles I m" "\<And>x. settles I (f x)"
  shows "settles I (bindD m f)"
  unfolding settles_def
proof (intro allI impI)
  fix d r d' assume d: "I d" and run: "bindD m f d = (r, d')"
  obtain r1 d1 where m: "m d = (r1, d1)" by (cases "m d")
  then have I1: "I d1" using assms(1) d by (simp add: settles_def)
  show "I d'"
  proof (cases r1)
    case (Inl e)
    then show ?thesis using run m I1 by (simp add: bindD_def)
  next
    case (Inr x)
    then have "f x d1 = (r, d')" using run m by (simp add: bindD_def)
    then show ?thesis using assms(2) [of x] I1 by (simp add: settles_def)
  qed
qed

lemma settles_bind_post:
  assumes "settles I m" "\<And>d x d'. I d \<Longrightarrow> m d = (Inr x, d') \<Longrightarrow> P x" "\<And>x. P x \<Longrightarrow> settles I (f x)"
  shows "settles I (bindD m f)"
proof -
  have "settles I (bindD m (\<lambda>x. if P x then f x else okD undefined))"
    using assms(1,3) by (intro settles_bindD) (simp_all add: settles_ro ro_okD)
  moreover have "bindD m (\<lambda>x. if P x then f x else okD undefined) d = bindD m f d" if "I d" for d
    using assms(2) [OF that] by (auto simp: bindD_def split: prod.splits sum.splits)
  ultimately show ?thesis by (simp add: settles_def)
qed

lemma settles_mapErrD: "settles I m \<Longrightarrow> settles I (mapErrD g m)"
  unfolding settles_def mapErrD_def by (auto split: prod.splits sum.splits)

lemma settles_run_stmt: "keeps I (run_stmt f) \<Longrightarrow> settles I (run_stmt f)"
  unfolding settles_def keeps_def run_stmt_def by (auto split: option.splits)

lemma settles_stmt_rows: "keeps I (stmt_rows n f) \<Longrightarrow> settles I (stmt_rows n f)"
  unfolding settles_def keeps_def stmt_rows_def bindD_def run_stmt_def okD_def
  by (auto split: option.splits)

lemma settles_prod: "(\<And>a b. settles I (f a b)) \<Longrightarrow> settles I (case_prod f x)"
  by (simp split: prod.splits)

lemma settles_atomic: "keeps I m \<Longrightarrow> atomic m \<Longrightarrow> settles I m"
  unfolding settles_def using keeps_atomic by blast

lemmas settles_intros = settles_bindD settles_mapErrD settles_with_tx settles_prod settles_run_stmt
  settles_stmt_rows

lemma settles_foldl:
  "I d \<Longrightarrow> (\<And>x. x \<in> set xs \<Longrightarrow> settles I (f x)) \<Longrightarrow> I (foldl (\<lambda>d x. snd (f x d)) d xs)"
proof (induction xs arbitrary: d)
  case (Cons x xs)
  obtain r d' where "f x d = (r, d')" by (cases "f x d")
  then have "I (snd (f x d))" using Cons.prems unfolding settles_def by (metis list.set_intros(1) snd_conv)
  then show ?case using Cons by simp
qed simp

end

lemmas exec_defs = exec.simps done_with_def
  create_proxy_def update_proxy_def delete_proxy_def create_channel_def
  delete_channel_def create_epg_source_def create_epg_source_tx_def update_epg_source_def delete_epg_source_def
  mark_epg_refresh_def mark_epg_refresh_error_def create_relay_def update_relay_def delete_relay_def
  create_relay_group_def update_relay_group_def add_membership_def
  update_membership_def delete_membership_def update_app_settings_def update_brand_settings_def
  import_channels_def

section \<open>The schema\<close>

lemma schema_memberships [keep_rules]:
  "keeps schema_ok (add_membership_tx rid inp)" "keeps schema_ok (update_membership_tx i inp)"
  "keeps schema_ok (delete_membership_tx i)" "keeps schema_ok (ensure_group rid gs raw)"
  "keeps schema_ok (replace_layout_tx now rid lay grs mbs)"
  unfolding add_membership_tx_def update_membership_tx_def delete_membership_tx_def ensure_group_def
    replace_layout_tx_def place_group_def place_member_def Let_def
  by (rule schema.keeps_intros keep_rules schema.keeps_ro ro_rules)+

lemma schema_restores [keep_rules]:
  "keeps schema_ok (import_entry_step uuid now rid ids st ent)"
  "keeps schema_ok (restore_relay now brl)"
  unfolding import_entry_step_def restore_relay_def restore_group_def restore_member_def Let_def
  by (rule schema.keeps_intros keep_rules schema.keeps_ro ro_rules)+

lemma schema_groups [keep_rules]:
  "keeps schema_ok (delete_relay_group rid gid)" "keeps schema_ok (replace_relay_layout now rid lay)"
  unfolding delete_relay_group_def replace_relay_layout_def Let_def
  by (rule schema.keeps_intros keep_rules schema.keeps_ro ro_rules)+

lemma schema_exec: "settles schema_ok (exec v now op')"
  apply (cases op'; simp only: exec_defs update_channel_def import_relay_def import_relay_tx_def
    restore_library_def restore_library_tx_def Let_def)
  apply (rule schema.settles_atomic [OF _ atomic_insert_group] schema.settles_atomic [OF _ atomic_layout]
    schema.settles_atomic [OF _ atomic_deletes(5)] schema.settles_intros schema.keeps_intros keep_rules schema.settles_ro schema.keeps_ro ro_rules)+
  done

section \<open>Lineups\<close>

text \<open>The statements outside the lineups keep them.\<close>

lemma store_framed_rows [store_rules]:
  "keeps store_inv (run_stmt (upd_epg n ef))" "keeps store_inv (run_stmt (ins_epg e))"
  "keeps store_inv (run_stmt (upd_relay n rf))"
  "keeps store_inv (stmt_rows k (del_proxies q))" "keeps store_inv (stmt_rows k (del_channels p))"
  "keeps store_inv (stmt_rows k (del_epgs z))" "keeps store_inv (stmt_rows k (upd_settings sf))"
  by (rule keeps_framed lineup.frame_intros frame_stmts keep_rules)+

lemma store_framed_txs [store_rules]:
  "keeps store_inv (create_proxy_tx uuid now pin)"
  "keeps store_inv (update_proxy_tx uuid now i pin px)"
  "keeps store_inv (create_channel_tx uuid now inp)"
  "keeps store_inv (update_channel_tx uuid now i inp ex h t epg tvg)"
  "keeps store_inv (import_channels_step uuid now sti ient)"
  by (rule keeps_framed frame_ops keep_rules)+

lemma store_exec: "\<not> is_restore op' \<Longrightarrow> settles store_inv (exec v now op')"
  apply (cases op'; simp only: exec_defs update_channel_def import_relay_def import_relay_tx_def is_restore.simps
     Let_def simp_thms)
  apply (rule store.settles_atomic [OF _ atomic_insert_group] store.settles_atomic [OF _ atomic_layout]
    store.settles_atomic [OF _ atomic_deletes(5)] store.settles_intros store.keeps_intros store_rules store.settles_ro store.keeps_ro ro_rules)+
  done

section \<open>EPG pairs\<close>

text \<open>A channel has both an EPG source and a guide id, or neither.\<close>

definition pairs_ok :: "db \<Rightarrow> bool" where
  "pairs_ok d \<longleftrightarrow> (\<forall>r \<in> set (t_channels d). cr_epg r = None \<longleftrightarrow> cr_tvg r = [])"

interpretation pair: db_invariant pairs_ok
  by unfold_locales (simp add: pairs_ok_def)

named_theorems pair_rules "operations that keep the pairs complete"

lemma pair_stmt: "(\<And>d. t_channels (g d) = t_channels d) \<Longrightarrow> keeps pairs_ok (run_stmt g)"
  by (rule pair.keeps_run_stmt) (simp add: pairs_ok_def)

lemma pair_rows: "(\<And>d. t_channels (g d) = t_channels d) \<Longrightarrow> keeps pairs_ok (stmt_rows n g)"
  by (rule pair.keeps_stmt_rows) (simp add: pairs_ok_def)

lemma pair_upd: "(\<And>r. cr_epg r = None \<longleftrightarrow> cr_tvg r = [] \<Longrightarrow> cr_epg (f r) = None \<longleftrightarrow> cr_tvg (f r) = []) \<Longrightarrow>
    keeps pairs_ok (run_stmt (upd_channel i f))"
  by (rule pair.keeps_run_stmt) (auto simp: pairs_ok_def upd_channel_def set_update_where)

lemma pair_ins: "(cr_epg r = None \<longleftrightarrow> cr_tvg r = []) \<Longrightarrow> keeps pairs_ok (run_stmt (ins_channel r))"
  by (rule pair.keeps_run_stmt) (auto simp: pairs_ok_def ins_channel_def)

lemma pair_touch: "keeps pairs_ok (run_stmt (touch_channels ids now))"
  by (rule pair.keeps_run_stmt) (auto simp: pairs_ok_def touch_channels_def set_update_where)

lemma pair_dels: "keeps pairs_ok (run_stmt (del_channels p))" "keeps pairs_ok (stmt_rows n (del_channels p))"
  by (rule pair.keeps_run_stmt pair.keeps_stmt_rows;
      auto simp: pairs_ok_def del_channels_def Let_def set_delete_where)+

text \<open>A lifted value is known when the rest runs.\<close>

lemma pair_lift: "(\<And>x. r = Inr x \<Longrightarrow> keeps pairs_ok (f x)) \<Longrightarrow> keeps pairs_ok (bindD (liftD r) f)"
  by (auto simp: keeps_def dbm_simps)

lemma pair_prod: "(\<And>a b. x = (a, b) \<Longrightarrow> keeps pairs_ok (f a b)) \<Longrightarrow> keeps pairs_ok (case_prod f x)"
  by (simp split: prod.splits)

lemma resolve_epg_pair:
  assumes "resolve_channel_epg inp existing = Inr (e, t)"
    "\<And>c. existing = Some c \<Longrightarrow> ch_epg c = None \<longleftrightarrow> ch_tvg c = []"
  shows "e = None \<longleftrightarrow> t = []"
proof (cases "cin_epg inp = None \<and> cin_tvg inp = None")
  case True
  then show ?thesis using assms by (auto simp: resolve_channel_epg_def split: option.splits)
next
  case False
  then obtain x y where "cin_epg inp = x" "cin_tvg inp = y" "x \<noteq> None \<or> y \<noteq> None" by blast
  then show ?thesis using assms(1)
    by (cases x; cases y) (auto simp: resolve_channel_epg_def split: if_splits dest!: sym [of "Some _"])
qed

lemma import_epg_pair: "resolve_import_channel_epg ent ids = (s, t) \<Longrightarrow> s = None \<longleftrightarrow> t = []"
  by (auto simp: resolve_import_channel_epg_def Let_def split: if_splits option.splits)

lemma pair_txs [pair_rules]:
  "keeps pairs_ok (insert_proxy_servers px spec)"
  "keeps pairs_ok (insert_proxy_row i spec now)"
  "keeps pairs_ok (insert_channel_upstreams i cspec)"
  "keeps pairs_ok (replace_channel_upstreams i cspec)"
  "keeps pairs_ok (insert_relay_row name slug now)"
  "keeps pairs_ok (insert_group_row k name ord)"
  "keeps pairs_ok (refresh_channel px c)"
  "keeps pairs_ok (renumber_relay_memberships k)"
  unfolding insert_proxy_servers_def insert_proxy_row_def insert_channel_upstreams_def
    insert_relay_row_def insert_group_row_def refresh_channel_def Let_def replace_channel_upstreams_def
    renumber_relay_memberships_def set_number_def
  by (rule pair_stmt [OF chan_view_stmts(1)] pair_stmt [OF chan_view_stmts(4)] pair_stmt [OF chan_view_stmts(10)]
      pair_stmt [OF chan_view_stmts(11)] pair_stmt [OF chan_view_stmts(12)] pair_stmt [OF chan_view_stmts(15)]
      pair_stmt [OF chan_view_stmts(19)] pair_upd pair.keeps_intros pair.keeps_ro ro_rules | simp)+

lemma pair_insert_channel [pair_rules]: "keeps pairs_ok (insert_channel_tx uuid now i inp)"
  unfolding insert_channel_tx_def
  by (rule pair_lift pair_prod pair.keeps_bindD pair.keeps_mapErrD pair_ins pair_rules pair.keeps_ro ro_rules
      | use resolve_epg_pair in force)+

lemma pair_if: "(b \<Longrightarrow> keeps pairs_ok m) \<Longrightarrow> (\<not> b \<Longrightarrow> keeps pairs_ok m') \<Longrightarrow> keeps pairs_ok (if b then m else m')"
  by simp

lemma pair_fill: "c \<and> tvg \<noteq> [] \<Longrightarrow> keeps pairs_ok (fill_channel_epg now ch e tvg)"
  unfolding fill_channel_epg_def by (rule pair_upd) simp

lemma pair_import_channel [pair_rules]: "keeps pairs_ok (import_channel uuid now ids st ent)"
  unfolding import_channel_def create_channel_tx_def
  by (rule pair_prod pair.keeps_bindD pair.keeps_option pair_if pair_rules pair_fill
      pair.keeps_ro ro_rules | assumption)+

lemma pair_txs2 [pair_rules]:
  "keeps pairs_ok (create_channel_tx uuid now inp)"
  "keeps pairs_ok (refresh_proxy_dependents px now)"
  "keeps pairs_ok (create_epg_source_tx dur now e k)"
  "keeps pairs_ok (append_channel_upstream uuid now i raw p)"
  "keeps pairs_ok (create_proxy_tx uuid now pin)"
  "keeps pairs_ok (ensure_group rid gs raw)"
  "keeps pairs_ok (add_membership_tx rid minp)" "keeps pairs_ok (update_membership_tx k minp)"
  "keeps pairs_ok (delete_membership_tx k)" "keeps pairs_ok (replace_layout_tx now rid lay grs mbs)"
  unfolding refresh_proxy_dependents_def create_channel_tx_def ensure_group_def add_membership_tx_def
    update_membership_tx_def delete_membership_tx_def replace_layout_tx_def place_group_def place_member_def
    create_epg_source_tx_def append_channel_upstream_def create_proxy_tx_def Let_def
  by (rule pair_stmt [OF chan_view_stmts(6)] pair_stmt [OF chan_view_stmts(7)] pair_stmt [OF chan_view_stmts(10)]
      pair_stmt [OF chan_view_stmts(13)] pair_stmt [OF chan_view_stmts(16)] pair_stmt [OF chan_view_stmts(18)]
      pair_stmt [OF chan_view_stmts(19)]
      pair_rows [OF chan_view_stmts(20)] pair_touch pair_rules pair_upd pair.keeps_intros pair.keeps_ro ro_rules | simp)+

lemma pair_imports [pair_rules]:
  "keeps pairs_ok (import_epg dur sd now k st x)"
  "keeps pairs_ok (import_channels_step uuid now sti ient)"
  "keeps pairs_ok (import_entry_step uuid now rid ids ist ent)"
  "keeps pairs_ok (update_proxy_tx uuid now i pin px)"
  unfolding import_epg_def import_channels_step_def import_entry_step_def update_proxy_tx_def Let_def
  by (rule pair_rules pair_stmt [OF chan_view_stmts(2)] pair_stmt [OF chan_view_stmts(5)] pair.keeps_intros
      pair.keeps_ro ro_rules)+

lemma pair_update_channel: "settles pairs_ok (update_channel uuid now i inp)"
proof -
  have tx: "keeps pairs_ok (update_channel_tx uuid now i inp c h t epg tvg)"
    if "epg = None \<longleftrightarrow> tvg = []" for c h t epg tvg
    unfolding update_channel_tx_def
    by (rule pair.keeps_intros pair_rules pair_upd pair.keeps_ro ro_rules | simp add: that)+
  have got: "ch_epg c = None \<longleftrightarrow> ch_tvg c = []" if d: "pairs_ok d" and g: "get_channel i d = (Inr c, d')" for c d d'
  proof -
    obtain r where r: "find (\<lambda>r. cr_id r = trim_space i) (t_channels d) = Some r" "ch_epg c = cr_epg r" "ch_tvg c = cr_tvg r"
      using g by (auto simp: get_channel_def Let_def failD_def attach_channel_upstreams_def
          scan_channel_def split: if_splits option.splits)
    then show ?thesis using d find_key_Some [OF r(1)] by (simp add: pairs_ok_def)
  qed
  have lift: "settles pairs_ok (bindD (liftD (resolve_channel_epg inp (Some c))) (\<lambda>(epg, tvg).
      bindD (with_tx (update_channel_tx uuid now i inp c h t epg tvg)) (\<lambda>_. get_channel i)))"
    if "ch_epg c = None \<longleftrightarrow> ch_tvg c = []" for c h t
  proof (rule pair.settles_bind_post [where P = "\<lambda>p. fst p = None \<longleftrightarrow> snd p = []"])
    fix x d d' assume "liftD (resolve_channel_epg inp (Some c)) d = (Inr x, d')"
    then show "fst x = None \<longleftrightarrow> snd x = []"
      using that resolve_epg_pair [of inp "Some c" "fst x" "snd x"] by (simp add: dbm_simps)
  qed (auto intro!: pair.settles_ro [OF ro_liftD] pair.settles_bindD pair.settles_with_tx tx
      pair.settles_ro [OF ro_reads(1)] split: prod.split)
  show ?thesis
    unfolding update_channel_def
    by (rule pair.settles_bind_post [OF _ got] pair.settles_bindD lift pair.settles_ro ro_rules | assumption)+
qed

lemma pair_restores [pair_rules]:
  "keeps pairs_ok wipe" "keeps pairs_ok (restore_proxy uuid ok now bp)" "keeps pairs_ok (restore_epg now be)"
  "keeps pairs_ok (restore_channel uuid ok now idl nl bc)" "keeps pairs_ok (restore_relay now brl)"
  unfolding wipe_def restore_proxy_def restore_epg_def restore_channel_def restore_relay_def
    restore_group_def restore_member_def Let_def
  by (rule pair_rules pair_dels pair_stmt [OF chan_view_stmts(3)] pair_stmt [OF chan_view_stmts(6)]
      pair_stmt [OF chan_view_stmts(8)] pair_stmt [OF chan_view_stmts(12)] pair_stmt [OF chan_view_stmts(14)]
      pair_stmt [OF chan_view_stmts(15)] pair_stmt [OF chan_view_stmts(18)] pair.keeps_intros
      pair.keeps_ro ro_rules)+

lemmas pair_stmts = pair_stmt [OF chan_view_stmts(6)] pair_stmt [OF chan_view_stmts(15)] pair_stmt [OF chan_view_stmts(7)]
  pair_stmt [OF chan_view_stmts(13)] pair_rows [OF chan_view_stmts(3)] pair_rows [OF chan_view_stmts(8)]
  pair_rows [OF chan_view_stmts(9)] pair_rows [OF chan_view_stmts(14)] pair_rows [OF chan_view_stmts(16)]
  pair_rows [OF chan_view_stmts(17)] pair_stmt [OF chan_view_stmts(21)] pair_dels

lemma pair_exec: "settles pairs_ok (exec v now op')"
  apply (cases op'; simp only: exec_defs import_relay_def import_relay_tx_def replace_relay_layout_def
    restore_library_def restore_library_tx_def delete_relay_group_def insert_group_row_def Let_def)
  apply (rule pair_update_channel pair.settles_intros pair.keeps_intros pair_stmts pair_rules pair.settles_ro pair.keeps_ro ro_rules)+
  done

section \<open>Properties\<close>

lemma schema_empty: "schema_ok empty_db"
  by (simp add: schema_ok_iff constraints_def foreign_keys_def unique_by_def refers_def refers_null_def
      empty_db_def)

lemma store_inv_empty: "store_inv empty_db"
proof -
  have "lineup_ok empty_db"
    by (simp add: lineup_ok_def groups_ok_def numbered_def lineup_def members_of_def empty_db_def)
  then show ?thesis by (simp add: store_inv_def schema_empty)
qed

lemma history_settles:
  assumes "db_invariant I" "I empty_db" "\<And>x. x \<in> set ops \<Longrightarrow> settles I (exec v (fst x) (snd x))"
  shows "I (history v ops)"
  unfolding history_def case_prod_beta
  using db_invariant.settles_foldl [OF assms(1,2), of ops "\<lambda>x. exec v (fst x) (snd x)"] assms(3) by simp

text \<open>C5: whatever operations ran, succeeded or failed, a backup restored among them or not, the tables
  satisfy every constraint of the schema and every channel has a complete EPG pair or none.\<close>

theorem store_consistent: "schema_ok (history v ops) \<and> pairs_ok (history v ops)"
proof
  show "schema_ok (history v ops)"
    by (rule history_settles [OF schema.db_invariant_axioms schema_empty schema_exec])
  show "pairs_ok (history v ops)"
    by (rule history_settles [OF pair.db_invariant_axioms _ pair_exec]) (simp add: pairs_ok_def empty_db_def)
qed

text \<open>C8: after any operations but a restore, every membership lies in a group of its relay and the
  channel numbers of each relay count its lineup from 1 without gaps.\<close>

theorem lineups_numbered:
  assumes "list_all (\<lambda>(_, op'). \<not> is_restore op') ops"
  shows "lineup_ok (history v ops)"
proof -
  have "store_inv (history v ops)"
    by (rule history_settles [OF store.db_invariant_axioms store_inv_empty store_exec])
      (use assms in \<open>auto simp: list_all_iff\<close>)
  then show ?thesis by (simp add: store_inv_def)
qed

text \<open>A relay with two channels; the second is put in front, then the first is taken out.\<close>

definition sample_ops :: "(string \<times> store_op) list" where
  "sample_ops =
     (let ch = (\<lambda>n. \<lparr> cin_name = n, cin_logo = [], cin_url = ''http://h/'' @ n, cin_upstreams = None, cin_policy = [],
            cin_fixed = [], cin_headers = None, cin_transcode = None, cin_epg = None, cin_tvg = None \<rparr>);
          mem = (\<lambda>i s. \<lparr> min_channel = i, min_group = 1, min_number = 0, min_sort = s \<rparr>) in
      [(''t1'', CreateRelay ''Home'' []), (''t2'', CreateChannel (ch ''A'')), (''t3'', CreateChannel (ch ''B'')),
       (''t4'', AddMembership 1 (mem ''u'' None)), (''t5'', AddMembership 1 (mem ''uuu'' None)),
       (''t6'', UpdateMembership 2 (mem [] (Some (- 1)))), (''t7'', DeleteMembership 1)])"

theorem lineups_numbered_witness: "lineup_ok (history sample_env sample_ops)"
proof (rule lineups_numbered)
  show "list_all (\<lambda>(_, op'). \<not> is_restore op') sample_ops" by (simp add: sample_ops_def Let_def)
qed

end
