(* ===== verification/StoreMigrate.thy ===== *)
theory StoreMigrate
  imports StoreModel
begin

text \<open>
  \<^verbatim>\<open>Open\<close> of \<^verbatim>\<open>internal/core/store/store.go\<close>: a database file of this or an earlier release is brought to the schema of
  \<^verbatim>\<open>ensureSchema\<close>.

  A file is its tables and what \<^verbatim>\<open>PRAGMA table_info\<close> and \<^verbatim>\<open>pragma_index_list\<close> tell of them: the tables that are
  missing (they have no rows), the columns that are there (a column that is not there has no values, whatever
  its field holds) and the indexes.  \<open>of_mappings\<close> are the guide columns that memberships had, by membership.
  A statement fails as in \<open>StoreModel\<close> if its outcome breaks a constraint, where the two unique indexes count once
  they exist; the statements before it stay.
\<close>

record db_file =
  of_tables :: db
  of_missing :: "string list"
  of_transcode :: bool
  of_policy :: bool
  of_fixed :: bool
  of_epg :: bool
  of_tvg :: bool
  of_proxy :: bool
  of_icon :: bool
  of_title :: bool
  of_mappings :: "(int \<times> int option \<times> string) list option"
  of_relay_epg :: bool
  of_direct_index :: bool
  of_name_index :: "bool option"

type_synonym migration = "db_file \<Rightarrow> (store_err + unit) \<times> db_file"

section \<open>Statements\<close>

definition direct_msg :: string where "direct_msg = ''UNIQUE constraint failed: channel_upstreams.url''"
definition name_msg :: string where "name_msg = ''UNIQUE constraint failed: channels.name''"

definition file_constraints :: "db_file \<Rightarrow> (string \<times> bool) list" where
  "file_constraints z =
     filter (\<lambda>(msg, _). (msg = direct_msg \<longrightarrow> of_direct_index z) \<and> (msg = name_msg \<longrightarrow> of_name_index z = Some True))
       (constraints (of_tables z))"

definition file_ok :: "db_file \<Rightarrow> bool" where
  "file_ok z \<longleftrightarrow> find (\<lambda>(_, ok). \<not> ok) (file_constraints z) = None"

definition statement :: "(db_file \<Rightarrow> db_file) \<Rightarrow> migration" where
  "statement f z = (case find (\<lambda>(_, ok). \<not> ok) (file_constraints (f z)) of
     None \<Rightarrow> (Inr (), f z) | Some (msg, _) \<Rightarrow> (Inl (ErrDb msg), z))"

definition nothing :: migration where "nothing z = (Inr (), z)"

definition and_then :: "migration \<Rightarrow> migration \<Rightarrow> migration" where
  "and_then m1 m2 z = (case m1 z of (Inl e, z1) \<Rightarrow> (Inl e, z1) | (Inr _, z1) \<Rightarrow> m2 z1)"

fun in_turn :: "migration list \<Rightarrow> migration" where
  "in_turn [] = nothing"
| "in_turn (m # ms) = and_then m (in_turn ms)"

definition on_channels :: "(channel_row \<Rightarrow> channel_row) \<Rightarrow> db_file \<Rightarrow> db_file" where
  "on_channels g z = z\<lparr>of_tables := (of_tables z)\<lparr>t_channels := map g (t_channels (of_tables z))\<rparr>\<rparr>"

definition on_settings :: "(settings_row \<Rightarrow> settings_row) \<Rightarrow> db_file \<Rightarrow> db_file" where
  "on_settings g z = z\<lparr>of_tables := (of_tables z)\<lparr>t_settings := map_option g (t_settings (of_tables z))\<rparr>\<rparr>"

text \<open>\<^verbatim>\<open>ALTER TABLE ADD COLUMN\<close> unless the column is there.\<close>

definition add_column :: "(db_file \<Rightarrow> bool) \<Rightarrow> (db_file \<Rightarrow> db_file) \<Rightarrow> migration" where
  "add_column there add z = (if there z then nothing z else statement add z)"

section \<open>The steps of ensureSchema\<close>

text \<open>\<^verbatim>\<open>CREATE TABLE IF NOT EXISTS\<close>: a new table has all its columns.\<close>

definition create_tables :: "db_file \<Rightarrow> db_file" where
  "create_tables z =
     (let new = (\<lambda>t. t \<in> set (of_missing z)) in
      z\<lparr>of_missing := [],
        of_transcode := (new ''channels'' \<or> of_transcode z), of_policy := (new ''channels'' \<or> of_policy z),
        of_fixed := (new ''channels'' \<or> of_fixed z), of_epg := (new ''channels'' \<or> of_epg z),
        of_tvg := (new ''channels'' \<or> of_tvg z), of_proxy := (new ''channel_upstreams'' \<or> of_proxy z),
        of_icon := (new ''app_settings'' \<or> of_icon z), of_title := (new ''app_settings'' \<or> of_title z),
        of_mappings := (if new ''relay_memberships'' then None else of_mappings z)\<rparr>)"

definition ensure_channel_transcode_column :: migration where
  "ensure_channel_transcode_column =
     add_column of_transcode (\<lambda>z. (on_channels (\<lambda>r. r\<lparr>cr_transcode := False\<rparr>) z)\<lparr>of_transcode := True\<rparr>)"

text \<open>\<^verbatim>\<open>backfillChannelUpstreams\<close>: the channels without upstreams, as they were when the query ran.\<close>

definition without_upstreams :: "db \<Rightarrow> (string \<times> string) list" where
  "without_upstreams d = map (\<lambda>r. (cr_id r, cr_url r))
     (filter (\<lambda>r. \<not> list_ex (\<lambda>u. ur_channel u = cr_id r) (t_upstreams d)) (t_channels d))"

definition backfill_row :: "(nat \<Rightarrow> string) \<Rightarrow> string \<times> string \<Rightarrow> migration" where
  "backfill_row uuid row z =
     (let i = uuid (fresh (of_tables z)); z1 = z\<lparr>of_tables := (of_tables z)\<lparr>fresh := Suc (fresh (of_tables z))\<rparr>\<rparr> in
      in_turn
        [statement (\<lambda>z. z\<lparr>of_tables := ins_upstream \<lparr> ur_id = i, ur_channel = fst row, ur_url = snd row, ur_headers = [],
             ur_sort = 0, ur_proxy = None \<rparr> (of_tables z)\<rparr>),
         statement (on_channels (\<lambda>r. if cr_id r = fst row \<and> (cr_fixed r = None \<or> cr_fixed r = Some [])
             then r\<lparr>cr_fixed := Some i\<rparr> else r))] z1)"

definition backfill_channel_upstreams :: "(nat \<Rightarrow> string) \<Rightarrow> migration" where
  "backfill_channel_upstreams uuid z = in_turn (map (backfill_row uuid) (without_upstreams (of_tables z))) z"

definition ensure_channel_upstreams :: "(nat \<Rightarrow> string) \<Rightarrow> migration" where
  "ensure_channel_upstreams uuid = in_turn
     [add_column of_policy (\<lambda>z. (on_channels (\<lambda>r. r\<lparr>cr_policy := ''fixed''\<rparr>) z)\<lparr>of_policy := True\<rparr>),
      add_column of_fixed (\<lambda>z. (on_channels (\<lambda>r. r\<lparr>cr_fixed := None\<rparr>) z)\<lparr>of_fixed := True\<rparr>),
      backfill_channel_upstreams uuid]"

definition ensure_direct_upstream_url_unique :: migration where
  "ensure_direct_upstream_url_unique = add_column of_direct_index (\<lambda>z. z\<lparr>of_direct_index := True\<rparr>)"

text \<open>The upstreams get their proxy column by a copy of the table.\<close>

definition ensure_channel_upstream_proxy :: migration where
  "ensure_channel_upstream_proxy z =
     (if of_proxy z then nothing z
      else in_turn
        [statement (\<lambda>z. z\<lparr>of_tables := (of_tables z)\<lparr>t_upstreams :=
             map (\<lambda>u. u\<lparr>ur_proxy := None\<rparr>) (t_upstreams (of_tables z))\<rparr>, of_proxy := True, of_direct_index := False\<rparr>),
         ensure_direct_upstream_url_unique] z)"

definition ensure_channel_policy_failover :: migration where
  "ensure_channel_policy_failover = statement (on_channels (\<lambda>r.
     if to_lower (cr_policy r) = ''fallback'' then r\<lparr>cr_policy := ''failover''\<rparr> else r))"

definition ensure_brand_settings_columns :: migration where
  "ensure_brand_settings_columns = in_turn
     [add_column of_icon (\<lambda>z. (on_settings (\<lambda>s. s\<lparr>se_icon := []\<rparr>) z)\<lparr>of_icon := True\<rparr>),
      add_column of_title (\<lambda>z. (on_settings (\<lambda>s. s\<lparr>se_title := ''IPTV Relay''\<rparr>) z)\<lparr>of_title := True\<rparr>)]"

text \<open>\<^verbatim>\<open>INSERT OR IGNORE\<close>: the row of a new file.\<close>

definition ensure_app_settings_row :: migration where
  "ensure_app_settings_row = statement (\<lambda>z. z\<lparr>of_tables := (of_tables z)\<lparr>t_settings :=
     (case t_settings (of_tables z) of None \<Rightarrow> t_settings empty_db | Some s \<Rightarrow> Some s)\<rparr>\<rparr>)"

definition ensure_no_relay_epg_sources :: migration where
  "ensure_no_relay_epg_sources = statement (\<lambda>z. z\<lparr>of_relay_epg := False\<rparr>)"

text \<open>The first mapping of a channel's memberships; SQLite's \<^verbatim>\<open>TRIM\<close> takes spaces only.\<close>

definition mapping_of :: "(int \<times> int option \<times> string) list \<Rightarrow> member_row \<Rightarrow> (int \<times> string) option" where
  "mapping_of ms m = (case map_of ms (mb_id m) of
       Some (Some src, tvg) \<Rightarrow> if list_all (\<lambda>c. c = CHR '' '') tvg then None else Some (src, tvg)
     | _ \<Rightarrow> None)"

definition first_mapping :: "(int \<times> int option \<times> string) list \<Rightarrow> db \<Rightarrow> string \<Rightarrow> (int \<times> string) option" where
  "first_mapping ms d i =
     (case List.map_filter (mapping_of ms) (filter (\<lambda>m. mb_channel m = i) (t_members d)) of
        [] \<Rightarrow> None | x # _ \<Rightarrow> Some x)"

definition move_mappings :: "(int \<times> int option \<times> string) list \<Rightarrow> db_file \<Rightarrow> db_file" where
  "move_mappings ms z = (on_channels (\<lambda>r. case first_mapping ms (of_tables z) (cr_id r) of
       None \<Rightarrow> r | Some (src, tvg) \<Rightarrow> r\<lparr>cr_epg := Some src, cr_tvg := tvg\<rparr>) z)\<lparr>of_mappings := None\<rparr>"

definition ensure_channel_epg :: migration where
  "ensure_channel_epg = in_turn
     [add_column of_epg (\<lambda>z. (on_channels (\<lambda>r. r\<lparr>cr_epg := None\<rparr>) z)\<lparr>of_epg := True\<rparr>),
      add_column of_tvg (\<lambda>z. (on_channels (\<lambda>r. r\<lparr>cr_tvg := []\<rparr>) z)\<lparr>of_tvg := True\<rparr>),
      (\<lambda>z. case of_mappings z of None \<Rightarrow> nothing z | Some ms \<Rightarrow> statement (move_mappings ms) z)]"

definition prefixed :: "string \<Rightarrow> migration \<Rightarrow> migration" where
  "prefixed msg m z = (case m z of (Inl (ErrDb e), z1) \<Rightarrow> (Inl (ErrDb (msg @ e)), z1) | r \<Rightarrow> r)"

definition ensure_channel_name_unique_index :: migration where
  "ensure_channel_name_unique_index z =
     (if of_name_index z = Some True then nothing z
      else in_turn [statement (\<lambda>z. z\<lparr>of_name_index := None\<rparr>),
        prefixed ''ensure channel name uniqueness: '' (statement (\<lambda>z. z\<lparr>of_name_index := Some True\<rparr>))] z)"

definition ensure_schema :: "(nat \<Rightarrow> string) \<Rightarrow> migration" where
  "ensure_schema uuid = in_turn
     [statement create_tables, ensure_channel_transcode_column, ensure_channel_upstreams uuid,
      ensure_channel_upstream_proxy, ensure_channel_policy_failover, ensure_direct_upstream_url_unique,
      ensure_brand_settings_columns, ensure_app_settings_row, ensure_no_relay_epg_sources, ensure_channel_epg,
      ensure_channel_name_unique_index]"

text \<open>A file that does not exist yet.\<close>

definition new_file :: db_file where
  "new_file = \<lparr> of_tables = empty_db\<lparr>t_settings := None\<rparr>,
     of_missing = [''epg_sources'', ''channels'', ''proxies'', ''proxy_servers'', ''channel_upstreams'', ''app_settings'',
       ''relays'', ''relay_groups'', ''relay_memberships''],
     of_transcode = False, of_policy = False, of_fixed = False, of_epg = False, of_tvg = False, of_proxy = False,
     of_icon = False, of_title = False, of_mappings = None, of_relay_epg = False, of_direct_index = False,
     of_name_index = None \<rparr>"

section \<open>What a step leaves behind\<close>

lemma statement_Inr: "statement f z = (Inr u, z') \<longleftrightarrow> file_ok (f z) \<and> z' = f z"
  by (auto simp: statement_def file_ok_def split: option.split prod.split)

lemma and_then_Inr: "and_then m1 m2 z = (Inr u, z'') \<longleftrightarrow> (\<exists>z'. m1 z = (Inr (), z') \<and> m2 z' = (Inr u, z''))"
  by (auto simp: and_then_def split: prod.splits sum.splits)

lemma nothing_Inr: "nothing z = (Inr u, z') \<longleftrightarrow> z' = z"
  by (auto simp: nothing_def)

lemma prefixed_Inr: "prefixed msg m z = (Inr u, z') \<longleftrightarrow> m z = (Inr u, z')"
  by (auto simp: prefixed_def split: prod.split sum.split store_err.split)

lemma add_column_Inr: "add_column there add z = (Inr u, z') \<longleftrightarrow> (if there z then z' = z else file_ok (add z) \<and> z' = add z)"
  by (simp add: add_column_def nothing_Inr statement_Inr)

lemmas step_results = statement_Inr and_then_Inr nothing_Inr add_column_Inr in_turn.simps

text \<open>The data of a file that no migration changes, and an order of progress.\<close>

definition channel_key where
  "channel_key r = (cr_id r, cr_name r, cr_logo r, cr_url r, cr_headers r, cr_created r, cr_updated r)"

definition upstream_key where
  "upstream_key u = (ur_id u, ur_channel u, ur_url u, ur_headers u, ur_sort u)"

definition same_library :: "db \<Rightarrow> db \<Rightarrow> bool" where
  "same_library d d' \<longleftrightarrow> map channel_key (t_channels d') = map channel_key (t_channels d) \<and>
     (\<exists>new. map upstream_key (t_upstreams d') = map upstream_key (t_upstreams d) @ new) \<and>
     t_proxies d' = t_proxies d \<and> t_servers d' = t_servers d \<and> t_epgs d' = t_epgs d \<and> t_relays d' = t_relays d \<and>
     t_groups d' = t_groups d \<and> t_members d' = t_members d"

definition no_fallback :: "db \<Rightarrow> bool" where
  "no_fallback d \<longleftrightarrow> list_all (\<lambda>r. to_lower (cr_policy r) \<noteq> ''fallback'') (t_channels d)"

definition progress :: "db_file \<Rightarrow> bool list" where
  "progress z = [of_missing z = [], of_transcode z, of_policy z, of_fixed z, without_upstreams (of_tables z) = [],
     of_proxy z, no_fallback (of_tables z), of_direct_index z, of_icon z, of_title z, t_settings (of_tables z) \<noteq> None,
     \<not> of_relay_epg z, of_epg z, of_tvg z, of_mappings z = None, of_name_index z = Some True]"

definition later :: "db_file \<Rightarrow> db_file \<Rightarrow> bool" where
  "later z z' \<longleftrightarrow> list_all2 (\<longrightarrow>) (progress z) (progress z') \<and> same_library (of_tables z) (of_tables z')"

lemma same_library_refl: "same_library d d" by (simp add: same_library_def)

lemma same_library_trans: "same_library d d1 \<Longrightarrow> same_library d1 d2 \<Longrightarrow> same_library d d2"
  by (auto simp: same_library_def)

lemma later_refl: "later z z" by (simp add: later_def same_library_refl list_all2_refl)

lemma later_trans: "later z z1 \<Longrightarrow> later z1 z2 \<Longrightarrow> later z z2"
  using list_all2_trans [of "(\<longrightarrow>)" "(\<longrightarrow>)" "(\<longrightarrow>)" "progress z" "progress z1" "progress z2"]
  by (auto simp: later_def intro: same_library_trans)

lemma later_stays: "later z z' \<Longrightarrow> k < 16 \<Longrightarrow> progress z ! k \<Longrightarrow> progress z' ! k"
  using list_all2_nthD [of "(\<longrightarrow>)" "progress z" "progress z'" k] by (simp add: later_def progress_def)

lemma served_iff: "without_upstreams d = [] \<longleftrightarrow> (\<forall>r \<in> set (t_channels d). \<exists>u \<in> set (t_upstreams d). ur_channel u = cr_id r)"
  by (simp add: without_upstreams_def filter_empty_conv list_ex_iff)

lemma same_ids: "same_library d d' \<Longrightarrow> map cr_id (t_channels d') = map cr_id (t_channels d)"
proof -
  assume "same_library d d'"
  then have "map fst (map channel_key (t_channels d')) = map fst (map channel_key (t_channels d))" by (simp only: same_library_def)
  then show ?thesis by (simp add: channel_key_def comp_def)
qed

lemma same_ups: "same_library d d' \<Longrightarrow> set (map ur_channel (t_upstreams d)) \<subseteq> set (map ur_channel (t_upstreams d'))"
proof -
  assume "same_library d d'"
  then obtain new where "map upstream_key (t_upstreams d') = map upstream_key (t_upstreams d) @ new"
    by (auto simp: same_library_def)
  then have "map (fst \<circ> snd) (map upstream_key (t_upstreams d')) = map (fst \<circ> snd) (map upstream_key (t_upstreams d) @ new)" by simp
  then have "map ur_channel (t_upstreams d') = map ur_channel (t_upstreams d) @ map (fst \<circ> snd) new"
    by (simp add: upstream_key_def comp_def)
  then show ?thesis by simp
qed

lemma served_alt: "without_upstreams d = [] \<longleftrightarrow> set (map cr_id (t_channels d)) \<subseteq> set (map ur_channel (t_upstreams d))"
  unfolding served_iff by (auto simp: subset_iff image_iff) metis+

lemma served_later: "same_library d d' \<Longrightarrow> without_upstreams d = [] \<Longrightarrow> without_upstreams d' = []"
  using same_ups [of d d'] same_ids [of d d'] unfolding served_alt by (simp only: subset_trans)

lemma laterI:
  assumes "same_library (of_tables z) (of_tables z')" "list_all2 (\<longrightarrow>) (progress z) ((progress z')[4 := True])"
  shows "later z z'"
  using assms served_later [OF assms(1)] by (simp add: later_def progress_def)

section \<open>Every step goes forward\<close>

definition forward :: "migration \<Rightarrow> bool" where
  "forward m \<longleftrightarrow> (\<forall>z z'. m z = (Inr (), z') \<longrightarrow> later z z')"

lemma forward_statement: "(\<And>z. later z (f z)) \<Longrightarrow> forward (statement f)"
  by (simp add: forward_def statement_Inr)

lemma forward_column: "(\<And>z. later z (f z)) \<Longrightarrow> forward (add_column there f)"
  by (simp add: forward_def add_column_Inr later_refl)

lemma forward_in_turn: "list_all forward ms \<Longrightarrow> forward (in_turn ms)"
proof (induction ms)
  case Nil
  then show ?case by (simp add: forward_def nothing_Inr later_refl)
next
  case (Cons m ms)
  then show ?case unfolding forward_def in_turn.simps and_then_Inr by (simp add: forward_def) (metis later_trans)
qed

lemma same_channels: "(\<And>r. channel_key (g r) = channel_key r) \<Longrightarrow> same_library d (d\<lparr>t_channels := map g (t_channels d)\<rparr>)"
  by (simp add: same_library_def comp_def)

lemma fallback_map: "(\<And>r. cr_policy (g r) = cr_policy r) \<Longrightarrow> no_fallback (d\<lparr>t_channels := map g (t_channels d)\<rparr>) = no_fallback d"
  by (simp add: no_fallback_def list.pred_map comp_def)

lemma later_channels:
  assumes "\<And>r. channel_key (g r) = channel_key r" "\<And>r. to_lower (cr_policy r) \<noteq> ''fallback'' \<Longrightarrow> to_lower (cr_policy (g r)) \<noteq> ''fallback''"
  shows "later z (on_channels g z)"
  using assms by (intro laterI)
    (auto simp: on_channels_def same_channels progress_def no_fallback_def list.pred_map comp_def list_all_iff)

lemma later_flags:
  "later z (z\<lparr>of_transcode := True\<rparr>)" "later z (z\<lparr>of_policy := True\<rparr>)" "later z (z\<lparr>of_fixed := True\<rparr>)"
  "later z (z\<lparr>of_epg := True\<rparr>)" "later z (z\<lparr>of_tvg := True\<rparr>)" "later z (z\<lparr>of_icon := True\<rparr>)" "later z (z\<lparr>of_title := True\<rparr>)"
  "later z (z\<lparr>of_direct_index := True\<rparr>)" "later z (z\<lparr>of_relay_epg := False\<rparr>)" "later z (z\<lparr>of_mappings := None\<rparr>)"
  by (simp_all add: later_def progress_def same_library_refl)

lemma later_settings: "later z (on_settings g z)"
  by (simp add: later_def progress_def on_settings_def same_library_def without_upstreams_def no_fallback_def)

lemma later_backfill:
  "later z (z\<lparr>of_tables := (of_tables z)\<lparr>fresh := n\<rparr>\<rparr>)" "later z (z\<lparr>of_tables := ins_upstream u (of_tables z)\<rparr>)"
  by (auto intro!: laterI simp: progress_def no_fallback_def same_library_def ins_upstream_def)

lemma forward_row: "forward (backfill_row uuid row)"
proof -
  have s: "forward (statement (\<lambda>z. z\<lparr>of_tables := ins_upstream u (of_tables z)\<rparr>))" for u
    by (rule forward_statement) (rule later_backfill)
  have c: "forward (statement (on_channels (\<lambda>r. if cr_id r = i \<and> (cr_fixed r = None \<or> cr_fixed r = Some [])
      then r\<lparr>cr_fixed := Some j\<rparr> else r)))" for i j
    by (rule forward_statement) (rule later_channels, simp_all add: channel_key_def)
  have "forward (in_turn [statement (\<lambda>z. z\<lparr>of_tables := ins_upstream u (of_tables z)\<rparr>),
      statement (on_channels (\<lambda>r. if cr_id r = i \<and> (cr_fixed r = None \<or> cr_fixed r = Some [])
        then r\<lparr>cr_fixed := Some j\<rparr> else r))])" for u i j
    by (rule forward_in_turn) (simp add: s c)
  then show ?thesis
    unfolding forward_def backfill_row_def Let_def using later_trans [OF later_backfill(1)] by blast
qed

lemma forward_backfill: "forward (backfill_channel_upstreams uuid)"
proof -
  have "forward (in_turn (map (backfill_row uuid) rows))" for rows
    by (rule forward_in_turn) (simp add: list_all_iff forward_row)
  then show ?thesis by (simp add: forward_def backfill_channel_upstreams_def)
qed

text \<open>Every channel that was without an upstream has one now.\<close>

lemma row_served:
  assumes "backfill_row uuid row z = (Inr (), z')"
  shows "fst row \<in> set (map ur_channel (t_upstreams (of_tables z')))"
  using assms by (auto simp: backfill_row_def Let_def in_turn.simps and_then_Inr statement_Inr nothing_Inr ins_upstream_def on_channels_def)

lemma rows_served:
  "in_turn (map (backfill_row uuid) rows) z = (Inr (), z') \<Longrightarrow>
     set (map fst rows) \<subseteq> set (map ur_channel (t_upstreams (of_tables z')))"
proof (induction rows arbitrary: z)
  case (Cons row rows)
  then obtain z1 where z1: "backfill_row uuid row z = (Inr (), z1)" "in_turn (map (backfill_row uuid) rows) z1 = (Inr (), z')"
    by (auto simp: and_then_Inr)
  have "forward (in_turn (map (backfill_row uuid) rows))"
    by (rule forward_in_turn) (simp add: list_all_iff forward_row)
  then have "later z1 z'" using z1(2) by (simp add: forward_def)
  then have "set (map ur_channel (t_upstreams (of_tables z1))) \<subseteq> set (map ur_channel (t_upstreams (of_tables z')))"
    by (intro same_ups) (simp add: later_def)
  then show ?case using row_served [OF z1(1)] Cons.IH [OF z1(2)] by auto
qed simp

lemma backfill_serves:
  assumes "backfill_channel_upstreams uuid z = (Inr (), z')"
  shows "without_upstreams (of_tables z') = []"
proof -
  have same: "same_library (of_tables z) (of_tables z')"
    using assms forward_backfill [of uuid] by (simp add: forward_def later_def)
  have "set (map fst (without_upstreams (of_tables z))) \<subseteq> set (map ur_channel (t_upstreams (of_tables z')))"
    using rows_served assms by (simp add: backfill_channel_upstreams_def)
  moreover have "set (map cr_id (t_channels (of_tables z))) \<subseteq>
      set (map fst (without_upstreams (of_tables z))) \<union> set (map ur_channel (t_upstreams (of_tables z)))"
    by (force simp: without_upstreams_def list_ex_iff)
  ultimately show ?thesis
    unfolding served_alt same_ids [OF same] using same_ups [OF same] by blast
qed

section \<open>The whole of ensureSchema\<close>

text \<open>A file at the schema of this release.\<close>

definition current :: "db_file \<Rightarrow> bool" where
  "current z \<longleftrightarrow> list_all (\<lambda>p. p) (progress z) \<and> file_ok z"

lemma tables_step: "statement create_tables z = (Inr (), z') \<Longrightarrow> later z z' \<and> progress z' ! 0"
  by (auto simp: statement_Inr create_tables_def later_def progress_def same_library_refl Let_def)

lemma transcode_step: "ensure_channel_transcode_column z = (Inr (), z') \<Longrightarrow> later z z' \<and> progress z' ! 1"
proof -
  have "forward ensure_channel_transcode_column"
    unfolding ensure_channel_transcode_column_def
    by (intro forward_column later_trans [OF later_channels later_flags(1)]) (simp_all add: channel_key_def)
  moreover assume "ensure_channel_transcode_column z = (Inr (), z')"
  ultimately show ?thesis
    by (auto simp: forward_def ensure_channel_transcode_column_def add_column_Inr progress_def split: if_splits)
qed

lemma without_proxies:
  "map upstream_key (map (\<lambda>u. u\<lparr>ur_proxy := p\<rparr>) us) = map upstream_key us"
  "same_library d (d\<lparr>t_upstreams := map (\<lambda>u. u\<lparr>ur_proxy := p\<rparr>) (t_upstreams d)\<rparr>)"
  by (simp_all add: same_library_def upstream_key_def comp_def) (simp add: upstream_key_def [abs_def])

lemma proxy_step: "ensure_channel_upstream_proxy z = (Inr (), z') \<Longrightarrow> later z z' \<and> progress z' ! 5"
  by (auto simp: ensure_channel_upstream_proxy_def ensure_direct_upstream_url_unique_def step_results without_proxies
      progress_def later_refl no_fallback_def intro!: laterI split: if_splits)

lemma forward_direct: "forward ensure_direct_upstream_url_unique"
  unfolding ensure_direct_upstream_url_unique_def by (intro forward_column later_flags)

lemma direct_step: "ensure_direct_upstream_url_unique z = (Inr (), z') \<Longrightarrow> later z z' \<and> progress z' ! 7"
  using forward_direct
  by (auto simp: forward_def ensure_direct_upstream_url_unique_def add_column_Inr progress_def split: if_splits)

lemma policy_step: "ensure_channel_policy_failover z = (Inr (), z') \<Longrightarrow> later z z' \<and> progress z' ! 6"
proof -
  assume s: "ensure_channel_policy_failover z = (Inr (), z')"
  have f: "to_lower ''failover'' \<noteq> ''fallback''" by code_simp
  have "later z z'"
    using s f unfolding ensure_channel_policy_failover_def statement_Inr by (auto intro!: later_channels simp: channel_key_def)
  moreover have "progress z' ! 6"
    using s f by (auto simp: ensure_channel_policy_failover_def statement_Inr on_channels_def progress_def no_fallback_def list_all_iff)
  ultimately show ?thesis ..
qed

lemma upstreams_step: "ensure_channel_upstreams uuid z = (Inr (), z') \<Longrightarrow>
  later z z' \<and> progress z' ! 2 \<and> progress z' ! 3 \<and> progress z' ! 4"
proof -
  assume "ensure_channel_upstreams uuid z = (Inr (), z')"
  then obtain z1 z2 where s:
    "add_column of_policy (\<lambda>z. (on_channels (\<lambda>r. r\<lparr>cr_policy := ''fixed''\<rparr>) z)\<lparr>of_policy := True\<rparr>) z = (Inr (), z1)"
    "add_column of_fixed (\<lambda>z. (on_channels (\<lambda>r. r\<lparr>cr_fixed := None\<rparr>) z)\<lparr>of_fixed := True\<rparr>) z1 = (Inr (), z2)"
    "backfill_channel_upstreams uuid z2 = (Inr (), z')"
    by (auto simp: ensure_channel_upstreams_def in_turn.simps and_then_Inr nothing_Inr)
  have f: "to_lower ''fixed'' \<noteq> ''fallback''" by code_simp
  have 1: "later z z1" "progress z1 ! 2"
    using s(1) f later_trans [OF later_channels later_flags(2)]
    by (auto simp: add_column_Inr channel_key_def progress_def later_refl split: if_splits)
  have 2: "later z1 z2" "progress z2 ! 3"
    using s(2) later_trans [OF later_channels later_flags(3)]
    by (auto simp: add_column_Inr channel_key_def progress_def later_refl split: if_splits)
  have 3: "later z2 z'" using s(3) forward_backfill [of uuid] by (simp add: forward_def)
  have "progress z' ! 4" using backfill_serves [OF s(3)] by (simp add: progress_def)
  then show ?thesis
    using later_trans [OF later_trans [OF 1(1) 2(1)] 3] later_stays [OF later_trans [OF 2(1) 3] _ 1(2)] later_stays [OF 3 _ 2(2)]
    by simp
qed

lemma brand_step: "ensure_brand_settings_columns z = (Inr (), z') \<Longrightarrow> later z z' \<and> progress z' ! 8 \<and> progress z' ! 9"
proof -
  assume "ensure_brand_settings_columns z = (Inr (), z')"
  then obtain z1 where s:
    "add_column of_icon (\<lambda>z. (on_settings (\<lambda>s. s\<lparr>se_icon := []\<rparr>) z)\<lparr>of_icon := True\<rparr>) z = (Inr (), z1)"
    "add_column of_title (\<lambda>z. (on_settings (\<lambda>s. s\<lparr>se_title := ''IPTV Relay''\<rparr>) z)\<lparr>of_title := True\<rparr>) z1 = (Inr (), z')"
    by (auto simp: ensure_brand_settings_columns_def in_turn.simps and_then_Inr nothing_Inr)
  have 1: "later z z1" "progress z1 ! 8"
    using s(1) later_trans [OF later_settings later_flags(6)] by (auto simp: add_column_Inr progress_def later_refl split: if_splits)
  have 2: "later z1 z'" "progress z' ! 9"
    using s(2) later_trans [OF later_settings later_flags(7)] by (auto simp: add_column_Inr progress_def later_refl split: if_splits)
  show ?thesis using later_trans [OF 1(1) 2(1)] later_stays [OF 2(1) _ 1(2)] 2(2) by simp
qed

lemma settings_step: "ensure_app_settings_row z = (Inr (), z') \<Longrightarrow> later z z' \<and> progress z' ! 10"
  by (auto simp: ensure_app_settings_row_def statement_Inr progress_def same_library_def no_fallback_def empty_db_def
      without_upstreams_def intro!: laterI split: option.split)

lemma relay_epg_step: "ensure_no_relay_epg_sources z = (Inr (), z') \<Longrightarrow> later z z' \<and> progress z' ! 11 \<and> file_ok z'"
  using later_flags(9) by (auto simp: ensure_no_relay_epg_sources_def statement_Inr progress_def)

lemma epg_step: "ensure_channel_epg z = (Inr (), z') \<Longrightarrow> file_ok z \<Longrightarrow>
  later z z' \<and> progress z' ! 12 \<and> progress z' ! 13 \<and> progress z' ! 14 \<and> file_ok z'"
proof -
  assume "ensure_channel_epg z = (Inr (), z')" and ok: "file_ok z"
  then obtain z1 z2 where s:
    "add_column of_epg (\<lambda>z. (on_channels (\<lambda>r. r\<lparr>cr_epg := None\<rparr>) z)\<lparr>of_epg := True\<rparr>) z = (Inr (), z1)"
    "add_column of_tvg (\<lambda>z. (on_channels (\<lambda>r. r\<lparr>cr_tvg := []\<rparr>) z)\<lparr>of_tvg := True\<rparr>) z1 = (Inr (), z2)"
    "(case of_mappings z2 of None \<Rightarrow> nothing z2 | Some ms \<Rightarrow> statement (move_mappings ms) z2) = (Inr (), z')"
    by (auto simp: ensure_channel_epg_def and_then_Inr nothing_Inr)
  have 1: "later z z1" "progress z1 ! 12" "file_ok z1"
    using s(1) ok later_trans [OF later_channels later_flags(4)]
    by (auto simp: add_column_Inr channel_key_def progress_def later_refl split: if_splits)
  have 2: "later z1 z2" "progress z2 ! 13" "file_ok z2"
    using s(2) 1(3) later_trans [OF later_channels later_flags(5)]
    by (auto simp: add_column_Inr channel_key_def progress_def later_refl split: if_splits)
  have moved: "later z2 (move_mappings ms z2)" for ms
    unfolding move_mappings_def
    by (rule later_trans [OF later_channels later_flags(10)]) (auto simp: channel_key_def split: option.split)
  have 3: "later z2 z'" "progress z' ! 14" "file_ok z'"
    using s(3) 2(3) moved by (auto simp: nothing_Inr statement_Inr later_refl progress_def move_mappings_def split: option.splits)
  show ?thesis
    using later_trans [OF later_trans [OF 1(1) 2(1)] 3(1)] later_stays [OF later_trans [OF 2(1) 3(1)] _ 1(2)]
      later_stays [OF 3(1) _ 2(2)] 3 by simp
qed

lemma name_step: "ensure_channel_name_unique_index z = (Inr (), z') \<Longrightarrow> file_ok z \<Longrightarrow>
  later z z' \<and> progress z' ! 15 \<and> file_ok z'"
  by (auto simp: ensure_channel_name_unique_index_def and_then_Inr nothing_Inr prefixed_Inr statement_Inr progress_def later_def
      same_library_refl split: if_splits)

lemma ensured:
  assumes "ensure_schema uuid z = (Inr (), z')"
  shows "current z'" "later z z'"
proof -
  from assms obtain z1 z2 z3 z4 z5 z6 z7 z8 z9 z10 where s:
    "statement create_tables z = (Inr (), z1)" "ensure_channel_transcode_column z1 = (Inr (), z2)"
    "ensure_channel_upstreams uuid z2 = (Inr (), z3)" "ensure_channel_upstream_proxy z3 = (Inr (), z4)"
    "ensure_channel_policy_failover z4 = (Inr (), z5)" "ensure_direct_upstream_url_unique z5 = (Inr (), z6)"
    "ensure_brand_settings_columns z6 = (Inr (), z7)" "ensure_app_settings_row z7 = (Inr (), z8)"
    "ensure_no_relay_epg_sources z8 = (Inr (), z9)" "ensure_channel_epg z9 = (Inr (), z10)"
    "ensure_channel_name_unique_index z10 = (Inr (), z')"
    by (auto simp: ensure_schema_def and_then_Inr nothing_Inr)
  note 1 = tables_step [OF s(1)] and 2 = transcode_step [OF s(2)] and 3 = upstreams_step [OF s(3)]
    and 4 = proxy_step [OF s(4)] and 5 = policy_step [OF s(5)] and 6 = direct_step [OF s(6)]
    and 7 = brand_step [OF s(7)] and 8 = settings_step [OF s(8)] and 9 = relay_epg_step [OF s(9)]
  note 10 = epg_step [OF s(10)] and 11 = name_step [OF s(11)]
  have ok: "file_ok z9" "file_ok z10" "file_ok z'" using 9 10 11 by blast+
  have l11: "later z10 z'" using 11 ok by blast
  have l10: "later z9 z'" using 10 ok l11 later_trans by blast
  have l9: "later z8 z'" using 9 l10 later_trans by blast
  have l8: "later z7 z'" using 8 l9 later_trans by blast
  have l7: "later z6 z'" using 7 l8 later_trans by blast
  have l6: "later z5 z'" using 6 l7 later_trans by blast
  have l5: "later z4 z'" using 5 l6 later_trans by blast
  have l4: "later z3 z'" using 4 l5 later_trans by blast
  have l3: "later z2 z'" using 3 l4 later_trans by blast
  have l2: "later z1 z'" using 2 l3 later_trans by blast
  show "later z z'" using 1 l2 later_trans by blast
  have "progress z' ! 0" "progress z' ! 1" "progress z' ! 5" "progress z' ! 6" "progress z' ! 7" "progress z' ! 10" "progress z' ! 11"
    using later_stays [OF l2, of 0] later_stays [OF l3, of 1] later_stays [OF l5, of 5] later_stays [OF l6, of 6]
      later_stays [OF l7, of 7] later_stays [OF l9, of 10] later_stays [OF l10, of 11] 1 2 4 5 6 8 9 by simp_all
  moreover have "progress z' ! 2" "progress z' ! 3" "progress z' ! 4" "progress z' ! 8" "progress z' ! 9"
    using later_stays [OF l4, of 2] later_stays [OF l4, of 3] later_stays [OF l4, of 4]
      later_stays [OF l8, of 8] later_stays [OF l8, of 9] 3 7 by simp_all
  moreover have "progress z' ! 12" "progress z' ! 13" "progress z' ! 14" "progress z' ! 15"
    using later_stays [OF l11, of 12] later_stays [OF l11, of 13] later_stays [OF l11, of 14] 10 11 ok by simp_all
  ultimately show "current z'" using ok(3) by (simp add: current_def progress_def)
qed

lemma current_schema: "current z \<Longrightarrow> schema_ok (of_tables z)"
proof -
  assume c: "current z"
  then have "of_direct_index z" "of_name_index z = Some True" by (simp_all add: current_def progress_def)
  then have "file_constraints z = constraints (of_tables z)" by (simp add: file_constraints_def split_beta)
  then show ?thesis using c by (simp add: current_def file_ok_def schema_ok_def violation_def)
qed

lemma current_stays: "current z \<Longrightarrow> ensure_schema uuid z = (Inr (), z)"
proof -
  assume c: "current z"
  then have ok: "file_ok z" by (simp add: current_def)
  have same: "statement f z = (Inr (), z)" if "f z = z" for f using ok that by (simp add: statement_Inr)
  have p: "of_missing z = []" "of_transcode z" "of_policy z" "of_fixed z" "without_upstreams (of_tables z) = []"
    "of_proxy z" "no_fallback (of_tables z)" "of_direct_index z" "of_icon z" "of_title z" "t_settings (of_tables z) \<noteq> None"
    "\<not> of_relay_epg z" "of_epg z" "of_tvg z" "of_mappings z = None" "of_name_index z = Some True"
    using c by (simp_all add: current_def progress_def)
  have "create_tables z = z" using p by (simp add: create_tables_def Let_def)
  moreover have "on_channels (\<lambda>r. if to_lower (cr_policy r) = ''fallback'' then r\<lparr>cr_policy := ''failover''\<rparr> else r) z = z"
  proof -
    have "map (\<lambda>r. if to_lower (cr_policy r) = ''fallback'' then r\<lparr>cr_policy := ''failover''\<rparr> else r) (t_channels (of_tables z)) =
        t_channels (of_tables z)"
      using p(7) by (intro map_idI) (auto simp: no_fallback_def list_all_iff)
    then show ?thesis by (simp add: on_channels_def)
  qed
  moreover have "z\<lparr>of_tables := (of_tables z)\<lparr>t_settings := (case t_settings (of_tables z) of None \<Rightarrow> t_settings empty_db | Some s \<Rightarrow> Some s)\<rparr>\<rparr> = z"
    using p(11) by (auto split: option.split)
  moreover have "z\<lparr>of_relay_epg := False\<rparr> = z" using p(12) by simp
  ultimately show ?thesis
    using p same
    by (simp add: ensure_schema_def and_then_def nothing_def ensure_channel_transcode_column_def add_column_def
        ensure_channel_upstreams_def backfill_channel_upstreams_def ensure_channel_upstream_proxy_def
        ensure_channel_policy_failover_def ensure_direct_upstream_url_unique_def ensure_brand_settings_columns_def
        ensure_app_settings_row_def ensure_no_relay_epg_sources_def ensure_channel_epg_def ensure_channel_name_unique_index_def)
qed

section \<open>Property\<close>


text \<open>A file of a release without upstreams of channels, with the guide mappings at the memberships.\<close>

definition old_file :: db_file where
  "old_file = new_file\<lparr>of_tables := (of_tables new_file)\<lparr>
       t_epgs := [\<lparr> ep_id = 1, ep_name = ''G'', ep_url = ''http://g'', ep_enabled = True, ep_seconds = 3600, ep_last = None,
         ep_error = [], ep_created = ''t'', ep_updated = ''t'' \<rparr>],
       t_channels := [\<lparr> cr_id = ''a'', cr_name = ''One'', cr_logo = [], cr_url = ''http://h/1'', cr_headers = [],
         cr_transcode = False, cr_policy = ''fixed'', cr_fixed = None, cr_epg = None, cr_tvg = [], cr_created = ''t'',
         cr_updated = ''t'' \<rparr>],
       t_relays := [\<lparr> rl_id = 1, rl_name = ''Home'', rl_slug = ''home'', rl_created = ''t'', rl_updated = ''t'' \<rparr>],
       t_groups := [\<lparr> gr_id = 1, gr_relay = 1, gr_name = ''All'', gr_sort = 0 \<rparr>],
       t_members := [\<lparr> mb_id = 1, mb_relay = 1, mb_group = 1, mb_channel = ''a'', mb_number = 1, mb_sort = 0 \<rparr>]\<rparr>,
     of_missing := [''proxies'', ''proxy_servers'', ''channel_upstreams'', ''app_settings''],
     of_mappings := Some [(1, Some 1, ''one.tv'')], of_relay_epg := True, of_name_index := Some False\<rparr>"

lemma old_file_opens: "fst (ensure_schema show_nat old_file) = Inr () \<and>
  map (\<lambda>r. (cr_epg r, cr_tvg r, cr_fixed r)) (t_channels (of_tables (snd (ensure_schema show_nat old_file)))) =
    [(Some 1, ''one.tv'', Some ''0'')]"
  by code_simp


lemma new_file_opens: "fst (ensure_schema show_nat new_file) = Inr () \<and> of_tables (snd (ensure_schema show_nat new_file)) = empty_db"
  by code_simp

end
