(* ===== verification/M3u.thy ===== *)
theory M3u
  imports Upstream Natsort
begin

text \<open>
  \<^verbatim>\<open>internal/core/m3u/parser.go\<close>: the parser of extended M3U playlists.  The reader is the whole text;
  its lines are what \<^verbatim>\<open>bufio.Scanner\<close> returns with a buffer of 1 MiB.  A Go map of attributes is the
  association list in the order its keys were first set.
\<close>

record m3u_entry =
  me_name :: string
  me_number :: int
  me_tvg :: string
  me_group :: string
  me_logo :: string
  me_url :: string
  me_headers :: "(string \<times> string) list"

record m3u_playlist =
  pl_epgs :: "string list"
  pl_entries :: "m3u_entry list"
  pl_warnings :: "string list"

section \<open>Attributes\<close>

definition is_gap :: "char \<Rightarrow> bool" where
  "is_gap c \<longleftrightarrow> c = CHR '' '' \<or> c = CHR 0x09"

text \<open>The value after an equals sign, and what follows it.\<close>

definition attr_value :: "string \<Rightarrow> string \<times> string" where
  "attr_value s =
     (if hd s = CHR 0x22 then
        (case index_byte (tl s) CHR 0x22 of
           None \<Rightarrow> (tl s, [])
         | Some e \<Rightarrow> (take e (tl s), drop (Suc e) (tl s)))
      else (takeWhile (\<lambda>c. \<not> is_gap c) s, dropWhile (\<lambda>c. \<not> is_gap c) s))"

definition add_attr :: "string \<Rightarrow> string \<Rightarrow> (string \<times> string) list \<Rightarrow> (string \<times> string) list" where
  "add_attr key val out = (if key = [] then out else aput key val out)"

lemma attr_value_shorter: "s \<noteq> [] \<Longrightarrow> length (snd (attr_value s)) \<le> length s"
  by (auto simp: attr_value_def length_dropWhile_le split: option.split)

function parse_attrs_from :: "(string \<times> string) list \<Rightarrow> string \<Rightarrow> (string \<times> string) list" where
  "parse_attrs_from out s0 =
     (let s = dropWhile is_gap s0 in
      case index_byte s CHR ''='' of
        None \<Rightarrow> out
      | Some eq \<Rightarrow>
          (let rest = drop (Suc eq) s in
           if rest = [] then out
           else parse_attrs_from
             (add_attr (to_lower (trim_space (take eq s))) (fst (attr_value rest)) out)
             (snd (attr_value rest))))"
  by pat_completeness auto
termination
proof (relation "measure (\<lambda>(_, s). length s)", goal_cases)
  case (2 out s0 s eq rest)
  have "length (snd (attr_value rest)) \<le> length rest"
    using 2 by (intro attr_value_shorter)
  also have "\<dots> < length s"
    using index_byte_SomeD [OF 2(2)] 2(3) by auto
  also have "\<dots> \<le> length s0"
    using 2(1) by (simp add: length_dropWhile_le)
  finally show ?case by simp
qed simp

declare parse_attrs_from.simps [simp del]

definition parse_attrs :: "string \<Rightarrow> (string \<times> string) list" where
  "parse_attrs s = parse_attrs_from [] s"

definition attr_of :: "(string \<times> string) list \<Rightarrow> string \<Rightarrow> string" where
  "attr_of attrs k = (case map_of attrs k of None \<Rightarrow> [] | Some v \<Rightarrow> v)"

fun first_attr :: "(string \<times> string) list \<Rightarrow> string list \<Rightarrow> string" where
  "first_attr attrs [] = []"
| "first_attr attrs (k # ks) =
     (if trim_space (attr_of attrs k) \<noteq> [] then trim_space (attr_of attrs k) else first_attr attrs ks)"

section \<open>EXTINF\<close>

fun split_extinf_from :: "string \<Rightarrow> bool \<Rightarrow> string \<Rightarrow> string + string \<times> string" where
  "split_extinf_from acc q [] = Inl ''malformed EXTINF (missing comma)''"
| "split_extinf_from acc q (c # cs) =
     (if c = CHR 0x22 then split_extinf_from (c # acc) (\<not> q) cs
      else if c = CHR '','' \<and> \<not> q then Inr (trim_space (rev acc), trim_space cs)
      else split_extinf_from (c # acc) q cs)"

definition split_extinf :: "string \<Rightarrow> string + string \<times> string" where
  "split_extinf rest = split_extinf_from [] False rest"

text \<open>What follows the duration.\<close>

definition attrs_part :: "string \<Rightarrow> string" where
  "attrs_part meta =
     (case dropWhile (\<lambda>c. \<not> is_gap c) meta of [] \<Rightarrow> [] | _ # r \<Rightarrow> trim_space r)"

definition parse_extinf :: "string \<Rightarrow> string + m3u_entry" where
  "parse_extinf line =
     bindE (split_extinf (drop (length ''#EXTINF:'') line)) (\<lambda>(meta, name).
     (let attrs = parse_attrs (attrs_part meta);
          chno = first_attr attrs [''tvg-chno'', ''tvg-chnum'', ''channel-number'', ''chno'']
      in Inr \<lparr> me_name = (if name = [] then first_attr attrs [''tvg-name'', ''tvg_name''] else name),
           me_number = (case parse_int64 chno of
              (n, ok) \<Rightarrow> if chno \<noteq> [] \<and> ok \<and> 0 \<le> n then n else 0),
           me_tvg = first_attr attrs [''tvg-id'', ''tvg_id''],
           me_group = first_attr attrs [''group-title'', ''group_title''],
           me_logo = first_attr attrs [''tvg-logo'', ''tvg_logo'', ''logo''],
           me_url = [], me_headers = [] \<rparr>))"

definition apply_vlc_opt :: "string \<Rightarrow> m3u_entry \<Rightarrow> m3u_entry" where
  "apply_vlc_opt opt ent =
     (let low = to_lower opt;
          put = (\<lambda>name key. ent\<lparr>me_headers := aput name (trim_space (drop (length key) opt)) (me_headers ent)\<rparr>)
      in if has_prefix low ''http-user-agent='' then put ''User-Agent'' ''http-user-agent=''
         else if has_prefix low ''http-referrer='' then put ''Referer'' ''http-referrer=''
         else if has_prefix low ''http-referer='' then put ''Referer'' ''http-referer=''
         else ent)"

section \<open>The header\<close>

definition http_scheme :: "string \<Rightarrow> bool" where
  "http_scheme raw = (case url_parse raw of
       None \<Rightarrow> False | Some u \<Rightarrow> u_scheme u = ''http'' \<or> u_scheme u = ''https'')"

definition extract_epg_urls :: "string \<Rightarrow> string list" where
  "extract_epg_urls header =
     (let rest0 = trim_space header;
          rest = (if 7 \<le> length rest0 \<and> equal_fold (take 7 rest0) ''#EXTM3U''
                  then trim_space (drop 7 rest0) else rest0);
          attrs = parse_attrs rest;
          parts = concat (map (\<lambda>k. split_byte CHR '','' (trim_space (attr_of attrs k)))
             [''url-tvg'', ''x-tvg-url'', ''tvg-url''])
      in foldl append_unique []
           (filter (\<lambda>p. p \<noteq> [] \<and> http_scheme p) (map trim_space parts)))"

text \<open>\<^verbatim>\<open>IsHTTPStream\<close>.\<close>

definition is_http_stream :: "string \<Rightarrow> bool" where
  "is_http_stream raw = (case url_parse (trim_space raw) of
       None \<Rightarrow> False
     | Some u \<Rightarrow> u_host u \<noteq> [] \<and> (u_scheme u = ''http'' \<or> u_scheme u = ''https''))"

section \<open>Parse\<close>

record m3u_state =
  ps_out :: m3u_playlist
  ps_pending :: "m3u_entry option"
  ps_line :: nat
  ps_header :: bool

definition warn :: "string \<Rightarrow> m3u_state \<Rightarrow> m3u_state" where
  "warn msg st = st\<lparr>ps_out := (ps_out st)\<lparr>pl_warnings := pl_warnings (ps_out st) @
     [''line '' @ show_nat (ps_line st) @ '': '' @ msg]\<rparr>\<rparr>"

definition flush :: "m3u_state \<Rightarrow> m3u_state" where
  "flush st = (case ps_pending st of
       None \<Rightarrow> st
     | Some e \<Rightarrow>
         if me_url e = [] then (warn ''EXTINF without URL, skipped'' st)\<lparr>ps_pending := None\<rparr>
         else st\<lparr>ps_out := (ps_out st)\<lparr>pl_entries := pl_entries (ps_out st) @
             [if me_name e = [] then e\<lparr>me_name := me_url e\<rparr> else e]\<rparr>, ps_pending := None\<rparr>)"

definition empty_entry :: m3u_entry where
  "empty_entry = \<lparr> me_name = [], me_number = 0, me_tvg = [], me_group = [], me_logo = [], me_url = [],
     me_headers = [] \<rparr>"

definition tag_line :: "string \<Rightarrow> m3u_state \<Rightarrow> m3u_state" where
  "tag_line line st =
     (let upper = to_upper line in
      if has_prefix upper ''#EXTM3U'' then
        st\<lparr>ps_header := True, ps_out := (ps_out st)\<lparr>pl_epgs :=
           foldl append_unique (pl_epgs (ps_out st)) (extract_epg_urls line)\<rparr>\<rparr>
      else if has_prefix upper ''#EXTINF:'' then
        (case parse_extinf line of
           Inl msg \<Rightarrow> (warn msg (flush st))\<lparr>ps_pending := None\<rparr>
         | Inr e \<Rightarrow> (flush st)\<lparr>ps_pending := Some e\<rparr>)
      else if has_prefix upper ''#EXTVLCOPT:'' then
        st\<lparr>ps_pending := map_option (apply_vlc_opt (trim_space (drop (length ''#EXTVLCOPT:'') line)))
           (ps_pending st)\<rparr>
      else if has_prefix upper ''#EXTGRP:'' then
        st\<lparr>ps_pending := map_option (\<lambda>e. if me_group e = []
           then e\<lparr>me_group := trim_space (drop (length ''#EXTGRP:'') line)\<rparr> else e) (ps_pending st)\<rparr>
      else st)"

definition m3u_line :: "m3u_state \<Rightarrow> string \<Rightarrow> m3u_state" where
  "m3u_line st0 raw =
     (let st = st0\<lparr>ps_line := Suc (ps_line st0)\<rparr>; line = trim_space raw in
      if line = [] then st
      else if has_prefix line ''#'' then tag_line line st
      else flush (st\<lparr>ps_pending := Some ((case ps_pending st of
          None \<Rightarrow> empty_entry\<lparr>me_name := line\<rparr> | Some e \<Rightarrow> e)\<lparr>me_url := line\<rparr>)\<rparr>))"

definition m3u_start :: m3u_state where
  "m3u_start = \<lparr> ps_out = \<lparr> pl_epgs = [], pl_entries = [], pl_warnings = [] \<rparr>, ps_pending = None,
     ps_line = 0, ps_header = False \<rparr>"

definition m3u_parse_lines :: "string list \<Rightarrow> string + m3u_playlist" where
  "m3u_parse_lines ls =
     (let st = flush (foldl m3u_line m3u_start ls) in
      if \<not> ps_header st \<and> pl_entries (ps_out st) = [] then Inl ''not a valid M3U playlist''
      else Inr (ps_out st))"

text \<open>The scanner's buffer: 1 MiB.\<close>

definition m3u_max_line :: nat where "m3u_max_line = 1024 * 1024"

definition m3u_parse :: "string \<Rightarrow> string + m3u_playlist" where
  "m3u_parse text = (case scan_lines m3u_max_line text of
       (ls, True) \<Rightarrow> m3u_parse_lines ls
     | (_, False) \<Rightarrow> Inl ''bufio.Scanner: token too long'')"

end
