(* ===== verification/RelayPlaylist.thy ===== *)
theory RelayPlaylist
  imports M3u StoreRelays
begin

text \<open>
  The playlist of a relay: \<^verbatim>\<open>handleRelayPlaylist\<close> of \<^verbatim>\<open>internal/httpapi/relays.go\<close> with
  \<^verbatim>\<open>sanitizePlaylistText\<close>, \<^verbatim>\<open>escapeAttr\<close> and \<^verbatim>\<open>publicBaseURL\<close> of \<^verbatim>\<open>server.go\<close>, and \<^verbatim>\<open>PublicTvgID\<close> of
  \<^verbatim>\<open>internal/core/epg/public.go\<close>.  What it writes the program's own parser reads back
  (\<open>playlist_round_trip\<close>), as long as no attribute contains a double quote.
\<close>

section \<open>Text\<close>

text \<open>\<^verbatim>\<open>strings.Map\<close> on valid UTF-8: the runes replaced are single bytes.\<close>

definition sanitize_playlist_text :: "string \<Rightarrow> string" where
  "sanitize_playlist_text v = map (\<lambda>c. if c \<in> {CHR 0x0D, CHR 0x0A, CHR 0x00} then CHR '' '' else c) v"

definition escape_attr :: "string \<Rightarrow> string" where
  "escape_attr v = concat (map (\<lambda>c. if c = CHR 0x22 then [CHR 0x5C, CHR 0x22] else [c])
     (sanitize_playlist_text v))"

definition public_tvg_id :: "int \<Rightarrow> string \<Rightarrow> string" where
  "public_tvg_id source_id raw =
     (let tvg = trim_space raw in
      if source_id \<le> 0 \<or> tvg = [] then [] else ''epg'' @ show_int source_id @ ''-'' @ tvg)"

section \<open>The base URL\<close>

record http_request =
  rq_tls :: bool
  rq_host :: string
  rq_forwarded_proto :: string
  rq_forwarded_host :: string

definition first_part :: "string \<Rightarrow> string" where
  "first_part s = trim_space (hd (split_byte CHR '','' s))"

definition public_base_url :: "string \<Rightarrow> bool \<Rightarrow> http_request \<Rightarrow> string" where
  "public_base_url cfg_base trust r =
     (let base = trim_right_char CHR ''/'' (trim_space cfg_base) in
      if base \<noteq> [] then base
      else let v = to_lower (first_part (rq_forwarded_proto r));
               h = first_part (rq_forwarded_host r);
               proto0 = (if rq_tls r then ''https'' else ''http'');
               proto = (if trust \<and> (v = ''http'' \<or> v = ''https'') then v else proto0);
               host = (if trust \<and> h \<noteq> [] \<and> \<not> list_ex (\<lambda>c. c \<in> {CHR ''/'', CHR '' '', CHR 0x09, CHR 0x0D, CHR 0x0A}) h
                       then h else rq_host r)
           in if host = [] then [] else proto @ ''://'' @ host)"

section \<open>The playlist\<close>

definition attr :: "string \<Rightarrow> string \<Rightarrow> string" where
  "attr key val = key @ ''='' @ [CHR 0x22] @ val @ [CHR 0x22]"

definition entry_attrs :: "lineup_entry \<Rightarrow> string list" where
  "entry_attrs e =
     (let pub = public_tvg_id (case le_epg e of None \<Rightarrow> 0 | Some i \<Rightarrow> i) (le_tvg e) in
      (if pub \<noteq> [] then [attr ''tvg-id'' (escape_attr pub)] else []) @
      [attr ''tvg-name'' (escape_attr (le_name e))] @
      (if le_logo e \<noteq> [] then [attr ''tvg-logo'' (escape_attr (le_logo e))] else []) @
      (if 0 < le_number e then [attr ''tvg-chno'' (show_int (le_number e))] else []) @
      (if le_group e \<noteq> [] then [attr ''group-title'' (escape_attr (le_group e))] else []))"

definition entry_lines :: "string \<Rightarrow> lineup_entry \<Rightarrow> string list" where
  "entry_lines base e =
     [''#EXTINF:-1 '' @ join_str '' '' (entry_attrs e) @ '','' @ sanitize_playlist_text (le_name e),
      base @ ''/stream/'' @ le_channel e]"

definition playlist_lines :: "string \<Rightarrow> string \<Rightarrow> lineup_entry list \<Rightarrow> string list" where
  "playlist_lines base slug es =
     (''#EXTM3U url-tvg='' @ [CHR 0x22] @ base @ ''/r/'' @ slug @ ''/epg.xml'' @ [CHR 0x22]) #
     concat (map (entry_lines base) es)"

definition playlist_text :: "string \<Rightarrow> string \<Rightarrow> lineup_entry list \<Rightarrow> string" where
  "playlist_text base slug es = concat (map (\<lambda>l. l @ [CHR 0x0A]) (playlist_lines base slug es))"

definition relay_playlist :: "string \<Rightarrow> string \<Rightarrow> string dbm" where
  "relay_playlist base slug =
     bindD (list_relay_lineup slug) (\<lambda>(_, es). okD (playlist_text base slug es))"

section \<open>Reading lines back\<close>

lemma split_byte_append:
  "k \<notin> set l \<Longrightarrow> split_byte k (l @ k # s) = l # split_byte k s"
  by (induction l) auto

lemma split_byte_whole: "k \<notin> set l \<Longrightarrow> split_byte k l = [l]"
  by (induction l) auto

definition good_line :: "string \<Rightarrow> bool" where
  "good_line l \<longleftrightarrow> CHR 0x0A \<notin> set l \<and> (l = [] \<or> last l \<noteq> CHR 0x0D) \<and> length l < m3u_max_line"

lemma scan_written:
  assumes "\<forall>l \<in> set ls. good_line l"
  shows "scan_lines m3u_max_line (concat (map (\<lambda>l. l @ [CHR 0x0A]) ls)) = (ls, True)"
proof -
  have split: "split_byte CHR 0x0A (concat (map (\<lambda>l. l @ [CHR 0x0A]) ls)) = ls @ [[]]"
    using assms by (induction ls) (simp_all add: good_line_def split_byte_append)
  have "take_lines m3u_max_line (ls @ [[]]) = (ls, True)"
    using assms
  proof (induction ls)
    case Nil
    then show ?case by (simp add: m3u_max_line_def)
  next
    case (Cons l ls)
    then show ?case by (auto simp: good_line_def drop_cr_def)
  qed
  then show ?thesis by (simp add: scan_lines_def split)
qed

section \<open>Clean values\<close>

text \<open>What the store keeps: no blanks around, and here no line breaks and no double quote.\<close>

definition clean :: "string \<Rightarrow> bool" where
  "clean v \<longleftrightarrow> trim_space v = v \<and> set v \<inter> {CHR 0x0D, CHR 0x0A, CHR 0x00} = {}"

definition quotable :: "string \<Rightarrow> bool" where
  "quotable v \<longleftrightarrow> clean v \<and> CHR 0x22 \<notin> set v"

lemma sanitize_clean: "clean v \<Longrightarrow> sanitize_playlist_text v = v"
  unfolding sanitize_playlist_text_def by (rule map_idI) (auto simp: clean_def)

lemma escape_quotable: "quotable v \<Longrightarrow> escape_attr v = v"
proof -
  assume v: "quotable v"
  then have "concat (map (\<lambda>c. if c = CHR 0x22 then [CHR 0x5C, CHR 0x22] else [c]) v) = concat (map (\<lambda>c. [c]) v)"
    by (intro arg_cong [where f = concat] map_cong refl) (auto simp: quotable_def)
  then show ?thesis using v by (simp add: escape_attr_def quotable_def sanitize_clean concat_map_singleton)
qed

section \<open>Trimming\<close>

definition edge :: "char \<Rightarrow> bool" where
  "edge c \<longleftrightarrow> c \<notin> set space_bytes"

lemma edge_chars [simp]:
  "edge CHR ''#''" "edge CHR '',''" "edge CHR 0x22" "edge CHR ''-''" "edge CHR ''t''" "edge CHR ''g''" "edge CHR ''u''"
  "edge CHR ''e''"
  by (simp_all add: edge_def space_bytes_def space_runes_def)

lemma rune_bytes: "w \<in> set space_runes \<Longrightarrow> set w \<subseteq> set space_bytes"
  by (auto simp: space_bytes_def)

lemma trim_left_edge: "edge c \<Longrightarrow> trim_left (c # s) = c # s"
  unfolding trim_left_def
proof (rule strip_runes_fixed)
  fix w assume c: "edge c" and w: "w \<in> set space_runes" "w \<noteq> []"
  show "\<not> prefix w (c # s)"
    using rune_bytes [OF w(1)] w(2) c by (cases w) (auto simp: edge_def)
qed

lemma trim_right_edge:
  assumes "edge c" "trim_right v = v"
  shows "trim_right (p @ c # v) = p @ c # v"
proof -
  have "strip_runes (map rev space_runes) (rev v @ c # rev p) = rev v @ c # rev p"
  proof (rule strip_runes_fixed)
    fix w assume "w \<in> set (map rev space_runes)" and n: "w \<noteq> []"
    then obtain u where u: "u \<in> set space_runes" "w = rev u" by auto
    show "\<not> prefix w (rev v @ c # rev p)"
    proof
      assume "prefix w (rev v @ c # rev p)"
      then have split: "prefix w (rev v) \<or> (\<exists>zs. w = rev v @ zs \<and> prefix zs (c # rev p))"
        by (simp add: prefix_append)
      show False
      proof (cases "prefix w (rev v)")
        case True
        have "strip_runes (map rev space_runes) (rev v) = rev v"
          using assms(2) by (metis rev_rev_ident trim_right_def)
        then show False using True strip_runes_stuck [of w "map rev space_runes" "rev v"] u n by auto
      next
        case False
        then obtain zs where "w = rev v @ zs" "prefix zs (c # rev p)" "zs \<noteq> []" using split by auto
        then have "c \<in> set w" by (cases zs) auto
        then show False using rune_bytes [OF u(1)] u(2) assms(1) by (auto simp: edge_def)
      qed
    qed
  qed
  then show ?thesis by (simp add: trim_right_def)
qed

lemma trim_right_of_space: "trim_space v = v \<Longrightarrow> trim_right v = v"
  by (metis trim_right_idem trim_space_def)

lemma trim_edges: "edge b \<Longrightarrow> edge c \<Longrightarrow> trim_space v = v \<Longrightarrow> trim_space (b # p @ c # v) = b # p @ c # v"
  using trim_right_edge [of c v "b # p"] by (simp add: trim_space_def trim_left_edge trim_right_of_space)

lemma trim_edge_last: "edge b \<Longrightarrow> edge c \<Longrightarrow> trim_space (b # p @ [c]) = b # p @ [c]"
  using trim_edges [of b c "[]" p] by simp

section \<open>Reading attributes back\<close>

definition key_ok :: "string \<Rightarrow> bool" where
  "key_ok k \<longleftrightarrow> k \<noteq> [] \<and> \<not> is_gap (hd k) \<and> CHR ''='' \<notin> set k \<and> CHR 0x22 \<notin> set k \<and> CHR '','' \<notin> set k \<and>
     to_lower k = k \<and> trim_space k = k"

lemma playlist_keys [simp]:
  "key_ok ''tvg-id''" "key_ok ''tvg-name''" "key_ok ''tvg-logo''" "key_ok ''tvg-chno''" "key_ok ''group-title''"
  "key_ok ''url-tvg''"
  by (simp_all add: key_ok_def is_gap_def to_lower_def lower_char_def trim_space_id space_bytes_def space_runes_def)

lemma parse_gap: "parse_attrs_from out (CHR '' '' # s) = parse_attrs_from out s"
  by (subst (1 2) parse_attrs_from.simps) (simp add: is_gap_def)

lemma parse_attr:
  assumes "key_ok k" "CHR 0x22 \<notin> set v"
  shows "parse_attrs_from out (attr k v @ s) = parse_attrs_from (aput k v out) s"
proof -
  let ?t = "CHR 0x22 # v @ CHR 0x22 # s"
  have d: "dropWhile is_gap (k @ CHR ''='' # ?t) = k @ CHR ''='' # ?t"
    using assms(1) by (cases k) (auto simp: key_ok_def)
  have i: "index_byte (k @ CHR ''='' # ?t) CHR ''='' = Some (length k)"
    using assms(1) by (simp add: key_ok_def index_byte_append)
  have "attr_value ?t = (v, s)"
    using index_byte_append [OF assms(2), of s] by (simp add: attr_value_def)
  then show ?thesis
    using assms(1)
    by (subst parse_attrs_from.simps) (simp add: attr_def d i add_attr_def key_ok_def)
qed

lemma parse_attrs_nil: "parse_attrs_from out [] = out"
  by (subst parse_attrs_from.simps) simp

definition attrs_line :: "(string \<times> string) list \<Rightarrow> string" where
  "attrs_line kvs = join_str '' '' (map (\<lambda>(k, v). attr k v) kvs)"

definition attrs_ok :: "(string \<times> string) list \<Rightarrow> bool" where
  "attrs_ok kvs \<longleftrightarrow> (\<forall>(k, v) \<in> set kvs. key_ok k \<and> CHR 0x22 \<notin> set v)"

lemma attrs_line_Cons:
  "attrs_line ((k, v) # kvs) = attr k v @ (if kvs = [] then [] else CHR '' '' # attrs_line kvs)"
  by (cases kvs) (auto simp: attrs_line_def join_str_def)

lemma parse_attrs_line:
  "attrs_ok kvs \<Longrightarrow> parse_attrs_from out (attrs_line kvs) = foldl (\<lambda>out (k, v). aput k v out) out kvs"
proof (induction kvs arbitrary: out)
  case Nil
  then show ?case by (simp add: attrs_line_def join_str_def parse_attrs_nil)
next
  case (Cons x kvs)
  obtain k v where x: "x = (k, v)" by (cases x)
  have ok: "key_ok k" "CHR 0x22 \<notin> set v" "attrs_ok kvs" using Cons.prems by (auto simp: attrs_ok_def x)
  show ?case
    using Cons.IH [OF ok(3)]
    by (simp add: x attrs_line_Cons parse_attr [OF ok(1,2)] parse_gap parse_attrs_nil
        parse_attr [OF ok(1,2), of _ "[]", simplified])
qed

lemma fold_aput_distinct:
  "distinct (map fst (out @ kvs)) \<Longrightarrow> foldl (\<lambda>out (k, v). aput k v out) out kvs = out @ kvs"
proof (induction kvs arbitrary: out)
  case (Cons x kvs)
  obtain k v where x: "x = (k, v)" by (cases x)
  have "map_of out k = None" using Cons.prems by (auto simp: x map_of_eq_None_iff)
  then show ?case using Cons by (simp add: x aput_new)
qed simp

lemma parse_attrs_read: "attrs_ok kvs \<Longrightarrow> distinct (map fst kvs) \<Longrightarrow> parse_attrs (attrs_line kvs) = kvs"
  using parse_attrs_line [of kvs "[]"] fold_aput_distinct [of "[]" kvs] by (simp add: parse_attrs_def)

section \<open>The comma of an EXTINF line\<close>

definition passed :: "string \<Rightarrow> bool" where
  "passed s \<longleftrightarrow> (\<forall>acc cs. split_extinf_from acc False (s @ cs) = split_extinf_from (rev s @ acc) False cs)"

lemma passed_Nil: "passed []" by (simp add: passed_def)

lemma passed_append: "passed s \<Longrightarrow> passed t \<Longrightarrow> passed (s @ t)"
  by (simp add: passed_def)

lemma passed_plain: "CHR 0x22 \<notin> set s \<Longrightarrow> CHR '','' \<notin> set s \<Longrightarrow> passed s"
proof (induction s)
  case Nil
  show ?case by (rule passed_Nil)
next
  case (Cons c s)
  then show ?case by (auto simp: passed_def)
qed

lemma in_quotes: "CHR 0x22 \<notin> set v \<Longrightarrow> split_extinf_from acc True (v @ cs) = split_extinf_from (rev v @ acc) True cs"
  by (induction v arbitrary: acc) auto

lemma passed_quoted: "CHR 0x22 \<notin> set v \<Longrightarrow> passed ([CHR 0x22] @ v @ [CHR 0x22])"
  by (simp add: passed_def in_quotes)

lemma passed_attr: "key_ok k \<Longrightarrow> CHR 0x22 \<notin> set v \<Longrightarrow> passed (attr k v)"
  unfolding attr_def by (intro passed_append passed_plain passed_quoted [simplified append_assoc]) (auto simp: key_ok_def)

lemma passed_attrs_line: "attrs_ok kvs \<Longrightarrow> passed (attrs_line kvs)"
proof (induction kvs)
  case Nil
  then show ?case by (simp add: attrs_line_def join_str_def passed_Nil)
next
  case (Cons x kvs)
  obtain k v where x: "x = (k, v)" by (cases x)
  have "passed (attr k v)" "passed (attrs_line kvs)"
    using Cons by (auto simp: attrs_ok_def x passed_attr)
  then show ?case
    using passed_append [OF _ passed_append [OF passed_plain [of "'' ''"]]]
    by (auto simp: x attrs_line_Cons)
qed

lemma split_passed: "passed s \<Longrightarrow> split_extinf (s @ CHR '','' # name) = Inr (trim_space s, trim_space name)"
  by (simp add: passed_def split_extinf_def)

section \<open>One entry\<close>

definition entry_kvs :: "lineup_entry \<Rightarrow> (string \<times> string) list" where
  "entry_kvs e =
     (let pub = public_tvg_id (case le_epg e of None \<Rightarrow> 0 | Some i \<Rightarrow> i) (le_tvg e) in
      (if pub \<noteq> [] then [(''tvg-id'', pub)] else []) @ [(''tvg-name'', le_name e)] @
      (if le_logo e \<noteq> [] then [(''tvg-logo'', le_logo e)] else []) @
      (if 0 < le_number e then [(''tvg-chno'', show_int (le_number e))] else []) @
      (if le_group e \<noteq> [] then [(''group-title'', le_group e)] else []))"

text \<open>What the parser makes of an entry of a lineup.\<close>

definition read_entry :: "string \<Rightarrow> lineup_entry \<Rightarrow> m3u_entry" where
  "read_entry base e = \<lparr> me_name = le_name e, me_number = max 0 (le_number e),
     me_tvg = public_tvg_id (case le_epg e of None \<Rightarrow> 0 | Some i \<Rightarrow> i) (le_tvg e),
     me_group = le_group e, me_logo = le_logo e, me_url = base @ ''/stream/'' @ le_channel e,
     me_headers = [] \<rparr>"

text \<open>The entries that survive: clean values without double quotes, lines that fit the scanner.\<close>

definition readable_values :: "string \<Rightarrow> lineup_entry \<Rightarrow> bool" where
  "readable_values base e \<longleftrightarrow>
     le_name e \<noteq> [] \<and> quotable (le_name e) \<and> quotable (le_logo e) \<and> quotable (le_group e) \<and>
     quotable (trim_space (le_tvg e)) \<and> le_number e \<le> max_int64 \<and>
     clean (base @ ''/stream/'' @ le_channel e) \<and> \<not> has_prefix (base @ ''/stream/'') ''#''"

definition readable :: "string \<Rightarrow> lineup_entry \<Rightarrow> bool" where
  "readable base e \<longleftrightarrow> readable_values base e \<and> (\<forall>l \<in> set (entry_lines base e). length l < m3u_max_line)"

lemma show_int_bytes: "set (show_int i) \<subseteq> insert CHR ''-'' {c. is_digit_char c}"
  using show_nat_digits [of "nat i"] show_nat_digits [of "nat (- i)"] by (auto simp: show_int_def)

lemma digit_plain: "is_digit_char c \<Longrightarrow> c \<notin> set space_bytes \<and> c \<notin> {CHR 0x0D, CHR 0x0A, CHR 0x00, CHR 0x22, CHR ''=''}"
  by (auto simp: is_digit_char_def space_bytes_def space_runes_def less_eq_char_def)

lemma quotable_show_int: "quotable (show_int i)"
proof -
  have "CHR ''-'' \<notin> set space_bytes" by (simp add: space_bytes_def space_runes_def)
  then have "set (show_int i) \<inter> set space_bytes = {}"
    using show_int_bytes [of i] digit_plain by blast
  moreover have "set (show_int i) \<inter> {CHR 0x0D, CHR 0x0A, CHR 0x00, CHR 0x22} = {}"
    using show_int_bytes [of i] digit_plain by fastforce
  ultimately show ?thesis by (simp add: quotable_def clean_def trim_space_id)
qed

lemma quotable_pub: "quotable (trim_space raw) \<Longrightarrow> quotable (public_tvg_id i raw)"
proof -
  assume q: "quotable (trim_space raw)"
  have t: "trim_space (CHR ''e'' # (''pg'' @ show_int i) @ CHR ''-'' # trim_space raw) =
      CHR ''e'' # (''pg'' @ show_int i) @ CHR ''-'' # trim_space raw"
    by (rule trim_edges) simp_all
  then show ?thesis
    using q quotable_show_int [of i]
    by (auto simp: public_tvg_id_def Let_def quotable_def clean_def)
qed

lemma quotable_empty [simp]: "quotable []"
  by (simp add: quotable_def clean_def)

lemma join_attrs:
  assumes "readable base e"
  shows "join_str '' '' (entry_attrs e) = attrs_line (entry_kvs e)"
proof -
  let ?pub = "public_tvg_id (case le_epg e of None \<Rightarrow> 0 | Some i \<Rightarrow> i) (le_tvg e)"
  have "escape_attr ?pub = ?pub" "escape_attr (le_name e) = le_name e"
    "escape_attr (le_logo e) = le_logo e" "escape_attr (le_group e) = le_group e"
    using assms by (simp_all add: readable_def readable_values_def escape_quotable quotable_pub)
  then have "entry_attrs e = map (\<lambda>(k, v). attr k v) (entry_kvs e)"
    by (simp add: entry_attrs_def entry_kvs_def Let_def)
  then show ?thesis by (simp add: attrs_line_def)
qed

lemma entry_kvs_ok:
  assumes "readable base e"
  shows "attrs_ok (entry_kvs e)" "distinct (map fst (entry_kvs e))"
    "\<forall>(k, v) \<in> set (entry_kvs e). trim_space v = v"
  using assms quotable_pub [of "le_tvg e"] quotable_show_int [of "le_number e"]
  by (auto simp: entry_kvs_def attrs_ok_def Let_def readable_def readable_values_def quotable_def clean_def)

lemma attr_of_kvs:
  "attr_of (entry_kvs e) ''tvg-id'' = public_tvg_id (case le_epg e of None \<Rightarrow> 0 | Some i \<Rightarrow> i) (le_tvg e)"
  "attr_of (entry_kvs e) ''tvg-name'' = le_name e" "attr_of (entry_kvs e) ''tvg-logo'' = le_logo e"
  "attr_of (entry_kvs e) ''tvg-chno'' = (if 0 < le_number e then show_int (le_number e) else [])"
  "attr_of (entry_kvs e) ''group-title'' = le_group e"
  by (simp_all add: attr_of_def entry_kvs_def Let_def)

lemma attr_of_other:
  "k \<notin> {''tvg-id'', ''tvg-name'', ''tvg-logo'', ''tvg-chno'', ''group-title''} \<Longrightarrow> attr_of (entry_kvs e) k = []"
  by (simp add: attr_of_def entry_kvs_def Let_def)

lemma parse_number: "0 < i \<Longrightarrow> i \<le> max_int64 \<Longrightarrow> parse_int64 (show_int i) = (i, True)"
  using parse_int64_show_nat [of "nat i"] by (simp add: show_int_def)

lemma attrs_line_edges:
  assumes "attrs_ok kvs" "kvs \<noteq> []" "edge (hd (fst (hd kvs)))"
  shows "\<exists>b p. attrs_line kvs = b # p @ [CHR 0x22] \<and> edge b"
proof -
  obtain k v rest where kvs: "kvs = (k, v) # rest" using assms(2) by (metis list.exhaust surj_pair)
  obtain b k' where k: "k = b # k'" using assms(1) kvs by (cases k) (auto simp: attrs_ok_def key_ok_def)
  have ends: "\<exists>p. attrs_line ks = p @ [CHR 0x22]" if "ks \<noteq> []" for ks
    using that
  proof (induction ks)
    case (Cons x ks)
    show ?case
    proof (cases "ks = []")
      case True
      then show ?thesis by (cases x) (auto simp: attrs_line_Cons attr_def)
    next
      case False
      then obtain p where "attrs_line ks = p @ [CHR 0x22]" using Cons.IH by blast
      with False show ?thesis by (cases x) (auto simp: attrs_line_Cons)
    qed
  qed simp
  show ?thesis
  proof (cases "rest = []")
    case True
    have "attrs_line kvs = b # (k' @ ''='' @ [CHR 0x22] @ v) @ [CHR 0x22]"
      using True by (simp add: kvs k attrs_line_Cons attr_def)
    then show ?thesis using assms(3) by (metis fst_conv k kvs list.sel(1))
  next
    case False
    then obtain p where "attrs_line rest = p @ [CHR 0x22]" using ends by blast
    then have "attrs_line kvs = b # (k' @ ''='' @ [CHR 0x22] @ v @ [CHR 0x22] @ '' '' @ p) @ [CHR 0x22]"
      using False by (simp add: kvs k attrs_line_Cons attr_def)
    then show ?thesis using assms(3) by (metis fst_conv k kvs list.sel(1))
  qed
qed

lemma parse_extinf_entry:
  assumes "readable base e"
  shows "parse_extinf (hd (entry_lines base e)) = Inr ((read_entry base e)\<lparr>me_url := []\<rparr>)"
proof -
  note ok = entry_kvs_ok [OF assms]
  let ?A = "attrs_line (entry_kvs e)" and ?n = "le_name e"
  have name: "sanitize_playlist_text ?n = ?n" "trim_space ?n = ?n" "?n \<noteq> []"
    using assms by (auto simp: readable_def readable_values_def quotable_def sanitize_clean clean_def)
  have "edge (hd (fst (hd (entry_kvs e))))" "entry_kvs e \<noteq> []" by (simp_all add: entry_kvs_def Let_def)
  then obtain b p where A: "?A = b # p @ [CHR 0x22]" "edge b" using attrs_line_edges [OF ok(1)] by blast
  let ?m = "''-1 '' @ ?A"
  have line: "drop (length ''#EXTINF:'') (hd (entry_lines base e)) = ?m @ CHR '','' # ?n"
    by (simp add: entry_lines_def join_attrs [OF assms] name)
  have meta: "trim_space ?m = ?m"
    using trim_edge_last [of "CHR ''-''" "CHR 0x22" "''1 '' @ b # p"] by (simp add: A)
  have "passed ?m"
    by (intro passed_append passed_plain passed_attrs_line ok) simp_all
  from split_passed [OF this, of ?n]
  have split: "split_extinf (drop (length ''#EXTINF:'') (hd (entry_lines base e))) = Inr (?m, ?n)"
    unfolding line meta name(2) .
  have part: "attrs_part ?m = ?A"
    using trim_edge_last [of b "CHR 0x22" p] A(2) by (simp add: attrs_part_def is_gap_def A(1))
  have tr: "trim_space (attr_of (entry_kvs e) k) = attr_of (entry_kvs e) k" for k
    using ok(3) by (auto simp: attr_of_def split: option.split dest: map_of_SomeD)
  have num: "le_number e \<le> max_int64" using assms by (simp add: readable_def readable_values_def)
  have sh: "show_int (le_number e) \<noteq> []" using show_nat_nonempty by (simp add: show_int_def)
  have firsts: "first_attr (entry_kvs e) [''tvg-id'', ''tvg_id''] =
      public_tvg_id (case le_epg e of None \<Rightarrow> 0 | Some i \<Rightarrow> i) (le_tvg e)"
    "first_attr (entry_kvs e) [''group-title'', ''group_title''] = le_group e"
    "first_attr (entry_kvs e) [''tvg-logo'', ''tvg_logo'', ''logo''] = le_logo e"
    "first_attr (entry_kvs e) [''tvg-chno'', ''tvg-chnum'', ''channel-number'', ''chno''] =
      (if 0 < le_number e then show_int (le_number e) else [])"
    by (simp_all only: first_attr.simps tr) (simp_all add: attr_of_kvs attr_of_other)
  have "(case parse_int64 (if 0 < le_number e then show_int (le_number e) else []) of
      (n, ok) \<Rightarrow> if (if 0 < le_number e then show_int (le_number e) else []) \<noteq> [] \<and> ok \<and> 0 \<le> n then n else 0) =
      max 0 (le_number e)"
    using sh parse_number [OF _ num] by (auto split: prod.split)
  then show ?thesis
    unfolding parse_extinf_def split bindE_Inr prod.case part parse_attrs_read [OF ok(1,2)] Let_def firsts
    by (simp add: name(3) read_entry_def)
qed

section \<open>The whole playlist\<close>

lemma m3u_extinf_line:
  assumes "readable base e" "ps_pending st = None"
  shows "m3u_line st (hd (entry_lines base e)) =
    st\<lparr>ps_line := Suc (ps_line st), ps_pending := Some ((read_entry base e)\<lparr>me_url := []\<rparr>)\<rparr>"
proof -
  have n: "clean (le_name e)" using assms(1) by (simp add: readable_def readable_values_def quotable_def)
  let ?p = "''EXTINF:-1 '' @ join_str '' '' (entry_attrs e)"
  have line: "hd (entry_lines base e) = CHR ''#'' # ?p @ CHR '','' # le_name e"
    by (simp add: entry_lines_def sanitize_clean [OF n])
  have "trim_space (hd (entry_lines base e)) = hd (entry_lines base e)"
    unfolding line using n by (intro trim_edges) (simp_all add: clean_def)
  moreover have "has_prefix (hd (entry_lines base e)) ''#''" "hd (entry_lines base e) \<noteq> []"
    by (simp_all add: line)
  moreover have "\<not> has_prefix (to_upper (hd (entry_lines base e))) ''#EXTM3U''"
    "has_prefix (to_upper (hd (entry_lines base e))) ''#EXTINF:''"
    by (simp_all add: line to_upper_def upper_char_def)
  ultimately show ?thesis
    using assms(2) parse_extinf_entry [OF assms(1)]
    by (simp add: m3u_line_def Let_def tag_line_def flush_def)
qed

lemma m3u_url_line:
  assumes "readable base e" "ps_pending st = Some ((read_entry base e)\<lparr>me_url := []\<rparr>)"
  shows "m3u_line st (base @ ''/stream/'' @ le_channel e) =
    st\<lparr>ps_line := Suc (ps_line st), ps_pending := None,
       ps_out := (ps_out st)\<lparr>pl_entries := pl_entries (ps_out st) @ [read_entry base e]\<rparr>\<rparr>"
proof -
  have u: "trim_space (base @ ''/stream/'' @ le_channel e) = base @ ''/stream/'' @ le_channel e"
    "\<not> has_prefix (base @ ''/stream/'') ''#''"
    using assms(1) by (simp_all add: readable_def readable_values_def clean_def)
  have h: "\<not> has_prefix (base @ ''/stream/'' @ le_channel e) ''#''"
    using u(2) by (cases base) auto
  have "me_name (read_entry base e) \<noteq> []" using assms(1) by (simp add: readable_def readable_values_def read_entry_def)
  then show ?thesis
    using assms(2) u(1) h
    by (simp add: m3u_line_def Let_def flush_def read_entry_def)
qed

lemma m3u_entries:
  assumes "\<forall>e \<in> set es. readable base e" "ps_pending st = None"
  shows "foldl m3u_line st (concat (map (entry_lines base) es)) =
    st\<lparr>ps_line := ps_line st + 2 * length es,
       ps_out := (ps_out st)\<lparr>pl_entries := pl_entries (ps_out st) @ map (read_entry base) es\<rparr>\<rparr>"
  using assms
proof (induction es arbitrary: st)
  case (Cons e es)
  have e: "readable base e" using Cons.prems(1) by simp
  obtain l where l: "entry_lines base e = [l, base @ ''/stream/'' @ le_channel e]" "l = hd (entry_lines base e)"
    by (simp add: entry_lines_def)
  let ?st1 = "m3u_line st l" and ?st2 = "m3u_line (m3u_line st l) (base @ ''/stream/'' @ le_channel e)"
  have 1: "?st1 = st\<lparr>ps_line := Suc (ps_line st), ps_pending := Some ((read_entry base e)\<lparr>me_url := []\<rparr>)\<rparr>"
    unfolding l(2) by (rule m3u_extinf_line [OF e Cons.prems(2)])
  have 2: "?st2 = st\<lparr>ps_line := Suc (Suc (ps_line st)), ps_pending := None,
       ps_out := (ps_out st)\<lparr>pl_entries := pl_entries (ps_out st) @ [read_entry base e]\<rparr>\<rparr>"
    using m3u_url_line [OF e, of ?st1] 1 by simp
  have "foldl m3u_line st (concat (map (entry_lines base) (e # es))) =
      foldl m3u_line ?st2 (concat (map (entry_lines base) es))"
    by (simp add: l(1))
  also have "\<dots> = ?st2\<lparr>ps_line := ps_line ?st2 + 2 * length es,
       ps_out := (ps_out ?st2)\<lparr>pl_entries := pl_entries (ps_out ?st2) @ map (read_entry base) es\<rparr>\<rparr>"
    using Cons.prems(1) 2 by (intro Cons.IH) simp_all
  finally show ?case unfolding 2 using Cons.prems(2) by simp
qed (simp add: m3u_state.equality)

text \<open>The header: its guide URL parses as an http URL of one part.\<close>

definition guide_url :: "string \<Rightarrow> string \<Rightarrow> string" where
  "guide_url base slug = base @ ''/r/'' @ slug @ ''/epg.xml''"

definition readable_header :: "string \<Rightarrow> string \<Rightarrow> bool" where
  "readable_header base slug \<longleftrightarrow> quotable (guide_url base slug) \<and> CHR '','' \<notin> set (guide_url base slug) \<and>
     http_scheme (guide_url base slug) \<and> length (guide_url base slug) + 18 < m3u_max_line"

lemma header_line_eq: "hd (playlist_lines base slug es) = ''#EXTM3U '' @ attr ''url-tvg'' (guide_url base slug)"
  by (simp add: playlist_lines_def attr_def guide_url_def)

lemma extract_header:
  assumes "readable_header base slug"
  shows "extract_epg_urls (hd (playlist_lines base slug es)) = [guide_url base slug]"
proof -
  let ?g = "guide_url base slug"
  let ?a = "attr ''url-tvg'' ?g"
  have g: "trim_space ?g = ?g" "CHR 0x22 \<notin> set ?g" "CHR '','' \<notin> set ?g" "?g \<noteq> []" "http_scheme ?g"
    using assms by (auto simp: readable_header_def quotable_def clean_def) (simp add: guide_url_def)
  have a: "?a = CHR ''u'' # (''rl-tvg='' @ [CHR 0x22] @ ?g) @ [CHR 0x22]" by (simp add: attr_def)
  have t1: "trim_space (''#EXTM3U '' @ ?a) = ''#EXTM3U '' @ ?a"
    using trim_edge_last [of "CHR ''#''" "CHR 0x22" "''EXTM3U url-tvg='' @ [CHR 0x22] @ ?g"] by (simp add: attr_def)
  have t2: "trim_space ?a = ?a"
    unfolding a by (rule trim_edge_last) simp_all
  have t3: "trim_space (drop 7 (''#EXTM3U '' @ ?a)) = ?a"
  proof -
    have sp: "trim_left (CHR '' '' # s) = trim_left s" for s
      by (simp add: trim_left_def space_runes_def)
    have "drop 7 (''#EXTM3U '' @ ?a) = CHR '' '' # ?a" by simp
    then show ?thesis using t2 by (simp add: trim_space_def sp)
  qed
  have "parse_attrs ?a = [(''url-tvg'', ?g)]"
    using parse_attr [of "''url-tvg''" ?g "[]" "[]"] g by (simp add: parse_attrs_def parse_attrs_nil)
  moreover have "equal_fold (take 7 (''#EXTM3U '' @ ?a)) ''#EXTM3U''" by (simp add: equal_fold_def)
  ultimately show ?thesis
    unfolding extract_epg_urls_def header_line_eq t1 Let_def t3
    using g by (simp add: t3 [simplified] attr_of_def split_byte_whole append_unique_def)
qed

lemma m3u_header_line:
  assumes "readable_header base slug"
  shows "m3u_line m3u_start (hd (playlist_lines base slug es)) =
    m3u_start\<lparr>ps_line := 1, ps_header := True,
      ps_out := \<lparr> pl_epgs = [guide_url base slug], pl_entries = [], pl_warnings = [] \<rparr>\<rparr>"
proof -
  let ?l = "hd (playlist_lines base slug es)"
  have "trim_space ?l = ?l"
    using trim_edge_last [of "CHR ''#''" "CHR 0x22" "''EXTM3U url-tvg='' @ [CHR 0x22] @ guide_url base slug"]
    by (simp add: header_line_eq attr_def)
  moreover have "has_prefix ?l ''#''" "?l \<noteq> []" "has_prefix (to_upper ?l) ''#EXTM3U''"
    by (simp_all add: header_line_eq attr_def to_upper_def upper_char_def)
  ultimately show ?thesis
    using extract_header [OF assms]
    by (simp add: m3u_line_def Let_def tag_line_def m3u_start_def append_unique_def)
qed

lemma attrs_line_set:
  assumes "c \<notin> {CHR ''='', CHR 0x22, CHR '' ''}" "\<forall>(k, v) \<in> set kvs. c \<notin> set k \<and> c \<notin> set v"
  shows "c \<notin> set (attrs_line kvs)"
  using assms(2)
proof (induction kvs)
  case Nil
  show ?case by (simp add: attrs_line_def join_str_def)
next
  case (Cons x kvs)
  then show ?case using assms(1) by (cases x) (auto simp: attrs_line_Cons attr_def)
qed

lemma clean_newline: "clean v \<Longrightarrow> CHR 0x0A \<notin> set v"
  by (simp add: clean_def)

lemma clean_last: "clean v \<Longrightarrow> v \<noteq> [] \<Longrightarrow> last v \<noteq> CHR 0x0D"
  using last_in_set [of v] by (metis clean_def disjoint_iff insertI1)

lemma good_entry_lines:
  assumes "readable base e" "l \<in> set (entry_lines base e)"
  shows "good_line l"
proof -
  have q: "clean (le_name e)" "clean (base @ ''/stream/'' @ le_channel e)" "le_name e \<noteq> []"
    using assms(1) by (simp_all add: readable_def readable_values_def quotable_def)
  have vals: "\<forall>(k, v) \<in> set (entry_kvs e). CHR 0x0A \<notin> set k \<and> CHR 0x0A \<notin> set v"
    using assms(1) quotable_pub [of "le_tvg e"] quotable_show_int [of "le_number e"]
    by (auto simp: entry_kvs_def Let_def readable_def readable_values_def quotable_def clean_def)
  have "CHR 0x0A \<notin> set (attrs_line (entry_kvs e))"
    using attrs_line_set [OF _ vals] by simp
  moreover have "length l < m3u_max_line" using assms by (simp add: readable_def)
  moreover have "last (le_name e) \<noteq> CHR 0x0D" using clean_last q by blast
  moreover have "l = base @ ''/stream/'' @ le_channel e \<Longrightarrow> last l \<noteq> CHR 0x0D" using clean_last [OF q(2)] by simp
  ultimately show ?thesis
    using assms(2) q(1) clean_newline [OF q(2)] q(3)
    by (auto simp: entry_lines_def join_attrs [OF assms(1)] good_line_def sanitize_clean clean_newline)
qed

lemma good_header:
  assumes "readable_header base slug"
  shows "good_line (hd (playlist_lines base slug es))"
  using assms by (auto simp: header_line_eq attr_def good_line_def readable_header_def quotable_def clean_def)

lemma good_playlist:
  assumes "readable_header base slug" "\<forall>e \<in> set es. readable base e"
  shows "\<forall>l \<in> set (playlist_lines base slug es). good_line l"
  using good_header [OF assms(1), of es] good_entry_lines assms(2)
  by (auto simp: playlist_lines_def)

text \<open>
  C10: the playlist of a relay read back by the program's own M3U parser gives one guide URL and the
  channels of the lineup in order, each with its name, number, guide id, group, logo and stream URL,
  and no warning, when the values are clean and hold no double quote.
\<close>

theorem playlist_round_trip:
  assumes "readable_header base slug" "\<forall>e \<in> set es. readable base e"
  shows "m3u_parse (playlist_text base slug es) =
    Inr \<lparr> pl_epgs = [guide_url base slug], pl_entries = map (read_entry base) es, pl_warnings = [] \<rparr>"
proof -
  let ?st = "m3u_start\<lparr>ps_line := 1, ps_header := True,
      ps_out := \<lparr> pl_epgs = [guide_url base slug], pl_entries = [], pl_warnings = [] \<rparr>\<rparr>"
  have scan: "scan_lines m3u_max_line (playlist_text base slug es) = (playlist_lines base slug es, True)"
    unfolding playlist_text_def by (rule scan_written [OF good_playlist [OF assms]])
  have "foldl m3u_line m3u_start (playlist_lines base slug es) =
      foldl m3u_line (m3u_line m3u_start (hd (playlist_lines base slug es))) (concat (map (entry_lines base) es))"
    by (simp add: playlist_lines_def)
  also have "\<dots> = foldl m3u_line ?st (concat (map (entry_lines base) es))"
    by (simp only: m3u_header_line [OF assms(1)])
  also have "\<dots> = ?st\<lparr>ps_line := ps_line ?st + 2 * length es,
       ps_out := (ps_out ?st)\<lparr>pl_entries := pl_entries (ps_out ?st) @ map (read_entry base) es\<rparr>\<rparr>"
    using assms(2) by (rule m3u_entries) (simp add: m3u_start_def)
  finally show ?thesis
    by (simp add: m3u_parse_def scan m3u_parse_lines_def flush_def m3u_start_def)
qed

definition sample_lineup :: "lineup_entry list" where
  "sample_lineup =
    [\<lparr> le_member = 1, le_channel = ''ch_1'', le_name = ''News, World'', le_logo = ''http://x/l.png'', le_url = [],
       le_headers = [], le_number = 7, le_tvg = ''news.uk'', le_group = ''News'', le_epg = Some 3 \<rparr>,
     \<lparr> le_member = 2, le_channel = ''ch_2'', le_name = ''Two'', le_logo = [], le_url = [], le_headers = [],
       le_number = 0, le_tvg = [], le_group = [], le_epg = None \<rparr>]"

theorem playlist_round_trip_witness:
  "m3u_parse (playlist_text ''http://tv:8080'' ''home'' sample_lineup) =
    Inr \<lparr> pl_epgs = [''http://tv:8080/r/home/epg.xml''],
      pl_entries = map (read_entry ''http://tv:8080'') sample_lineup, pl_warnings = [] \<rparr>"
proof -
  have "quotable (guide_url ''http://tv:8080'' ''home'')" "http_scheme (guide_url ''http://tv:8080'' ''home'')"
    by code_simp+
  then have "readable_header ''http://tv:8080'' ''home''"
    by (simp add: readable_header_def guide_url_def m3u_max_line_def)
  moreover have "\<forall>e \<in> set sample_lineup. readable_values ''http://tv:8080'' e" by code_simp
  moreover have "\<forall>e \<in> set sample_lineup. \<forall>l \<in> set (entry_lines ''http://tv:8080'' e). length l < 200" by code_simp
  moreover have "n < 200 \<Longrightarrow> n < m3u_max_line" for n by (simp add: m3u_max_line_def)
  ultimately have "\<forall>e \<in> set sample_lineup. readable ''http://tv:8080'' e"
    unfolding readable_def by blast
  then show ?thesis
    using \<open>readable_header ''http://tv:8080'' ''home''\<close>
      playlist_round_trip [of "''http://tv:8080''" "''home''" sample_lineup]
    by (simp add: guide_url_def)
qed

text \<open>
  A double quote in a name is written as a backslash and a quote, which the parser does not know: it
  takes the quote as the end of the value, finds no comma outside quotes, and the channel comes back
  with its URL for a name, without number, guide id, group and logo.
\<close>

definition quoted_lineup :: "lineup_entry list" where
  "quoted_lineup = [(hd sample_lineup)\<lparr>le_name := ''5'' @ [CHR 0x22] @ '' TV''\<rparr>]"

lemma quoted_name_is_lost:
  "m3u_parse_lines (playlist_lines ''http://tv'' ''home'' quoted_lineup) =
   Inr \<lparr> pl_epgs = [''http://tv/r/home/epg.xml''],
     pl_entries = [empty_entry\<lparr>me_name := ''http://tv/stream/ch_1'', me_url := ''http://tv/stream/ch_1''\<rparr>],
     pl_warnings = [''line 2: malformed EXTINF (missing comma)''] \<rparr>"
  by code_simp

end
