(* ===== verification/ChannelTxt.thy ===== *)
theory ChannelTxt
  imports Upstream
begin

text \<open>
  \<^verbatim>\<open>internal/core/channeltxt/parse.go\<close>: the list of channels in plain text, one
  \<open>NAME,URL\<close> or \<open>NAME,HOST:PORT@PROXY\<close> on a line.  The reader is the whole text, its lines what
  \<^verbatim>\<open>bufio.Scanner\<close> returns with a buffer of 1 MiB.
\<close>

record txt_entry =
  tx_name :: string
  tx_url :: string
  tx_proxy :: string

definition is_http_target :: "string \<Rightarrow> bool" where
  "is_http_target raw \<longleftrightarrow> has_prefix (to_lower raw) ''http://'' \<or> has_prefix (to_lower raw) ''https://''"

definition valid_host_port :: "string \<Rightarrow> bool" where
  "valid_host_port link \<longleftrightarrow> valid_proxied_link link \<and>
     (case last_index_byte link CHR '':'' of None \<Rightarrow> False | Some i \<Rightarrow> 0 < i \<and> i < length link - 1)"

definition split_target :: "string \<Rightarrow> string + string \<times> string" where
  "split_target raw =
     (if is_http_target raw then Inr (raw, [])
      else case last_index_byte raw CHR ''@'' of
        None \<Rightarrow> Inr (raw, [])
      | Some at \<Rightarrow>
          (let link = trim_space (take at raw); name = trim_space (drop (Suc at) raw) in
           if \<not> valid_host_port link \<or> name = [] then Inl ''expected HOST:PORT@PROXY_NAME''
           else Inr (link, name)))"

text \<open>One line: nothing for a blank line or a comment, else an entry or an error.\<close>

definition txt_line :: "string \<Rightarrow> (string + txt_entry) option" where
  "txt_line raw0 =
     (let line = trim_space raw0 in
      if line = [] \<or> has_prefix line ''#'' then None
      else let (name0, raw1, ok) = cut_byte CHR '','' line;
               name = trim_space name0; raw = trim_space raw1
           in Some (if \<not> ok \<or> name = [] \<or> raw = [] then Inl ''expected CHANNEL_NAME,CHANNEL_URL''
                    else bindE (split_target raw) (\<lambda>(url, proxy).
                      Inr \<lparr> tx_name = name, tx_url = url, tx_proxy = proxy \<rparr>)))"

fun txt_lines :: "nat \<Rightarrow> string list \<Rightarrow> string + txt_entry list" where
  "txt_lines n [] = Inr []"
| "txt_lines n (l # ls) =
     (case txt_line l of
        None \<Rightarrow> txt_lines (Suc n) ls
      | Some (Inl msg) \<Rightarrow> Inl (''line '' @ show_nat n @ '': '' @ msg)
      | Some (Inr e) \<Rightarrow> bindE (txt_lines (Suc n) ls) (\<lambda>es. Inr (e # es)))"

definition txt_max_line :: nat where "txt_max_line = 1024 * 1024"

definition txt_parse :: "string \<Rightarrow> string + txt_entry list" where
  "txt_parse text =
     (let (ls, ok) = scan_lines txt_max_line text in
      bindE (txt_lines 1 ls) (\<lambda>out. if ok then Inr out else Inl ''bufio.Scanner: token too long''))"

section \<open>What an accepted list holds\<close>

definition txt_entry_ok :: "txt_entry \<Rightarrow> bool" where
  "txt_entry_ok e \<longleftrightarrow>
     tx_name e \<noteq> [] \<and> trim_space (tx_name e) = tx_name e \<and> CHR '','' \<notin> set (tx_name e) \<and>
     tx_url e \<noteq> [] \<and> trim_space (tx_url e) = tx_url e \<and> trim_space (tx_proxy e) = tx_proxy e \<and>
     (if tx_proxy e = [] then is_http_target (tx_url e) \<or> CHR ''@'' \<notin> set (tx_url e)
      else valid_host_port (tx_url e) \<and> \<not> contains_str (tx_url e) ''://'')"

lemma cut_byte_no: "cut_byte k s = (a, b, ok) \<Longrightarrow> k \<notin> set a"
  by (auto simp: cut_byte_def index_byte_None_iff split: option.splits dest: index_byte_SomeD)

lemma last_index_byte_None_iff: "last_index_byte s k = None \<longleftrightarrow> k \<notin> set s"
  by (simp add: last_index_byte_def index_byte_None_iff)

lemma proxied_link_plain: "valid_proxied_link l \<Longrightarrow> l \<noteq> [] \<and> \<not> contains_str (trim_space l) ''://''"
  by (auto simp: valid_proxied_link_def Let_def)

lemma split_target_ok:
  assumes "split_target raw = Inr (url, proxy)" "trim_space raw = raw" "raw \<noteq> []"
  shows "url \<noteq> [] \<and> trim_space url = url \<and> trim_space proxy = proxy \<and>
    (if proxy = [] then is_http_target url \<or> CHR ''@'' \<notin> set url
     else valid_host_port url \<and> \<not> contains_str url ''://'')"
proof (cases "is_http_target raw \<or> last_index_byte raw CHR ''@'' = None")
  case True
  then have "url = raw \<and> proxy = []" using assms(1) by (auto simp: split_target_def split: if_splits)
  then show ?thesis using True assms by (auto simp: last_index_byte_None_iff)
next
  case False
  then obtain at where at: "last_index_byte raw CHR ''@'' = Some at" by auto
  then have "url = trim_space (take at raw)" "proxy = trim_space (drop (Suc at) raw)"
    "valid_host_port url" "proxy \<noteq> []"
    using assms(1) False by (auto simp: split_target_def Let_def split: if_splits)
  moreover from this have "valid_proxied_link url" by (simp add: valid_host_port_def)
  ultimately show ?thesis using proxied_link_plain [of url] by simp
qed

lemma txt_line_ok: "txt_line l = Some (Inr e) \<Longrightarrow> txt_entry_ok e"
proof -
  assume a: "txt_line l = Some (Inr e)"
  obtain name0 raw1 ok where c: "cut_byte CHR '','' (trim_space l) = (name0, raw1, ok)"
    by (cases "cut_byte CHR '','' (trim_space l)")
  from a c obtain url proxy where e: "split_target (trim_space raw1) = Inr (url, proxy)"
    "e = \<lparr> tx_name = trim_space name0, tx_url = url, tx_proxy = proxy \<rparr>"
    "trim_space name0 \<noteq> []" "trim_space raw1 \<noteq> []"
    by (auto simp: txt_line_def Let_def bindE_eq_Inr split: if_splits)
  have "CHR '','' \<notin> set (trim_space name0)"
    using cut_byte_no [OF c] set_trim_space [of name0] by blast
  then show ?thesis
    using split_target_ok [OF e(1) _ e(4)] e(2,3) by (simp add: txt_entry_ok_def)
qed

text \<open>The entries of the good lines, in order, when there is no bad one.\<close>

definition line_entries :: "string list \<Rightarrow> txt_entry list" where
  "line_entries ls = concat (map (\<lambda>l. case txt_line l of Some (Inr e) \<Rightarrow> [e] | _ \<Rightarrow> []) ls)"

definition bad_line :: "string \<Rightarrow> bool" where
  "bad_line l \<longleftrightarrow> (case txt_line l of Some (Inl _) \<Rightarrow> True | _ \<Rightarrow> False)"

definition bad_message :: "string \<Rightarrow> string" where
  "bad_message l = (case txt_line l of Some (Inl m) \<Rightarrow> m | _ \<Rightarrow> [])"

lemma txt_lines_spec:
  "txt_lines n ls = (case find bad_line ls of
     None \<Rightarrow> Inr (line_entries ls)
   | Some l \<Rightarrow> Inl (''line '' @ show_nat (n + length (takeWhile (\<lambda>l. \<not> bad_line l) ls)) @ '': '' @ bad_message l))"
proof (induction n ls rule: txt_lines.induct)
  case (2 n l ls)
  show ?case
  proof (cases "txt_line l")
    case None
    then show ?thesis using 2(1) by (simp add: bad_line_def line_entries_def split: option.split)
  next
    case (Some r)
    then show ?thesis using 2(2) by (cases r)
      (auto simp: bad_line_def bad_message_def line_entries_def split: option.split)
  qed
qed (simp add: line_entries_def)

text \<open>
  C24: a channel list is taken whole or not at all: the first bad line is the error, with its number; without
  one the result is the entries of all lines in order, unless a line was too long to be read; and every
  entry has a trimmed name without comma and a target that is an http URL or a bare address, or a host
  and port behind a named proxy.
\<close>

theorem channel_list_whole_or_first_error:
  "txt_parse text = (case find bad_line (fst (scan_lines txt_max_line text)) of
     Some bad \<Rightarrow> Inl (''line '' @
       show_nat (Suc (length (takeWhile (\<lambda>l. \<not> bad_line l) (fst (scan_lines txt_max_line text))))) @ '': '' @ bad_message bad)
   | None \<Rightarrow> if snd (scan_lines txt_max_line text) then Inr (line_entries (fst (scan_lines txt_max_line text)))
       else Inl ''bufio.Scanner: token too long'') \<and>
   list_all txt_entry_ok (line_entries (fst (scan_lines txt_max_line text)))"
proof -
  obtain ls ok where s: "scan_lines txt_max_line text = (ls, ok)" by (cases "scan_lines txt_max_line text")
  have "list_all txt_entry_ok (line_entries ls)"
    by (auto simp: list_all_iff line_entries_def txt_line_ok split: option.splits sum.splits)
  then show ?thesis by (simp add: s txt_parse_def txt_lines_spec split: option.split)
qed

end
