(* ===== verification/Config.thy ===== *)
theory Config
  imports GoUrl
begin

text \<open>
  \<^verbatim>\<open>internal/config/config.go\<close>: the settings of the process, read from its environment.  The environment
  is a function (the empty string for a variable that is not set, as \<^verbatim>\<open>os.Getenv\<close>); durations are in
  nanoseconds and \<open>dur\<close> is \<^verbatim>\<open>time.ParseDuration\<close> of the standard library, a parameter of the
  definitions; \<open>int\<close> is 64 bits wide.
\<close>

type_synonym environment = "string \<Rightarrow> string"

record config =
  cf_listen :: string
  cf_base :: string
  cf_trust :: bool
  cf_data_dir :: string
  cf_database :: string
  cf_log_level :: string
  cf_ffmpeg :: string
  cf_buffer :: int
  cf_idle :: int
  cf_conn :: int
  cf_epg_max :: int
  cf_epg_every :: int

definition second :: int where "second = 1000000000"
definition minute :: int where "minute = 60 * second"

definition env_or :: "environment \<Rightarrow> string \<Rightarrow> string \<Rightarrow> string" where
  "env_or env key fallback = (let v = trim_space (env key) in if v \<noteq> [] then v else fallback)"

definition env_bool :: "environment \<Rightarrow> string \<Rightarrow> bool \<Rightarrow> string + bool" where
  "env_bool env key fallback =
     (let v = trim_space (env key); l = to_lower v in
      if v = [] then Inr fallback
      else if l \<in> {''1'', ''true'', ''yes'', ''on''} then Inr True
      else if l \<in> {''0'', ''false'', ''no'', ''off''} then Inr False
      else Inl (key @ '': invalid boolean''))"

definition env_int_or :: "environment \<Rightarrow> string \<Rightarrow> int \<Rightarrow> int" where
  "env_int_or env key fallback =
     (let v = trim_space (env key) in
      if v = [] then fallback
      else case parse_int64 v of (n, ok) \<Rightarrow> if ok then n else fallback)"

definition env_int64_or :: "environment \<Rightarrow> string \<Rightarrow> int \<Rightarrow> int" where
  "env_int64_or env key fallback =
     (let v = trim_space (env key) in
      if v = [] then fallback
      else case parse_int64 v of (n, ok) \<Rightarrow> if ok then n else fallback)"

definition env_duration_or :: "(string \<Rightarrow> int option) \<Rightarrow> environment \<Rightarrow> string \<Rightarrow> int \<Rightarrow> int" where
  "env_duration_or dur env key fallback =
     (let v = trim_space (env key) in
      if v = [] then fallback else case dur v of None \<Rightarrow> fallback | Some d \<Rightarrow> d)"

fun validate_ints :: "environment \<Rightarrow> string list \<Rightarrow> string option" where
  "validate_ints env [] = None"
| "validate_ints env (key # ks) =
     (let v = trim_space (env key) in
      if v = [] \<or> snd (parse_int64 v) then validate_ints env ks
      else Some (key @ '': invalid integer''))"

definition validate_env_ints :: "environment \<Rightarrow> string option" where
  "validate_env_ints env = validate_ints env [''TVR_RELAY_BUFFER_SIZE'', ''TVR_EPG_MAX_BYTES'']"

fun validate_durations :: "(string \<Rightarrow> int option) \<Rightarrow> environment \<Rightarrow> string list \<Rightarrow> string option" where
  "validate_durations dur env [] = None"
| "validate_durations dur env (key # ks) =
     (let v = trim_space (env key) in
      if v = [] \<or> dur v \<noteq> None then validate_durations dur env ks
      else Some (key @ '': invalid duration''))"

definition validate_env_durations :: "(string \<Rightarrow> int option) \<Rightarrow> environment \<Rightarrow> string option" where
  "validate_env_durations dur env = validate_durations dur env
     [''TVR_RELAY_IDLE_TIMEOUT'', ''TVR_RELAY_CONN_TIMEOUT'', ''TVR_EPG_DEFAULT_INTERVAL'']"

definition validate_base_url :: "string \<Rightarrow> string option" where
  "validate_base_url raw =
     (case url_parse raw of
        None \<Rightarrow> Some ''TVR_BASE_URL: parse error''
      | Some u \<Rightarrow>
          if u_scheme u \<noteq> ''http'' \<and> u_scheme u \<noteq> ''https''
            then Some ''TVR_BASE_URL must be an absolute http(s) URL''
          else if u_host u = [] then Some ''TVR_BASE_URL must include a host''
          else if u_query u \<noteq> [] \<or> u_fragment u \<noteq> [] then Some ''TVR_BASE_URL must not include query or fragment''
          else if u_user u \<noteq> None then Some ''TVR_BASE_URL must not include userinfo''
          else None)"

definition env_config :: "(string \<Rightarrow> int option) \<Rightarrow> environment \<Rightarrow> config" where
  "env_config dur env =
     (let data_dir = env_or env ''TVR_DATA_DIR'' ''./data'' in
      \<lparr> cf_listen = env_or env ''TVR_LISTEN'' '':8080'',
        cf_base = trim_right_char CHR ''/'' (trim_space (env ''TVR_BASE_URL'')),
        cf_trust = False,
        cf_data_dir = data_dir,
        cf_database = env_or env ''TVR_DATABASE'' (data_dir @ ''/tvr.db''),
        cf_log_level = to_lower (env_or env ''TVR_LOG_LEVEL'' ''info''),
        cf_ffmpeg = env_or env ''TVR_FFMPEG_PATH'' ''ffmpeg'',
        cf_buffer = env_int_or env ''TVR_RELAY_BUFFER_SIZE'' 1024,
        cf_idle = env_duration_or dur env ''TVR_RELAY_IDLE_TIMEOUT'' (30 * second),
        cf_conn = env_duration_or dur env ''TVR_RELAY_CONN_TIMEOUT'' (10 * second),
        cf_epg_max = env_int64_or env ''TVR_EPG_MAX_BYTES'' (64 * 2 ^ 20),
        cf_epg_every = env_duration_or dur env ''TVR_EPG_DEFAULT_INTERVAL'' (60 * minute) \<rparr>)"

definition check_config :: "config \<Rightarrow> string option" where
  "check_config cfg =
     (if cf_buffer cfg < 8 then Some ''TVR_RELAY_BUFFER_SIZE must be >= 8''
      else if cf_idle cfg \<le> 0 then Some ''TVR_RELAY_IDLE_TIMEOUT must be > 0''
      else if cf_conn cfg \<le> 0 then Some ''TVR_RELAY_CONN_TIMEOUT must be > 0''
      else if cf_epg_max cfg \<le> 0 then Some ''TVR_EPG_MAX_BYTES must be > 0''
      else if cf_epg_every cfg < minute then Some ''TVR_EPG_DEFAULT_INTERVAL must be >= 1m''
      else if cf_base cfg \<noteq> [] \<and> validate_base_url (cf_base cfg) \<noteq> None then validate_base_url (cf_base cfg)
      else if cf_log_level cfg \<notin> {''debug'', ''info'', ''warn'', ''error''}
        then Some ''TVR_LOG_LEVEL must be debug, info, warn, or error''
      else None)"

definition load_config :: "(string \<Rightarrow> int option) \<Rightarrow> environment \<Rightarrow> string + config" where
  "load_config dur env =
     bindE (env_bool env ''TVR_TRUST_PROXY'' False) (\<lambda>trust.
     (let cfg = (env_config dur env)\<lparr>cf_trust := trust\<rparr> in
      case validate_env_ints env of Some err \<Rightarrow> Inl err | None \<Rightarrow>
      case validate_env_durations dur env of Some err \<Rightarrow> Inl err | None \<Rightarrow>
      case check_config cfg of Some err \<Rightarrow> Inl err | None \<Rightarrow> Inr cfg))"

section \<open>A loaded configuration\<close>

definition set_int :: "environment \<Rightarrow> string \<Rightarrow> int \<Rightarrow> int \<Rightarrow> bool" where
  "set_int env key fallback i \<longleftrightarrow>
     (if blank (env key) then i = fallback else parse_int64 (trim_space (env key)) = (i, True))"

definition set_duration :: "(string \<Rightarrow> int option) \<Rightarrow> environment \<Rightarrow> string \<Rightarrow> int \<Rightarrow> int \<Rightarrow> bool" where
  "set_duration dur env key fallback d \<longleftrightarrow>
     (if blank (env key) then d = fallback else dur (trim_space (env key)) = Some d)"

definition config_ok :: "config \<Rightarrow> bool" where
  "config_ok c \<longleftrightarrow> 8 \<le> cf_buffer c \<and> 0 < cf_idle c \<and> 0 < cf_conn c \<and> 0 < cf_epg_max c \<and>
     minute \<le> cf_epg_every c \<and> (cf_base c = [] \<or> validate_base_url (cf_base c) = None) \<and>
     cf_log_level c \<in> {''debug'', ''info'', ''warn'', ''error''}"

lemma check_config_None: "check_config c = None \<longleftrightarrow> config_ok c"
  by (auto simp: check_config_def config_ok_def)

lemma set_int_or:
  "validate_env_ints env = None \<Longrightarrow> set_int env ''TVR_RELAY_BUFFER_SIZE'' f (env_int_or env ''TVR_RELAY_BUFFER_SIZE'' f)"
  "validate_env_ints env = None \<Longrightarrow> set_int env ''TVR_EPG_MAX_BYTES'' f (env_int64_or env ''TVR_EPG_MAX_BYTES'' f)"
  by (auto simp: validate_env_ints_def set_int_def env_int_or_def env_int64_or_def Let_def
      split: if_splits prod.splits)

lemma set_duration_or:
  assumes "validate_env_durations dur env = None"
    "key \<in> {''TVR_RELAY_IDLE_TIMEOUT'', ''TVR_RELAY_CONN_TIMEOUT'', ''TVR_EPG_DEFAULT_INTERVAL''}"
  shows "set_duration dur env key f (env_duration_or dur env key f)"
  using assms
  by (auto simp: validate_env_durations_def set_duration_def env_duration_or_def Let_def
      split: if_splits option.splits)


definition sample_environment :: environment where
  "sample_environment key =
     (if key = ''TVR_RELAY_BUFFER_SIZE'' then ''64''
      else if key = ''TVR_RELAY_IDLE_TIMEOUT'' then ''5s''
      else if key = ''TVR_BASE_URL'' then ''https://tv.example/''
      else [])"

definition sample_duration :: "string \<Rightarrow> int option" where
  "sample_duration s = (if s = ''5s'' then Some (5 * second) else None)"


end
