(* ===== verification/EpgTime.thy ===== *)
theory EpgTime
  imports Prelude
begin

text \<open>
  \<^verbatim>\<open>ParseXMLTVTime\<close> of \<^verbatim>\<open>internal/core/epg/guide.go\<close> and what it uses of the standard library: \<^verbatim>\<open>time.Parse\<close>
  for the layouts the code names, \<^verbatim>\<open>strings.Fields\<close> and the RFC 3339 form of a time.  A time is the
  number of nanoseconds since 1970 in UTC; the calendar is the proleptic Gregorian one.
\<close>

section \<open>The calendar\<close>

definition leap_year :: "int \<Rightarrow> bool" where
  "leap_year y \<longleftrightarrow> y mod 4 = 0 \<and> (y mod 100 \<noteq> 0 \<or> y mod 400 = 0)"

definition days_in :: "int \<Rightarrow> int \<Rightarrow> int" where
  "days_in y m = (if m = 2 then (if leap_year y then 29 else 28) else if m \<in> {4, 6, 9, 11} then 30 else 31)"

definition civil_days :: "int \<Rightarrow> int \<Rightarrow> int \<Rightarrow> int" where
  "civil_days y m d =
     (let y' = (if m \<le> 2 then y - 1 else y); era = y' div 400; yoe = y' - era * 400;
          doy = (153 * (if m > 2 then m - 3 else m + 9) + 2) div 5 + d - 1;
          doe = yoe * 365 + yoe div 4 - yoe div 100 + doy
      in era * 146097 + doe - 719468)"

definition civil_date :: "int \<Rightarrow> int \<times> int \<times> int" where
  "civil_date days =
     (let z = days + 719468; era = z div 146097; doe = z - era * 146097;
          yoe = (doe - doe div 1460 + doe div 36524 - doe div 146096) div 365;
          doy = doe - (365 * yoe + yoe div 4 - yoe div 100);
          mp = (5 * doy + 2) div 153;
          m = (if mp < 10 then mp + 3 else mp - 9)
      in (if m \<le> 2 then yoe + era * 400 + 1 else yoe + era * 400, m, doy - (153 * mp + 2) div 5 + 1))"

definition ns_second :: int where "ns_second = 1000000000"

definition clock_time :: "int \<Rightarrow> int \<Rightarrow> int \<Rightarrow> int \<Rightarrow> int \<Rightarrow> int \<Rightarrow> int \<Rightarrow> int" where
  "clock_time y mo d h mi s ns =
     (((civil_days y mo d * 24 + h) * 60 + mi) * 60 + s) * ns_second + ns"

fun pad_nat :: "nat \<Rightarrow> nat \<Rightarrow> string" where
  "pad_nat w n = replicate (w - length (show_nat n)) CHR ''0'' @ show_nat n"

definition rfc3339 :: "int \<Rightarrow> string" where
  "rfc3339 t =
     (let secs = t div ns_second; (y, m, d) = civil_date (secs div 86400); r = secs mod 86400 in
      (if y < 0 then ''-'' else []) @ pad_nat 4 (nat \<bar>y\<bar>) @ ''-'' @ pad_nat 2 (nat m) @ ''-'' @ pad_nat 2 (nat d) @
      ''T'' @ pad_nat 2 (nat (r div 3600)) @ '':'' @ pad_nat 2 (nat (r div 60 mod 60)) @ '':'' @
      pad_nat 2 (nat (r mod 60)) @ ''Z'')"

section \<open>time.Parse\<close>

datatype time_field = FYear | FMonth | FDay | FHour | FMinute | FSecond | FSpace | FZone bool

record time_parts =
  tp_year :: int
  tp_month :: int
  tp_day :: int
  tp_hour :: int
  tp_minute :: int
  tp_second :: int
  tp_nanos :: int
  tp_offset :: int

definition no_parts :: time_parts where
  "no_parts = \<lparr> tp_year = 0, tp_month = 1, tp_day = 1, tp_hour = 0, tp_minute = 0, tp_second = 0,
     tp_nanos = 0, tp_offset = 0 \<rparr>"

text \<open>\<^verbatim>\<open>getnum\<close>: two digits, or one where the layout allows it.\<close>

definition get_num :: "bool \<Rightarrow> string \<Rightarrow> (int \<times> string) option" where
  "get_num two s =
     (case s of
        [] \<Rightarrow> None
      | a # r \<Rightarrow>
          if \<not> is_digit_char a then None
          else (case r of
              b # r' \<Rightarrow> if is_digit_char b then Some (int (digits_val [a, b]), r')
                else if two then None else Some (int (digits_val [a]), r)
            | [] \<Rightarrow> if two then None else Some (int (digits_val [a]), r)))"

text \<open>A fraction after the seconds, whether or not the layout has one: at most nine digits count.\<close>

definition get_fraction :: "string \<Rightarrow> int \<times> string" where
  "get_fraction s =
     (case s of
        c # d # r \<Rightarrow>
          if (c = CHR ''.'' \<or> c = CHR '','') \<and> is_digit_char d then
            (let ds = takeWhile is_digit_char (d # r); k = take 9 ds
             in (int (digits_val k * 10 ^ (9 - length k)), dropWhile is_digit_char (d # r)))
          else (0, s)
      | _ \<Rightarrow> (0, s))"

definition get_zone :: "bool \<Rightarrow> string \<Rightarrow> (int \<times> string) option" where
  "get_zone colon s =
     (let n = (if colon then 6 else 5) in
      if length s < n \<or> colon \<and> s ! 3 \<noteq> CHR '':'' then None
      else case (get_num True (take 2 (drop 1 s)), get_num True (take 2 (drop (n - 2) s))) of
          (Some (hr, _), Some (mm, _)) \<Rightarrow>
            if hr > 24 \<or> mm > 60 then None
            else if hd s = CHR ''+'' then Some ((hr * 60 + mm) * 60, drop n s)
            else if hd s = CHR ''-'' then Some (- ((hr * 60 + mm) * 60), drop n s)
            else None
        | _ \<Rightarrow> None)"

fun get_field :: "time_field \<Rightarrow> time_parts \<Rightarrow> string \<Rightarrow> (time_parts \<times> string) option" where
  "get_field FYear p s =
     (if length s < 4 \<or> \<not> list_all is_digit_char (take 4 s) then None
      else Some (p\<lparr>tp_year := int (digits_val (take 4 s))\<rparr>, drop 4 s))"
| "get_field FMonth p s = (case get_num True s of
      Some (n, r) \<Rightarrow> if n \<le> 0 \<or> 12 < n then None else Some (p\<lparr>tp_month := n\<rparr>, r) | None \<Rightarrow> None)"
| "get_field FDay p s = (case get_num True s of Some (n, r) \<Rightarrow> Some (p\<lparr>tp_day := n\<rparr>, r) | None \<Rightarrow> None)"
| "get_field FHour p s = (case get_num False s of
      Some (n, r) \<Rightarrow> if 24 \<le> n then None else Some (p\<lparr>tp_hour := n\<rparr>, r) | None \<Rightarrow> None)"
| "get_field FMinute p s = (case get_num True s of
      Some (n, r) \<Rightarrow> if 60 \<le> n then None else Some (p\<lparr>tp_minute := n\<rparr>, r) | None \<Rightarrow> None)"
| "get_field FSecond p s = (case get_num True s of
      Some (n, r) \<Rightarrow> if 60 \<le> n then None
        else (case get_fraction r of (f, r') \<Rightarrow> Some (p\<lparr>tp_second := n, tp_nanos := f\<rparr>, r'))
    | None \<Rightarrow> None)"
| "get_field FSpace p s =
     (if s \<noteq> [] \<and> hd s \<noteq> CHR '' '' then None else Some (p, dropWhile (\<lambda>c. c = CHR '' '') s))"
| "get_field (FZone colon) p s = (case get_zone colon s of
      Some (off, r) \<Rightarrow> Some (p\<lparr>tp_offset := off\<rparr>, r) | None \<Rightarrow> None)"

fun get_fields :: "time_field list \<Rightarrow> time_parts \<Rightarrow> string \<Rightarrow> (time_parts \<times> string) option" where
  "get_fields [] p s = Some (p, s)"
| "get_fields (f # fs) p s = (case get_field f p s of None \<Rightarrow> None | Some (p', r) \<Rightarrow> get_fields fs p' r)"

definition time_parse :: "time_field list \<Rightarrow> string \<Rightarrow> int option" where
  "time_parse layout s =
     (case get_fields layout no_parts s of
        Some (p, []) \<Rightarrow>
          if tp_day p < 1 \<or> days_in (tp_year p) (tp_month p) < tp_day p then None
          else Some (clock_time (tp_year p) (tp_month p) (tp_day p) (tp_hour p) (tp_minute p) (tp_second p) (tp_nanos p)
                 - tp_offset p * ns_second)
      | _ \<Rightarrow> None)"

section \<open>XMLTV times\<close>

fun words_from :: "string \<Rightarrow> string \<Rightarrow> string list" where
  "words_from cur [] = (if cur = [] then [] else [rev cur])"
| "words_from cur (c # cs) =
     (case find (\<lambda>w. prefix w (c # cs)) space_runes of
        Some w \<Rightarrow> (if cur = [] then [] else [rev cur]) @ words_from [] (drop (length w - 1) cs)
      | None \<Rightarrow> words_from (c # cur) cs)"

definition string_fields :: "string \<Rightarrow> string list" where
  "string_fields s = words_from [] s"

definition date_layouts :: "time_field list list" where
  "date_layouts =
     [[FYear, FMonth, FDay, FHour, FMinute, FSecond], [FYear, FMonth, FDay, FHour, FMinute],
      [FYear, FMonth, FDay, FHour], [FYear, FMonth, FDay]]"

fun first_layout :: "time_field list list \<Rightarrow> string \<Rightarrow> int option" where
  "first_layout [] s = None"
| "first_layout (l # ls) s = (case time_parse l s of None \<Rightarrow> first_layout ls s | r \<Rightarrow> r)"

definition parse_xmltv_time :: "string \<Rightarrow> int option" where
  "parse_xmltv_time raw =
     (let s = trim_space raw; parts = string_fields s in
      if s = [] then None
      else if has_suffix s ''Z'' \<or> has_suffix s ''z'' then
        first_layout date_layouts (trim_suffix (trim_suffix s ''Z'') ''z'')
      else
        let zoned = (case parts of
            [d, off] \<Rightarrow> first_layout (map (\<lambda>l. l @ [FSpace, FZone (CHR '':'' \<in> set off)]) date_layouts) (d @ '' '' @ off)
          | _ \<Rightarrow> None)
        in (case zoned of Some t \<Rightarrow> Some t | None \<Rightarrow> first_layout date_layouts s))"

text \<open>An offset is subtracted; a date alone is midnight.\<close>

lemma xmltv_time_examples:
  "parse_xmltv_time ''20240229123000 +0130'' = Some (clock_time 2024 2 29 11 0 0 0)"
  "parse_xmltv_time ''20230229'' = None"
  by code_simp+

end
