(* ===== verification/EpgGuide.thy ===== *)
theory EpgGuide
  imports EpgTime Natsort "HOL-Library.Product_Lexorder"
begin

text \<open>
  Guide documents: \<^verbatim>\<open>parseXMLTV\<close>, \<^verbatim>\<open>writeXMLTV\<close>, \<^verbatim>\<open>indexFromDoc\<close> and the search functions of
  \<^verbatim>\<open>internal/core/epg/service.go\<close>, \<^verbatim>\<open>mergeDocument\<close> of \<^verbatim>\<open>relay_builder.go\<close>, and the scans of
  \<^verbatim>\<open>guide.go\<close>.

  An XML document is what \<^verbatim>\<open>encoding/xml\<close> makes of it: the start elements the code looks at, in order,
  each channel and programme decoded into its struct, and whether the input ends without an error
  (\<open>xml_stream\<close>).  A document written by the encoder is the stream of the elements written to it.  A
  Go map is an association list whose order is that in which \<^verbatim>\<open>range\<close> visits it; \<open>lower\<close> is
  \<^verbatim>\<open>unicode.ToLower\<close>, as in \<open>Natsort\<close>.
\<close>

section \<open>Documents\<close>

record tv_text =
  tt_lang :: string
  tt_text :: string

record raw_channel =
  rc_id :: string
  rc_names :: "tv_text list"
  rc_icons :: "string list"

record raw_programme =
  rp_start :: string
  rp_stop :: string
  rp_channel :: string
  rp_titles :: "tv_text list"
  rp_descs :: "tv_text list"
  rp_cats :: "tv_text list"
  rp_icons :: "string list"

datatype xml_event =
    TvElement "(string \<times> string) list"
  | ChannelElement raw_channel
  | ProgrammeElement raw_programme
  | OtherElement

type_synonym xml_stream = "xml_event list \<times> bool"

record tv_channel =
  tc_id :: string
  tc_names :: "tv_text list"
  tc_icons :: "string list"

record tv_programme =
  tp_start :: string
  tp_stop :: string
  tp_channel :: string
  tp_titles :: "tv_text list"
  tp_descs :: "tv_text list"
  tp_cats :: "tv_text list"
  tp_icons :: "string list"

record tv_document =
  td_generator :: string
  td_channels :: "(string \<times> tv_channel) list"
  td_programmes :: "tv_programme list"

record channel_info =
  ci_id :: string
  ci_names :: "string list"

section \<open>parseXMLTV\<close>

definition read_texts :: "tv_text list \<Rightarrow> tv_text list" where
  "read_texts ts = map (\<lambda>t. t\<lparr>tt_text := trim_space (tt_text t)\<rparr>) ts"

definition read_icons :: "string list \<Rightarrow> string list" where
  "read_icons is = filter (\<lambda>i. i \<noteq> []) is"

definition read_channel :: "raw_channel \<Rightarrow> tv_channel" where
  "read_channel raw = \<lparr> tc_id = rc_id raw, tc_names = read_texts (rc_names raw), tc_icons = read_icons (rc_icons raw) \<rparr>"

definition read_programme :: "raw_programme \<Rightarrow> tv_programme" where
  "read_programme raw = \<lparr> tp_start = rp_start raw, tp_stop = rp_stop raw, tp_channel = rp_channel raw,
     tp_titles = read_texts (rp_titles raw), tp_descs = read_texts (rp_descs raw),
     tp_cats = read_texts (rp_cats raw), tp_icons = read_icons (rp_icons raw) \<rparr>"

fun parse_event :: "tv_document \<Rightarrow> xml_event \<Rightarrow> tv_document" where
  "parse_event doc (TvElement attrs) =
     foldl (\<lambda>d (k, v). if k = ''generator-info-name'' then d\<lparr>td_generator := v\<rparr> else d) doc attrs"
| "parse_event doc (ChannelElement raw) =
     (let ch = read_channel raw in
      if tc_id ch = [] then doc else doc\<lparr>td_channels := aput (tc_id ch) ch (td_channels doc)\<rparr>)"
| "parse_event doc (ProgrammeElement raw) =
     (let p = read_programme raw in
      if tp_channel p = [] \<or> tp_start p = [] then doc
      else doc\<lparr>td_programmes := td_programmes doc @ [p]\<rparr>)"
| "parse_event doc OtherElement = doc"

definition empty_document :: tv_document where
  "empty_document = \<lparr> td_generator = [], td_channels = [], td_programmes = [] \<rparr>"

definition parse_xmltv :: "xml_stream \<Rightarrow> tv_document option" where
  "parse_xmltv x = (case x of (es, ok) \<Rightarrow> if ok then Some (foldl parse_event empty_document es) else None)"

section \<open>writeXMLTV\<close>

definition english :: "string \<Rightarrow> bool" where
  "english l \<longleftrightarrow> (let lang = to_lower (trim_space l) in
     lang = ''en'' \<or> has_prefix lang ''en-'' \<or> has_prefix lang ''en_'')"

definition prefer_text :: "tv_text list \<Rightarrow> string" where
  "prefer_text items =
     (case find (\<lambda>t. \<not> blank (tt_text t) \<and> english (tt_lang t)) items of
        Some t \<Rightarrow> trim_space (tt_text t)
      | None \<Rightarrow> (case find (\<lambda>t. \<not> blank (tt_text t)) items of Some t \<Rightarrow> trim_space (tt_text t) | None \<Rightarrow> []))"

definition programme_less :: "tv_programme \<Rightarrow> tv_programme \<Rightarrow> bool" where
  "programme_less a b =
     (if tp_channel a = tp_channel b then
        (if tp_start a = tp_start b then prefer_text (tp_titles a) < prefer_text (tp_titles b)
         else tp_start a < tp_start b)
      else tp_channel a < tp_channel b)"

definition write_channel :: "tv_channel \<Rightarrow> raw_channel" where
  "write_channel ch = \<lparr> rc_id = tc_id ch, rc_names = tc_names ch, rc_icons = tc_icons ch \<rparr>"

definition write_programme :: "tv_programme \<Rightarrow> raw_programme" where
  "write_programme p = \<lparr> rp_start = tp_start p, rp_stop = tp_stop p, rp_channel = tp_channel p,
     rp_titles = tp_titles p, rp_descs = tp_descs p, rp_cats = tp_cats p, rp_icons = tp_icons p \<rparr>"

definition channel_at :: "tv_document \<Rightarrow> string \<Rightarrow> tv_channel" where
  "channel_at doc k = (case map_of (td_channels doc) k of
       None \<Rightarrow> \<lparr> tc_id = [], tc_names = [], tc_icons = [] \<rparr> | Some ch \<Rightarrow> ch)"

definition write_xmltv :: "tv_document \<Rightarrow> xml_event list" where
  "write_xmltv doc =
     TvElement [(''generator-info-name'', ''tvr'')] #
     map (\<lambda>k. ChannelElement (write_channel (channel_at doc k))) (sort (map fst (td_channels doc))) @
     map (\<lambda>p. ProgrammeElement (write_programme p)) (stable_sort programme_less (td_programmes doc))"

section \<open>Indexes\<close>

definition guide_sort_key :: "string \<Rightarrow> string \<Rightarrow> string" where
  "guide_sort_key name i = (if blank name then i else trim_space name)"

definition guide_channel_less :: "(nat \<Rightarrow> nat) \<Rightarrow> string \<Rightarrow> string \<Rightarrow> string \<Rightarrow> string \<Rightarrow> bool" where
  "guide_channel_less lower name_a id_a name_b id_b =
     (let cmp = natural_compare lower (guide_sort_key name_a id_a) (guide_sort_key name_b id_b) in
      if cmp \<noteq> 0 then cmp < 0 else natural_less lower id_a id_b)"

definition channel_sort_name :: "channel_info \<Rightarrow> string" where
  "channel_sort_name ch = (case ci_names ch of [] \<Rightarrow> [] | n # _ \<Rightarrow> n)"

definition info_less :: "(nat \<Rightarrow> nat) \<Rightarrow> channel_info \<Rightarrow> channel_info \<Rightarrow> bool" where
  "info_less lower a b = guide_channel_less lower (channel_sort_name a) (ci_id a) (channel_sort_name b) (ci_id b)"

definition index_from_doc :: "(nat \<Rightarrow> nat) \<Rightarrow> tv_document \<Rightarrow> channel_info list" where
  "index_from_doc lower doc = stable_sort (info_less lower)
     (map (\<lambda>(k, ch). \<lparr> ci_id = k, ci_names = filter (\<lambda>t. t \<noteq> []) (map tt_text (tc_names ch)) \<rparr>)
       (td_channels doc))"

definition names_contain :: "string list \<Rightarrow> string \<Rightarrow> bool" where
  "names_contain names q \<longleftrightarrow> list_ex (\<lambda>n. contains_str (to_lower n) q) names"

definition channel_search_less :: "(nat \<Rightarrow> nat) \<Rightarrow> string \<Rightarrow> channel_info \<Rightarrow> channel_info \<Rightarrow> bool" where
  "channel_search_less lower q a b =
     (if q \<noteq> [] \<and> equal_fold (ci_id a) q \<noteq> equal_fold (ci_id b) q then equal_fold (ci_id a) q
      else info_less lower a b)"

record channel_search_result =
  sr_channels :: "channel_info list"
  sr_total :: nat

definition search_cap :: int where "search_cap = 50"

definition page_channel_search :: "channel_info list \<Rightarrow> int \<Rightarrow> channel_search_result" where
  "page_channel_search matches limit0 =
     (let limit = (if limit0 \<le> 0 then search_cap else limit0) in
      \<lparr> sr_channels = (if int (length matches) > limit then take (nat limit) matches else matches),
        sr_total = length matches \<rparr>)"

text \<open>The search over the index of a source that is eligible.\<close>

definition search_index :: "(nat \<Rightarrow> nat) \<Rightarrow> channel_info list \<Rightarrow> string \<Rightarrow> int \<Rightarrow> channel_search_result" where
  "search_index lower chs q0 limit =
     (let q = to_lower (trim_space q0) in
      page_channel_search (stable_sort (channel_search_less lower q)
        (filter (\<lambda>ch. q = [] \<or> contains_str (to_lower (ci_id ch)) q \<or> names_contain (ci_names ch) q) chs)) limit)"

section \<open>mergeDocument\<close>

definition merge_document :: "tv_document \<Rightarrow> tv_document option \<Rightarrow> (string \<times> string) list \<Rightarrow> tv_document" where
  "merge_document dst src rewrite =
     (case src of
        None \<Rightarrow> dst
      | Some s \<Rightarrow>
          dst\<lparr>td_channels := foldl (\<lambda>out (k, ch). case map_of rewrite k of
                None \<Rightarrow> out | Some p \<Rightarrow> aput p (ch\<lparr>tc_id := p\<rparr>) out) (td_channels dst) (td_channels s),
              td_programmes := td_programmes dst @ concat (map (\<lambda>p. case map_of rewrite (tp_channel p) of
                None \<Rightarrow> [] | Some q \<Rightarrow> [p\<lparr>tp_channel := q\<rparr>]) (td_programmes s))\<rparr>)"

section \<open>The order of programmes\<close>

definition programme_key :: "tv_programme \<Rightarrow> string \<times> string \<times> string" where
  "programme_key p = (tp_channel p, tp_start p, prefer_text (tp_titles p))"

lemma programme_less_key: "programme_less a b \<longleftrightarrow> programme_key a < programme_key b"
  by (auto simp: programme_less_def programme_key_def)

interpretation programmes: sort_order "\<lambda>_. True" programme_less
  by unfold_locales (auto simp: programme_less_key)

section \<open>Documents that come from a parse\<close>

definition texts_ok :: "tv_text list \<Rightarrow> bool" where
  "texts_ok ts \<longleftrightarrow> (\<forall>t \<in> set ts. trim_space (tt_text t) = tt_text t)"

definition channel_ok :: "tv_channel \<Rightarrow> bool" where
  "channel_ok ch \<longleftrightarrow> tc_id ch \<noteq> [] \<and> texts_ok (tc_names ch) \<and> [] \<notin> set (tc_icons ch)"

definition programme_ok :: "tv_programme \<Rightarrow> bool" where
  "programme_ok p \<longleftrightarrow> tp_channel p \<noteq> [] \<and> tp_start p \<noteq> [] \<and> texts_ok (tp_titles p) \<and>
     texts_ok (tp_descs p) \<and> texts_ok (tp_cats p) \<and> [] \<notin> set (tp_icons p)"

definition document_ok :: "tv_document \<Rightarrow> bool" where
  "document_ok doc \<longleftrightarrow> amap (td_channels doc) \<and>
     (\<forall>(k, ch) \<in> set (td_channels doc). tc_id ch = k \<and> channel_ok ch) \<and>
     (\<forall>p \<in> set (td_programmes doc). programme_ok p)"

lemma texts_ok_read: "texts_ok (read_texts ts)"
  by (simp add: texts_ok_def read_texts_def)

lemma read_texts_ok: "texts_ok ts \<Longrightarrow> read_texts ts = ts"
  unfolding read_texts_def texts_ok_def by (rule map_idI) simp

lemma read_icons_ok: "[] \<notin> set is \<Longrightarrow> read_icons is = is"
  unfolding read_icons_def by (rule filter_True) auto

lemma read_write_channel: "channel_ok ch \<Longrightarrow> read_channel (write_channel ch) = ch"
  by (simp add: channel_ok_def read_channel_def write_channel_def read_texts_ok read_icons_ok)

lemma read_write_programme: "programme_ok p \<Longrightarrow> read_programme (write_programme p) = p"
  by (simp add: programme_ok_def read_programme_def write_programme_def read_texts_ok read_icons_ok)

lemma tv_attrs_frame:
  "td_channels (foldl (\<lambda>d (k, v). if k = ''generator-info-name'' then d\<lparr>td_generator := v\<rparr> else d) doc attrs) = td_channels doc"
  "td_programmes (foldl (\<lambda>d (k, v). if k = ''generator-info-name'' then d\<lparr>td_generator := v\<rparr> else d) doc attrs) = td_programmes doc"
  by (induction attrs arbitrary: doc) auto

lemma parse_event_ok: "document_ok doc \<Longrightarrow> document_ok (parse_event doc e)"
proof (cases e)
  case (ChannelElement raw)
  assume ok: "document_ok doc"
  have "tc_id (read_channel raw) \<noteq> [] \<Longrightarrow> channel_ok (read_channel raw)"
    by (simp add: channel_ok_def read_channel_def texts_ok_read read_icons_def)
  then show ?thesis
    using ok ChannelElement by (auto simp: document_ok_def Let_def set_aput)
next
  case (ProgrammeElement raw)
  assume ok: "document_ok doc"
  have "tp_channel (read_programme raw) \<noteq> [] \<Longrightarrow> tp_start (read_programme raw) \<noteq> [] \<Longrightarrow>
      programme_ok (read_programme raw)"
    by (simp add: programme_ok_def read_programme_def texts_ok_read read_icons_def)
  then show ?thesis
    using ok ProgrammeElement by (auto simp: document_ok_def Let_def)
qed (simp_all add: document_ok_def tv_attrs_frame)

lemma parse_xmltv_ok: "parse_xmltv x = Some doc \<Longrightarrow> document_ok doc"
proof -
  have "document_ok (foldl parse_event d es)" if "document_ok d" for d es
    using that by (induction es arbitrary: d) (auto intro: parse_event_ok)
  moreover have "document_ok empty_document" by (simp add: document_ok_def empty_document_def)
  ultimately show "parse_xmltv x = Some doc \<Longrightarrow> document_ok doc"
    by (auto simp: parse_xmltv_def split: prod.splits if_splits)
qed

section \<open>Reading a written document\<close>

text \<open>The same document in the order of the file.\<close>

definition filed_document :: "tv_document \<Rightarrow> tv_document" where
  "filed_document doc = \<lparr> td_generator = ''tvr'',
     td_channels = map (\<lambda>k. (k, channel_at doc k)) (sort (map fst (td_channels doc))),
     td_programmes = stable_sort programme_less (td_programmes doc) \<rparr>"

lemma parse_channels:
  assumes "\<forall>k \<in> set ks. channel_ok (f k) \<and> tc_id (f k) = k" "distinct (map fst (td_channels doc) @ ks)"
  shows "foldl parse_event doc (map (\<lambda>k. ChannelElement (write_channel (f k))) ks) =
    doc\<lparr>td_channels := td_channels doc @ map (\<lambda>k. (k, f k)) ks\<rparr>"
  using assms
proof (induction ks arbitrary: doc)
  case (Cons k ks)
  have ok: "channel_ok (f k)" "tc_id (f k) = k" "k \<noteq> []" using Cons.prems(1) by (auto simp: channel_ok_def)
  have "map_of (td_channels doc) k = None" using Cons.prems(2) by (auto simp: map_of_eq_None_iff)
  then have "parse_event doc (ChannelElement (write_channel (f k))) =
      doc\<lparr>td_channels := td_channels doc @ [(k, f k)]\<rparr>"
    using ok by (simp add: read_write_channel Let_def aput_new)
  then show ?case using Cons by simp
qed simp

lemma parse_programmes:
  assumes "\<forall>p \<in> set ps. programme_ok p"
  shows "foldl parse_event doc (map (\<lambda>p. ProgrammeElement (write_programme p)) ps) =
    doc\<lparr>td_programmes := td_programmes doc @ ps\<rparr>"
  using assms
proof (induction ps arbitrary: doc)
  case (Cons p ps)
  then have "parse_event doc (ProgrammeElement (write_programme p)) = doc\<lparr>td_programmes := td_programmes doc @ [p]\<rparr>"
    by (auto simp: read_write_programme Let_def programme_ok_def)
  then show ?case using Cons by simp
qed simp

lemma parse_written:
  assumes "document_ok doc"
  shows "parse_xmltv (write_xmltv doc, True) = Some (filed_document doc)"
proof -
  let ?ks = "sort (map fst (td_channels doc))"
  have at: "channel_at doc k = ch" if "(k, ch) \<in> set (td_channels doc)" for k ch
    using assms that by (simp add: channel_at_def document_ok_def map_of_amap [symmetric])
  have ks: "\<forall>k \<in> set ?ks. channel_ok (channel_at doc k) \<and> tc_id (channel_at doc k) = k"
    using assms at by (fastforce simp: document_ok_def)
  have d: "distinct ?ks" using assms by (simp add: document_ok_def amap_def)
  have ps: "\<forall>p \<in> set (stable_sort programme_less (td_programmes doc)). programme_ok p"
    using assms by (simp add: document_ok_def)
  show ?thesis
    using parse_channels [OF ks, of "empty_document\<lparr>td_generator := ''tvr''\<rparr>"] d parse_programmes [OF ps]
    by (simp add: parse_xmltv_def write_xmltv_def filed_document_def empty_document_def)
qed

lemma filed_same:
  assumes "document_ok doc"
  shows "map_of (td_channels (filed_document doc)) = map_of (td_channels doc)"
    "mset (td_programmes (filed_document doc)) = mset (td_programmes doc)"
proof -
  have at: "map_of (map (\<lambda>k. (k, channel_at doc k)) ks) k = (if k \<in> set ks then Some (channel_at doc k) else None)" for ks k
    by (induction ks) auto
  show "map_of (td_channels (filed_document doc)) = map_of (td_channels doc)"
  proof
    fix k
    have "map_of (td_channels (filed_document doc)) k =
        (if map_of (td_channels doc) k \<noteq> None then Some (channel_at doc k) else None)"
      by (simp add: filed_document_def at map_of_eq_None_iff)
    then show "map_of (td_channels (filed_document doc)) k = map_of (td_channels doc) k"
      by (auto simp: channel_at_def)
  qed
  show "mset (td_programmes (filed_document doc)) = mset (td_programmes doc)"
    by (simp add: filed_document_def)
qed

text \<open>
  C11: a guide that was read and is written to a file reads back as the same guide: every channel under
  its id with the same names and icons, the same programmes, now ordered by channel, start and title,
  and written a second time it does not change any more.
\<close>

theorem guide_file_round_trip:
  assumes "parse_xmltv x = Some doc"
  shows "\<exists>doc'. parse_xmltv (write_xmltv doc, True) = Some doc' \<and>
    map_of (td_channels doc') = map_of (td_channels doc) \<and>
    mset (td_programmes doc') = mset (td_programmes doc) \<and>
    sorted_wrt (\<lambda>a b. \<not> programme_less b a) (td_programmes doc') \<and>
    parse_xmltv (write_xmltv doc', True) = Some doc'"
proof -
  let ?d = "filed_document doc"
  have ok: "document_ok doc" using assms by (rule parse_xmltv_ok)
  have sorted: "sorted_wrt (\<lambda>a b. \<not> programme_less b a) (td_programmes ?d)"
    by (simp add: filed_document_def programmes.sorted_stable_sort)
  have ok': "document_ok ?d" using parse_written [OF ok] by (rule parse_xmltv_ok)
  have "td_channels (filed_document ?d) = td_channels ?d"
    using filed_same(1) [OF ok] by (simp add: filed_document_def comp_def channel_at_def [abs_def] sorted_sort_id)
  moreover have "stable_sort programme_less ps = ps" if "sorted_wrt (\<lambda>a b. \<not> programme_less b a) ps" for ps
    using that
  proof (induction ps)
    case (Cons p ps)
    have "insert_by programme_less p ps = p # ps" using Cons.prems by (cases ps) auto
    then show ?case using Cons by (simp add: stable_sort_def)
  qed (simp add: stable_sort_def)
  ultimately have "filed_document ?d = ?d"
    using sorted by (simp add: filed_document_def)
  then show ?thesis
    using parse_written [OF ok] parse_written [OF ok'] filed_same [OF ok] sorted by simp
qed

definition sample_guide :: xml_stream where
  "sample_guide =
    ([TvElement [(''generator-info-name'', ''feed'')],
      ChannelElement \<lparr> rc_id = ''two'', rc_names = [\<lparr> tt_lang = [], tt_text = '' Two '' \<rparr>], rc_icons = [[], ''i.png''] \<rparr>,
      OtherElement,
      ChannelElement \<lparr> rc_id = ''one'', rc_names = [], rc_icons = [] \<rparr>,
      ProgrammeElement \<lparr> rp_start = ''20240102'', rp_stop = [], rp_channel = ''two'', rp_titles = [], rp_descs = [],
        rp_cats = [], rp_icons = [] \<rparr>,
      ProgrammeElement \<lparr> rp_start = ''20240101'', rp_stop = [], rp_channel = ''two'', rp_titles = [], rp_descs = [],
        rp_cats = [], rp_icons = [] \<rparr>], True)"

theorem guide_file_round_trip_witness:
  "\<exists>doc doc'. parse_xmltv sample_guide = Some doc \<and> length (td_channels doc) = 2 \<and>
     parse_xmltv (write_xmltv doc, True) = Some doc' \<and>
     map_of (td_channels doc') = map_of (td_channels doc) \<and>
     mset (td_programmes doc') = mset (td_programmes doc)"
proof -
  have "case parse_xmltv sample_guide of None \<Rightarrow> False | Some doc \<Rightarrow> length (td_channels doc) = 2"
    by code_simp
  then obtain doc where d: "parse_xmltv sample_guide = Some doc" "length (td_channels doc) = 2"
    by (auto split: option.splits)
  show ?thesis using guide_file_round_trip [OF d(1)] d by blast
qed

end
