(* ===== verification/GuideQuery.thy ===== *)
theory GuideQuery
  imports EpgGuide
begin

text \<open>
  A page of a guide: \<^verbatim>\<open>normalizeGuideQuery\<close>, \<^verbatim>\<open>scanGuideChannels\<close>, \<^verbatim>\<open>scanGuideProgrammes\<close> and the paging of
  \<^verbatim>\<open>QuerySourceGuide\<close> in \<^verbatim>\<open>internal/core/epg/guide.go\<close>.  Times are nanoseconds since 1970; the files it
  reads are streams of elements, as in \<open>EpgGuide\<close>.
\<close>

record guide_query =
  gq_from :: int
  gq_to :: int
  gq_q :: string
  gq_offset :: int
  gq_limit :: int

record guide_programme =
  gp_start :: string
  gp_stop :: string
  gp_title :: string
  gp_desc :: string
  gp_cat :: string
  gp_icon :: string

record guide_channel =
  gc_id :: string
  gc_name :: string
  gc_icon :: string
  gc_programmes :: "guide_programme list"

record guide_result =
  gr_fetched :: string
  gr_stale :: bool
  gr_total :: int
  gr_offset :: int
  gr_limit :: int
  gr_channels :: "guide_channel list"

datatype guide_error = GuideRefreshRequired | GuideInvalidQuery string | GuideUnreadable

definition zero_instant :: int where
  "zero_instant = clock_time 1 1 1 0 0 0 0"

definition max_guide_window :: int where "max_guide_window = 24 * 3600 * ns_second"
definition default_guide_limit :: int where "default_guide_limit = 50"
definition max_guide_limit :: int where "max_guide_limit = 100"

definition normalize_guide_query :: "guide_query \<Rightarrow> guide_error + guide_query" where
  "normalize_guide_query q =
     (if gq_from q = zero_instant \<or> gq_to q = zero_instant then Inl (GuideInvalidQuery ''from and to are required'')
      else if \<not> gq_from q < gq_to q then Inl (GuideInvalidQuery ''to must be after from'')
      else if gq_to q - gq_from q > max_guide_window then Inl (GuideInvalidQuery ''window must be <= 24h'')
      else
        let limit = (if gq_limit q \<le> 0 then default_guide_limit else gq_limit q) in
        Inr (q\<lparr>gq_offset := (if gq_offset q < 0 then 0 else gq_offset q),
               gq_limit := (if limit > max_guide_limit then max_guide_limit else limit),
               gq_q := to_lower (trim_space (gq_q q))\<rparr>))"

section \<open>The scans\<close>

definition scanned_names :: "raw_channel \<Rightarrow> tv_text list" where
  "scanned_names raw = filter (\<lambda>t. tt_text t \<noteq> []) (read_texts (rc_names raw))"

definition first_icon :: "string list \<Rightarrow> string" where
  "first_icon is = (case is of [] \<Rightarrow> [] | i # _ \<Rightarrow> trim_space i)"

definition channel_matches :: "string \<Rightarrow> raw_channel \<Rightarrow> bool" where
  "channel_matches q raw \<longleftrightarrow> q = [] \<or> contains_str (to_lower (rc_id raw)) q \<or>
     list_ex (\<lambda>n. contains_str n q) (map (\<lambda>t. to_lower (tt_text t)) (scanned_names raw) @ [to_lower (rc_id raw)])"

definition scan_channel_event :: "string \<Rightarrow> xml_event \<Rightarrow> guide_channel list" where
  "scan_channel_event q e = (case e of
       ChannelElement raw \<Rightarrow>
         (if blank (rc_id raw) \<or> \<not> channel_matches q raw then []
          else [\<lparr> gc_id = rc_id raw, gc_name = prefer_text (scanned_names raw), gc_icon = first_icon (rc_icons raw),
                  gc_programmes = [] \<rparr>])
     | _ \<Rightarrow> [])"

definition guide_row_less :: "(nat \<Rightarrow> nat) \<Rightarrow> guide_channel \<Rightarrow> guide_channel \<Rightarrow> bool" where
  "guide_row_less lower a b = guide_channel_less lower (gc_name a) (gc_id a) (gc_name b) (gc_id b)"

definition scan_guide_channels :: "(nat \<Rightarrow> nat) \<Rightarrow> xml_stream \<Rightarrow> string \<Rightarrow> guide_error + guide_channel list" where
  "scan_guide_channels lower x q =
     (if \<not> snd x then Inl GuideUnreadable
      else Inr (stable_sort (guide_row_less lower) (concat (map (scan_channel_event q) (fst x)))))"

text \<open>Half-open overlap of a programme with the window, for programmes with two times in order.\<close>

definition programme_span :: "int \<Rightarrow> int \<Rightarrow> raw_programme \<Rightarrow> (int \<times> int) option" where
  "programme_span from to raw =
     (case parse_xmltv_time (rp_start raw) of
        None \<Rightarrow> None
      | Some start \<Rightarrow>
          (case parse_xmltv_time (rp_stop raw) of
             None \<Rightarrow> None
           | Some stop \<Rightarrow>
               if \<not> start < stop \<or> \<not> start < to \<or> \<not> from < stop then None else Some (start, stop)))"

definition guide_programme_of :: "raw_programme \<Rightarrow> int \<times> int \<Rightarrow> guide_programme" where
  "guide_programme_of raw span =
     \<lparr> gp_start = rfc3339 (fst span), gp_stop = rfc3339 (snd span),
       gp_title = prefer_text (read_texts (rp_titles raw)), gp_desc = prefer_text (read_texts (rp_descs raw)),
       gp_cat = prefer_text (read_texts (rp_cats raw)), gp_icon = first_icon (rp_icons raw) \<rparr>"

definition scan_programme_event :: "string list \<Rightarrow> int \<Rightarrow> int \<Rightarrow>
    (string \<times> guide_programme list) list \<Rightarrow> xml_event \<Rightarrow> (string \<times> guide_programme list) list" where
  "scan_programme_event allowed from to out e = (case e of
       ProgrammeElement raw \<Rightarrow>
         (if rp_channel raw \<notin> set allowed then out
          else (case programme_span from to raw of
              None \<Rightarrow> out
            | Some span \<Rightarrow> aput (rp_channel raw)
                ((case map_of out (rp_channel raw) of None \<Rightarrow> [] | Some l \<Rightarrow> l) @ [guide_programme_of raw span]) out))
     | _ \<Rightarrow> out)"

definition guide_programme_less :: "guide_programme \<Rightarrow> guide_programme \<Rightarrow> bool" where
  "guide_programme_less a b =
     (if gp_start a = gp_start b then gp_title a < gp_title b else gp_start a < gp_start b)"

definition scan_guide_programmes :: "xml_stream \<Rightarrow> string list \<Rightarrow> int \<Rightarrow> int \<Rightarrow>
    guide_error + (string \<times> guide_programme list) list" where
  "scan_guide_programmes x allowed from to =
     (if \<not> snd x then Inl GuideUnreadable
      else Inr (map (\<lambda>(ch, l). (ch, stable_sort guide_programme_less l))
        (foldl (scan_programme_event allowed from to) [] (fst x))))"

section \<open>A page\<close>

definition guide_page :: "(nat \<Rightarrow> nat) \<Rightarrow> string \<Rightarrow> bool \<Rightarrow> guide_query \<Rightarrow> xml_stream \<Rightarrow> guide_error + guide_result" where
  "guide_page lower fetched stale q x =
     bindE (scan_guide_channels lower x (gq_q q)) (\<lambda>channels.
     (let total = int (length channels);
          offset = (if gq_offset q > total then total else gq_offset q);
          end_at = (if offset + gq_limit q > total then total else offset + gq_limit q);
          page = take (nat (end_at - offset)) (drop (nat offset) channels)
      in bindE (scan_guide_programmes x (map gc_id page) (gq_from q) (gq_to q)) (\<lambda>progs.
         Inr \<lparr> gr_fetched = fetched, gr_stale = stale, gr_total = total, gr_offset = offset,
           gr_limit = gq_limit q,
           gr_channels = map (\<lambda>ch. ch\<lparr>gc_programmes := (case map_of progs (gc_id ch) of None \<Rightarrow> [] | Some l \<Rightarrow> l)\<rparr>) page \<rparr>)))"

text \<open>\<^verbatim>\<open>QuerySourceGuide\<close> on the manifest and the file of an eligible source, if there is one.\<close>

definition query_guide :: "(nat \<Rightarrow> nat) \<Rightarrow> (string \<times> xml_stream) option \<Rightarrow> bool \<Rightarrow> guide_query \<Rightarrow>
    guide_error + guide_result" where
  "query_guide lower src stale q =
     bindE (normalize_guide_query q) (\<lambda>q'.
     (case src of None \<Rightarrow> Inl GuideRefreshRequired | Some (fetched, x) \<Rightarrow> guide_page lower fetched stale q' x))"

section \<open>What a page holds\<close>

definition guide_programme_key :: "guide_programme \<Rightarrow> string \<times> string" where
  "guide_programme_key p = (gp_start p, gp_title p)"

lemma guide_programme_less_key: "guide_programme_less a b \<longleftrightarrow> guide_programme_key a < guide_programme_key b"
  by (auto simp: guide_programme_less_def guide_programme_key_def)

interpretation guide_programmes: sort_order "\<lambda>_. True" guide_programme_less
  by unfold_locales (auto simp: guide_programme_less_key)

text \<open>The programmes of a channel in the window, in file order.\<close>

definition shown_programmes :: "int \<Rightarrow> int \<Rightarrow> string \<Rightarrow> xml_event list \<Rightarrow> guide_programme list" where
  "shown_programmes from to ch es = concat (map (\<lambda>e. case e of
       ProgrammeElement raw \<Rightarrow> (case programme_span from to raw of
           Some span \<Rightarrow> if rp_channel raw = ch then [guide_programme_of raw span] else [] | None \<Rightarrow> [])
     | _ \<Rightarrow> []) es)"

lemma scan_programmes_of:
  assumes "ch \<in> set allowed"
  shows "(case map_of (foldl (scan_programme_event allowed from to) out es) ch of None \<Rightarrow> [] | Some l \<Rightarrow> l) =
    (case map_of out ch of None \<Rightarrow> [] | Some l \<Rightarrow> l) @ shown_programmes from to ch es"
proof (induction es arbitrary: out)
  case (Cons e es)
  have "(case map_of (scan_programme_event allowed from to out e) ch of None \<Rightarrow> [] | Some l \<Rightarrow> l) =
      (case map_of out ch of None \<Rightarrow> [] | Some l \<Rightarrow> l) @ shown_programmes from to ch [e]"
    using assms by (auto simp: scan_programme_event_def shown_programmes_def split: xml_event.split option.split)
  then show ?case using Cons by (simp add: shown_programmes_def)
qed (simp add: shown_programmes_def)

lemma map_of_values: "map_of (map (\<lambda>(k, v). (k, f v)) kvs) k = map_option f (map_of kvs k)"
  by (induction kvs) auto

lemma page_programmes:
  assumes "scan_guide_programmes x allowed from to = Inr progs" "ch \<in> set allowed"
  shows "(case map_of progs ch of None \<Rightarrow> [] | Some l \<Rightarrow> l) =
    stable_sort guide_programme_less (shown_programmes from to ch (fst x))"
proof -
  have "(case map_of progs ch of None \<Rightarrow> [] | Some l \<Rightarrow> l) = stable_sort guide_programme_less
      (case map_of (foldl (scan_programme_event allowed from to) [] (fst x)) ch of None \<Rightarrow> [] | Some l \<Rightarrow> l)"
    using assms(1)
    by (auto simp: scan_guide_programmes_def map_of_values stable_sort_def split: if_splits option.split)
  then show ?thesis using scan_programmes_of [OF assms(2), where out = "[]"] by simp
qed

lemma normalized_bounds:
  "normalize_guide_query q = Inr q' \<Longrightarrow>
   0 \<le> gq_offset q' \<and> 1 \<le> gq_limit q' \<and> gq_limit q' \<le> 100 \<and> gq_from q' = gq_from q \<and> gq_to q' = gq_to q \<and>
   gq_from q < gq_to q \<and> gq_to q - gq_from q \<le> max_guide_window"
  by (auto simp: normalize_guide_query_def Let_def default_guide_limit_def max_guide_limit_def split: if_splits)


definition sample_window :: guide_query where
  "sample_window = \<lparr> gq_from = clock_time 2024 1 1 0 0 0 0, gq_to = clock_time 2024 1 2 0 0 0 0, gq_q = [],
     gq_offset = 0, gq_limit = 0 \<rparr>"


end
