(* ===== verification/Charset.thy ===== *)
theory Charset
  imports Prelude "HOL-Library.Word"
begin

text \<open>
  \<^verbatim>\<open>charsetReader\<close> and \<^verbatim>\<open>latin1Reader\<close> of \<^verbatim>\<open>internal/core/epg/service.go\<close>, and \<^verbatim>\<open>openMaybeGzip\<close> of
  \<^verbatim>\<open>source_cache.go\<close>.  A reader is the list of what its successive \<^verbatim>\<open>Read\<close> calls return: bytes, and
  whether an error (end of file or another) comes with them; after the list it reports the end.
\<close>

unbundle bit_operations_syntax

type_synonym byte = "8 word"
type_synonym read_result = "byte list \<times> bool"

datatype charset = CharsetPlain | CharsetLatin1 | CharsetUnsupported

definition charset_reader :: "string \<Rightarrow> charset" where
  "charset_reader name =
     (let c = to_lower (trim_space name) in
      if c \<in> {[], ''utf-8'', ''utf8'', ''us-ascii''} then CharsetPlain
      else if c \<in> {''iso-8859-1'', ''latin1'', ''latin-1''} then CharsetLatin1
      else CharsetUnsupported)"

definition is_gzip :: "byte list \<Rightarrow> bool" where
  "is_gzip raw \<longleftrightarrow> 2 \<le> length raw \<and> raw ! 0 = 0x1f \<and> raw ! 1 = 0x8b"

definition latin1_byte :: "byte \<Rightarrow> byte list" where
  "latin1_byte b = (if b < 0x80 then [b] else [0xC0 OR drop_bit 6 b, 0x80 OR (b AND 0x3F)])"

definition latin1_utf8 :: "byte list \<Rightarrow> byte list" where
  "latin1_utf8 bs = concat (map latin1_byte bs)"

record latin1_state =
  l1_buf :: "byte list"
  l1_src :: "read_result list"

text \<open>One \<^verbatim>\<open>Read\<close> into a buffer of \<open>cap\<close> bytes.\<close>

definition latin1_read :: "nat \<Rightarrow> latin1_state \<Rightarrow> read_result \<times> latin1_state" where
  "latin1_read cap st =
     (if l1_buf st \<noteq> [] then ((take cap (l1_buf st), False), st\<lparr>l1_buf := drop cap (l1_buf st)\<rparr>)
      else case l1_src st of
          [] \<Rightarrow> (([], True), st)
        | (data, err) # rest \<Rightarrow>
            (if data = [] then (([], err), st\<lparr>l1_src := rest\<rparr>)
             else let out = latin1_utf8 data
                  in ((take cap out, err), \<lparr> l1_buf = drop cap out, l1_src = rest \<rparr>)))"

text \<open>What a caller gets that reads until an error, with buffers of \<open>cap\<close> bytes.\<close>

fun latin1_take :: "nat \<Rightarrow> nat \<Rightarrow> latin1_state \<Rightarrow> byte list option" where
  "latin1_take 0 cap st = None"
| "latin1_take (Suc fuel) cap st =
     (case latin1_read cap st of
        ((out, True), _) \<Rightarrow> Some out
      | ((out, False), st') \<Rightarrow> map_option (\<lambda>more. out @ more) (latin1_take fuel cap st'))"

section \<open>Errors that come alone\<close>

definition clean_source :: "read_result list \<Rightarrow> bool" where
  "clean_source src \<longleftrightarrow> (\<forall>(_, err) \<in> set src. \<not> err)"

definition source_bytes :: "read_result list \<Rightarrow> byte list" where
  "source_bytes src = concat (map fst src)"

definition latin1_work :: "latin1_state \<Rightarrow> nat" where
  "latin1_work st = length (l1_buf st) + (\<Sum>(data, _)\<leftarrow>l1_src st. Suc (length (latin1_utf8 data)))"

lemma latin1_utf8_append: "latin1_utf8 (a @ b) = latin1_utf8 a @ latin1_utf8 b"
  by (simp add: latin1_utf8_def)

lemma latin1_utf8_nonempty: "data \<noteq> [] \<Longrightarrow> latin1_utf8 data \<noteq> []"
  by (cases data) (auto simp: latin1_utf8_def latin1_byte_def)

lemma latin1_all_read:
  assumes "clean_source (l1_src st)" "0 < cap" "latin1_work st < fuel"
  shows "latin1_take fuel cap st = Some (l1_buf st @ latin1_utf8 (source_bytes (l1_src st)))"
  using assms
proof (induction fuel arbitrary: st)
  case (Suc fuel)
  show ?case
  proof (cases "l1_buf st = []")
    case False
    let ?st = "st\<lparr>l1_buf := drop cap (l1_buf st)\<rparr>"
    have "length (drop cap (l1_buf st)) < length (l1_buf st)" using False Suc.prems(2) by (cases "l1_buf st") auto
    then have "latin1_work ?st < fuel" using Suc.prems(3) by (simp add: latin1_work_def)
    then have "latin1_take fuel cap ?st = Some (drop cap (l1_buf st) @ latin1_utf8 (source_bytes (l1_src st)))"
      using Suc.IH [of ?st] Suc.prems by simp
    then show ?thesis using False by (simp add: latin1_read_def append_assoc [symmetric])
  next
    case True
    show ?thesis
    proof (cases "l1_src st")
      case Nil
      then show ?thesis using True by (simp add: latin1_read_def source_bytes_def latin1_utf8_def)
    next
      case (Cons r rest)
      obtain data err where r: "r = (data, err)" by (cases r)
      have err: "\<not> err" "clean_source rest" using Suc.prems(1) by (auto simp: Cons r clean_source_def)
      let ?st = "\<lparr> l1_buf = drop cap (latin1_utf8 data), l1_src = rest \<rparr>"
      have "latin1_work ?st < fuel" using Suc.prems(3) True by (auto simp: latin1_work_def Cons r)
      then have t: "latin1_take fuel cap ?st = Some (drop cap (latin1_utf8 data) @ latin1_utf8 (source_bytes rest))"
        using Suc.IH [of ?st] err Suc.prems(2) by simp
      have st: "st\<lparr>l1_src := rest\<rparr> = \<lparr> l1_buf = [], l1_src = rest \<rparr>" using True by simp
      show ?thesis
        using t True err
        by (cases "data = []") (simp_all add: latin1_read_def Cons r Let_def st source_bytes_def latin1_utf8_append
            latin1_utf8_def [of "[]"] append_assoc [symmetric])
    qed
  qed
qed simp

text \<open>
  A source may return its last bytes together with the end of file, as a gzip reader does.  Then the bytes
  that do not fit the caller's buffer are lost.
\<close>

lemma latin1_tail_lost:
  "latin1_take 3 2 \<lparr> l1_buf = [], l1_src = [([0xE9, 0x3E], True)] \<rparr> = Some [0xC3, 0xA9]"
  "latin1_utf8 [0xE9, 0x3E] = [0xC3, 0xA9, 0x3E]"
  by code_simp+

end
