(* ===== verification/EpgFiles.thy ===== *)
theory EpgFiles
  imports GuideQuery Charset StoreRelays StoreEpg RelayPlaylist
begin

text \<open>
  The state of the guide service (\<^verbatim>\<open>Service\<close> of \<^verbatim>\<open>internal/core/epg/service.go\<close>) and its files:
  \<^verbatim>\<open>manifest.go\<close>, \<^verbatim>\<open>source_cache.go\<close>, \<^verbatim>\<open>writeRelayCache\<close>, and the questions the HTTP handlers ask about
  the indexes.

  \<open>epg_world\<close> is the service with the database and the three directories it works on, each a map from
  file names to files; a file is what the code decodes it to (JSON and XML are read back as they were
  written).  A temporary file that is renamed in the end appears under its own name only if the
  renaming fails.  The environment \<open>epg_env\<close> decides which names can be written and removed, what the
  upstream servers answer, how long a fetch takes, which random generation id comes next, and in which
  order Go's maps are visited.
\<close>

section \<open>State\<close>

record manifest =
  mf_generation :: string
  mf_url :: string
  mf_fetched :: string

record index_file =
  ix_url :: string
  ix_generation :: string
  ix_channels :: "channel_info list"

datatype epg_file = XmlFile xml_stream | ManifestFile manifest | IndexFile index_file | JunkFile

type_synonym directory = "(string \<times> epg_file) list"

record relay_cleanup =
  cu_slugs :: "string list"
  cu_retry :: "int option"

record epg_world =
  g_open :: bool
  g_held :: nat
  g_indexes :: "(int \<times> index_file) list"
  g_sources :: "int list"
  g_relays :: "int list"
  g_deletes :: "int list"
  g_cleanups :: "(int \<times> relay_cleanup) list"
  g_rev :: "int \<Rightarrow> 64 word"
  g_retry :: "(int \<times> int) list"
  g_backoff :: "(int \<times> int) list"
  g_last_ok :: "int option"
  g_last_error :: string
  g_busy :: bool
  g_wake :: bool
  g_cache_dir :: directory
  g_index_dir :: directory
  g_source_dir :: directory
  g_now :: int
  g_calls :: nat
  g_db :: db

datatype fetch_reply = FetchFailed string | FetchReply int "byte list" bool

record epg_env =
  ev_lower :: "nat \<Rightarrow> nat"
  ev_write_ok :: "string \<Rightarrow> bool"
  ev_remove_ok :: "string \<Rightarrow> bool"
  ev_gen :: "nat \<Rightarrow> string"
  ev_pick :: "nat \<Rightarrow> nat"
  ev_fetch :: "nat \<Rightarrow> string \<Rightarrow> fetch_reply"
  ev_elapsed :: "nat \<Rightarrow> nat"
  ev_gunzip :: "byte list \<Rightarrow> (byte list \<times> bool) option"
  ev_decode :: "byte list \<Rightarrow> xml_stream"
  ev_max :: nat
  ev_time :: "string \<Rightarrow> int"
  ev_stamp :: "int \<Rightarrow> string"

text \<open>A call of the store, and the number of the next call of the environment.\<close>

definition on_db :: "'v dbm \<Rightarrow> epg_world \<Rightarrow> (store_err + 'v) \<times> epg_world" where
  "on_db m w = (case m (g_db w) of (r, d) \<Rightarrow> (r, w\<lparr>g_db := d\<rparr>))"

definition tick :: "epg_world \<Rightarrow> epg_world" where
  "tick w = w\<lparr>g_calls := Suc (g_calls w)\<rparr>"

section \<open>Names\<close>

definition manifest_name :: "int \<Rightarrow> string" where
  "manifest_name i = show_int i @ ''.manifest.json''"

definition generation_xml_name :: "int \<Rightarrow> string \<Rightarrow> string" where
  "generation_xml_name i gen = show_int i @ ''.'' @ gen @ ''.xml''"

definition generation_index_name :: "int \<Rightarrow> string \<Rightarrow> string" where
  "generation_index_name i gen = show_int i @ ''.'' @ gen @ ''.json''"

definition relay_cache_name :: "string \<Rightarrow> string" where
  "relay_cache_name slug = slug @ ''.xml''"

definition normalize_source_url :: "string \<Rightarrow> string" where
  "normalize_source_url raw = trim_space raw"

section \<open>Writing and removing\<close>

text \<open>Write a file next to its place and rename it; an error of the renaming leaves the temporary file.\<close>

definition put_renamed :: "epg_env \<Rightarrow> string \<Rightarrow> epg_file \<Rightarrow> directory \<Rightarrow> bool \<times> directory" where
  "put_renamed e name f dir =
     (let tmp = name @ ''.tmp'' in
      if \<not> ev_write_ok e tmp then (False, dir)
      else if \<not> ev_write_ok e name then (False, aput tmp f dir)
      else (True, aput name f (adel tmp dir)))"

text \<open>The same with a temporary file that is removed in any case.\<close>

definition put_temp :: "epg_env \<Rightarrow> string \<Rightarrow> epg_file \<Rightarrow> directory \<Rightarrow> bool \<times> directory" where
  "put_temp e name f dir = (if ev_write_ok e name then (True, aput name f dir) else (False, dir))"

definition remove_file :: "epg_env \<Rightarrow> string \<Rightarrow> directory \<Rightarrow> directory" where
  "remove_file e name dir = (if ev_remove_ok e name then adel name dir else dir)"

section \<open>manifest.go\<close>

definition read_source_manifest :: "int \<Rightarrow> epg_world \<Rightarrow> manifest option" where
  "read_source_manifest i w = (case map_of (g_source_dir w) (manifest_name i) of
       Some (ManifestFile m) \<Rightarrow> Some (m\<lparr>mf_url := normalize_source_url (mf_url m)\<rparr>) | _ \<Rightarrow> None)"

definition write_source_manifest :: "epg_env \<Rightarrow> int \<Rightarrow> manifest \<Rightarrow> epg_world \<Rightarrow> bool \<times> epg_world" where
  "write_source_manifest e i m w =
     (case put_renamed e (manifest_name i) (ManifestFile m) (g_source_dir w) of
        (ok, dir) \<Rightarrow> (ok, w\<lparr>g_source_dir := dir\<rparr>))"

definition write_generation_index :: "epg_env \<Rightarrow> int \<Rightarrow> string \<Rightarrow> string \<Rightarrow> channel_info list \<Rightarrow> epg_world \<Rightarrow> bool \<times> epg_world" where
  "write_generation_index e i gen url chs w =
     (case put_renamed e (generation_index_name i gen)
         (IndexFile \<lparr> ix_url = normalize_source_url url, ix_generation = gen, ix_channels = chs \<rparr>) (g_index_dir w) of
        (ok, dir) \<Rightarrow> (ok, w\<lparr>g_index_dir := dir\<rparr>))"

definition write_generation_xml :: "epg_env \<Rightarrow> int \<Rightarrow> string \<Rightarrow> tv_document \<Rightarrow> epg_world \<Rightarrow> bool \<times> epg_world" where
  "write_generation_xml e i gen doc w =
     (case put_temp e (generation_xml_name i gen) (XmlFile (write_xmltv doc, True)) (g_source_dir w) of
        (ok, dir) \<Rightarrow> (ok, w\<lparr>g_source_dir := dir\<rparr>))"

definition remove_generation :: "epg_env \<Rightarrow> int \<Rightarrow> string \<Rightarrow> epg_world \<Rightarrow> epg_world" where
  "remove_generation e i gen w = w\<lparr>g_source_dir := remove_file e (generation_xml_name i gen) (g_source_dir w),
     g_index_dir := remove_file e (generation_index_name i gen) (g_index_dir w)\<rparr>"

definition write_source_generation_files ::
    "epg_env \<Rightarrow> int \<Rightarrow> string \<Rightarrow> tv_document \<Rightarrow> epg_world \<Rightarrow> (string \<times> channel_info list) option \<times> epg_world" where
  "write_source_generation_files e i url doc w =
     (let gen = ev_gen e (g_calls w); chs = index_from_doc (ev_lower e) doc in
      case write_generation_xml e i gen doc (tick w) of
        (False, w1) \<Rightarrow> (None, w1)
      | (True, w1) \<Rightarrow>
          (case write_generation_index e i gen url chs w1 of
             (False, w2) \<Rightarrow>
               (None, w2\<lparr>g_source_dir := remove_file e (generation_xml_name i gen) (g_source_dir w2)\<rparr>)
           | (True, w2) \<Rightarrow> (Some (gen, chs), w2)))"

definition load_index_file :: "int \<Rightarrow> string \<Rightarrow> epg_world \<Rightarrow> index_file option" where
  "load_index_file i gen w = (case map_of (g_index_dir w) (generation_index_name i gen) of
       Some (IndexFile x) \<Rightarrow> Some x | _ \<Rightarrow> None)"

definition load_source_doc :: "string \<Rightarrow> epg_world \<Rightarrow> tv_document option" where
  "load_source_doc name w = (case map_of (g_source_dir w) name of Some (XmlFile x) \<Rightarrow> parse_xmltv x | _ \<Rightarrow> None)"

definition tag_fits :: "string \<Rightarrow> string \<Rightarrow> index_file \<Rightarrow> bool" where
  "tag_fits gen url tag \<longleftrightarrow> ix_generation tag = gen \<and> normalize_source_url (ix_url tag) = url"

definition rebuild_index :: "epg_env \<Rightarrow> int \<Rightarrow> string \<Rightarrow> string \<Rightarrow> epg_world \<Rightarrow> index_file option \<times> epg_world" where
  "rebuild_index e i gen url w =
     (case load_source_doc (generation_xml_name i gen) w of
        None \<Rightarrow> (None, w)
      | Some doc \<Rightarrow>
          (let chs = index_from_doc (ev_lower e) doc in
           (Some \<lparr> ix_url = url, ix_generation = gen, ix_channels = chs \<rparr>,
            snd (write_generation_index e i gen url chs w))))"

text \<open>The index of a generation from its file, or made again from its guide.\<close>

definition reload_index :: "epg_env \<Rightarrow> int \<Rightarrow> string \<Rightarrow> string \<Rightarrow> epg_world \<Rightarrow> index_file option \<times> epg_world" where
  "reload_index e i gen url w =
     (case load_index_file i gen w of
        Some idx \<Rightarrow>
          if tag_fits gen url idx
          then (Some \<lparr> ix_url = url, ix_generation = gen, ix_channels = ix_channels idx \<rparr>, w)
          else rebuild_index e i gen url w
      | None \<Rightarrow> rebuild_index e i gen url w)"

definition keep_index :: "int \<Rightarrow> index_file \<Rightarrow> epg_world \<Rightarrow> epg_world" where
  "keep_index i tag w = w\<lparr>g_indexes := aput i tag (g_indexes w)\<rparr>"

definition eligible_source ::
    "epg_env \<Rightarrow> int \<Rightarrow> string \<Rightarrow> epg_world \<Rightarrow> (manifest \<times> string \<times> index_file) option \<times> epg_world" where
  "eligible_source e i raw w =
     (let url = normalize_source_url raw in
      case read_source_manifest i w of
        None \<Rightarrow> (None, w)
      | Some m \<Rightarrow>
          (let gen = mf_generation m; xml = generation_xml_name i gen;
               kept = (case map_of (g_indexes w) i of Some tag \<Rightarrow> if tag_fits gen url tag then Some tag else None
                 | None \<Rightarrow> None)
           in if gen = [] \<or> mf_url m = [] \<or> mf_url m \<noteq> url \<or> map_of (g_source_dir w) xml = None then (None, w)
              else case kept of
                Some tag \<Rightarrow> (Some (m, xml, tag), w)
              | None \<Rightarrow>
                  (case reload_index e i gen url w of
                     (None, w1) \<Rightarrow> (None, w1)
                   | (Some tag, w1) \<Rightarrow> (Some (m, xml, tag), keep_index i tag w1))))"

definition source_file :: "int \<Rightarrow> string \<Rightarrow> bool" where
  "source_file i name \<longleftrightarrow> has_prefix name (show_int i @ ''.'') \<and> (has_suffix name ''.xml'' \<or> has_suffix name ''.json'')"

definition index_file_of :: "int \<Rightarrow> string \<Rightarrow> bool" where
  "index_file_of i name \<longleftrightarrow> has_prefix name (show_int i @ ''.'') \<and> has_suffix name ''.json''"

definition drop_files :: "epg_env \<Rightarrow> (string \<Rightarrow> bool) \<Rightarrow> directory \<Rightarrow> directory" where
  "drop_files e p dir = filter (\<lambda>(name, _). \<not> (p name \<and> ev_remove_ok e name)) dir"

definition delete_source_files :: "epg_env \<Rightarrow> int \<Rightarrow> epg_world \<Rightarrow> epg_world" where
  "delete_source_files e i w = w\<lparr>
     g_source_dir := drop_files e (source_file i) (remove_file e (manifest_name i) (g_source_dir w)),
     g_index_dir := drop_files e (index_file_of i) (g_index_dir w),
     g_indexes := adel i (g_indexes w)\<rparr>"

definition write_relay_cache :: "epg_env \<Rightarrow> string \<Rightarrow> tv_document \<Rightarrow> epg_world \<Rightarrow> bool \<times> epg_world" where
  "write_relay_cache e slug doc w =
     (case put_temp e (relay_cache_name slug) (XmlFile (write_xmltv doc, True)) (g_cache_dir w) of
        (ok, dir) \<Rightarrow> (ok, w\<lparr>g_cache_dir := dir\<rparr>))"

section \<open>source_cache.go\<close>

text \<open>A reader cut at the limit ends there without an error.\<close>

definition fetch_source :: "epg_env \<Rightarrow> string \<Rightarrow> epg_world \<Rightarrow> (string + tv_document) \<times> epg_world" where
  "fetch_source e url w =
     (let w' = (tick w)\<lparr>g_now := g_now w + int (ev_elapsed e (g_calls w))\<rparr>; lim = Suc (ev_max e) in
      (case ev_fetch e (g_calls w) url of
         FetchFailed msg \<Rightarrow> Inl msg
       | FetchReply status body ok \<Rightarrow>
           if status < 200 \<or> 300 \<le> status then Inl (''status '' @ show_int status)
           else if \<not> ok \<and> length body < lim then Inl ''read error''
           else if ev_max e < length body then Inl (''response exceeds '' @ show_nat (ev_max e) @ '' bytes'')
           else case (if is_gzip body then ev_gunzip e body else Some (body, True)) of
               None \<Rightarrow> Inl ''gzip: invalid header''
             | Some (bytes, whole) \<Rightarrow>
                 (case ev_decode e (take lim bytes) of
                    (es, good) \<Rightarrow>
                      (case parse_xmltv (es, good \<and> (whole \<or> lim \<le> length bytes)) of
                         None \<Rightarrow> Inl ''XML syntax error''
                       | Some doc \<Rightarrow>
                           if lim \<le> length bytes
                           then Inl (''decompressed response exceeds '' @ show_nat (ev_max e) @ '' bytes'')
                           else Inr doc)), w'))"

section \<open>Questions about the indexes\<close>

text \<open>The source of an id, if it is in the database and eligible.\<close>

definition eligible_id :: "epg_env \<Rightarrow> int \<Rightarrow> epg_world \<Rightarrow> (manifest \<times> string \<times> index_file) option \<times> epg_world" where
  "eligible_id e i w = (case on_db (get_epg_source i) w of
       (Inl _, w1) \<Rightarrow> (None, w1) | (Inr src, w1) \<Rightarrow> eligible_source e i (es_url src) w1)"

definition search_source_channels :: "epg_env \<Rightarrow> int \<Rightarrow> string \<Rightarrow> int \<Rightarrow> epg_world \<Rightarrow> channel_search_result \<times> epg_world" where
  "search_source_channels e i q limit w =
     (case eligible_id e i w of
        (None, w1) \<Rightarrow> (page_channel_search [] limit, w1)
      | (Some (_, _, tag), w1) \<Rightarrow> (search_index (ev_lower e) (ix_channels tag) q limit, w1))"

fun count_eligible_sources :: "epg_env \<Rightarrow> int list \<Rightarrow> epg_world \<Rightarrow> nat \<times> epg_world" where
  "count_eligible_sources e [] w = (0, w)"
| "count_eligible_sources e (i # is) w =
     (case eligible_id e i w of (r, w1) \<Rightarrow>
      (case count_eligible_sources e is w1 of (n, w2) \<Rightarrow> ((if r = None then n else Suc n), w2)))"

fun sources_with_tvg :: "epg_env \<Rightarrow> int list \<Rightarrow> string \<Rightarrow> epg_world \<Rightarrow> int list \<times> epg_world" where
  "sources_with_tvg e [] tvg w = ([], w)"
| "sources_with_tvg e (i # is) tvg w =
     (case eligible_id e i w of (r, w1) \<Rightarrow>
      (case sources_with_tvg e is tvg w1 of (found, w2) \<Rightarrow>
       ((case r of Some (_, _, tag) \<Rightarrow> if tvg \<in> set (map ci_id (ix_channels tag)) then i # found else found
         | None \<Rightarrow> found), w2)))"

definition find_source_ids_by_tvg :: "epg_env \<Rightarrow> int list \<Rightarrow> string \<Rightarrow> epg_world \<Rightarrow> int list \<times> epg_world" where
  "find_source_ids_by_tvg e is raw w = (if blank raw then ([], w) else sources_with_tvg e is (trim_space raw) w)"

definition open_relay_cache :: "string \<Rightarrow> epg_world \<Rightarrow> epg_file option" where
  "open_relay_cache slug w = map_of (g_cache_dir w) (relay_cache_name slug)"

definition query_source_guide :: "epg_env \<Rightarrow> int \<Rightarrow> string \<Rightarrow> bool \<Rightarrow> guide_query \<Rightarrow> epg_world \<Rightarrow>
    (guide_error + guide_result) \<times> epg_world" where
  "query_source_guide e i url stale q w =
     (case normalize_guide_query q of
        Inl err \<Rightarrow> (Inl err, w)
      | Inr _ \<Rightarrow>
          (case eligible_source e i url w of
             (None, w1) \<Rightarrow> (query_guide (ev_lower e) None stale q, w1)
           | (Some (m, xml, _), w1) \<Rightarrow>
               ((case map_of (g_source_dir w1) xml of
                   Some (XmlFile x) \<Rightarrow> query_guide (ev_lower e) (Some (mf_fetched m, x)) stale q
                 | _ \<Rightarrow> Inl GuideUnreadable), w1)))"

section \<open>Facts about the files\<close>

text \<open>The files of a source are told apart by the dot after their id.\<close>

lemma show_int_dot: "CHR ''.'' \<notin> set (show_int i)"
  using show_int_bytes [of i] by (auto simp: is_digit_char_def less_eq_char_def)

lemma dotted_prefix:
  assumes "prefix (show_int i @ ''.'') (show_int j @ CHR ''.'' # rest)"
  shows "i = j"
proof -
  have "takeWhile (\<lambda>c. c \<noteq> CHR ''.'') (show_int k @ CHR ''.'' # t) = show_int k" for k t
    using show_int_dot [of k] by (auto simp: takeWhile_append)
  moreover obtain zs where "show_int j @ CHR ''.'' # rest = show_int i @ CHR ''.'' # zs"
    using assms by (auto simp: prefix_def)
  ultimately have "show_int j = show_int i" by metis
  then show ?thesis by simp
qed

lemma other_source_file: "i \<noteq> j \<Longrightarrow> \<not> source_file i (generation_xml_name j gen) \<and> \<not> source_file i (manifest_name j)"
  using dotted_prefix [of i j] by (auto simp: source_file_def generation_xml_name_def manifest_name_def)

lemma map_of_drop_files:
  "map_of (drop_files e p dir) k = (if p k \<and> ev_remove_ok e k then None else map_of dir k)"
  by (induction dir) (auto simp: drop_files_def)

lemma delete_keeps_others:
  assumes "i \<noteq> j"
  shows "map_of (g_source_dir (delete_source_files e i w)) (generation_xml_name j gen) =
      map_of (g_source_dir w) (generation_xml_name j gen)"
    "map_of (g_source_dir (delete_source_files e i w)) (manifest_name j) = map_of (g_source_dir w) (manifest_name j)"
proof -
  have "generation_xml_name j gen \<noteq> manifest_name i" "manifest_name j \<noteq> manifest_name i"
    using assms dotted_prefix [of i j]
    by (auto simp: generation_xml_name_def manifest_name_def prefix_def)
  then show "map_of (g_source_dir (delete_source_files e i w)) (generation_xml_name j gen) =
      map_of (g_source_dir w) (generation_xml_name j gen)"
    "map_of (g_source_dir (delete_source_files e i w)) (manifest_name j) = map_of (g_source_dir w) (manifest_name j)"
    using other_source_file [OF assms]
    by (simp_all add: delete_source_files_def map_of_drop_files remove_file_def)
qed

end
