(* ===== verification/EpgWorker.thy ===== *)
theory EpgWorker
  imports EpgFiles
begin

text \<open>
  The guide worker, \<^verbatim>\<open>internal/core/epg/worker.go\<close>: admission, the queues, and the refresh of a source
  (\<^verbatim>\<open>relaysReferencingSource\<close> is from \<^verbatim>\<open>relay_builder.go\<close>).  \<open>EpgBuild\<close> and \<open>EpgDrain\<close> hold the rest of it.

  The pending sets are lists without order: which element \<^verbatim>\<open>range\<close> visits first is \<open>ev_pick\<close>.  The clock
  moves with fetches only.  \<^verbatim>\<open>processSource\<close> is its three stages between the points where it calls the
  network or looks again at the source, so that the changes of other requests can come in between.  The
  cancellation of a drain in its middle shows as a failed fetch; errors are their texts.
\<close>

section \<open>Admission\<close>

definition acquire_admission :: "epg_world \<Rightarrow> bool \<times> epg_world" where
  "acquire_admission w = (if g_open w then (True, w\<lparr>g_held := Suc (g_held w)\<rparr>) else (False, w))"

definition release_admission :: "epg_world \<Rightarrow> epg_world" where
  "release_admission w = (if 0 < g_held w then w\<lparr>g_held := g_held w - 1\<rparr> else w)"

definition close_admission :: "epg_world \<Rightarrow> epg_world" where
  "close_admission w = w\<lparr>g_open := False\<rparr>"

text \<open>\<^verbatim>\<open>WaitAdmissionDrained\<close> returns when this holds.\<close>

definition admission_drained :: "epg_world \<Rightarrow> bool" where
  "admission_drained w \<longleftrightarrow> g_held w = 0"

section \<open>Queueing\<close>

datatype work_kind = SourceWork | RelayWork | DeleteWork

definition wake_worker :: "epg_world \<Rightarrow> epg_world" where
  "wake_worker w = w\<lparr>g_wake := True\<rparr>"

definition enqueue_locked :: "work_kind \<Rightarrow> int \<Rightarrow> epg_world \<Rightarrow> bool \<times> epg_world" where
  "enqueue_locked kind i w =
     (if \<not> g_open w \<and> g_held w = 0 then (False, w)
      else (True, wake_worker (case kind of
          SourceWork \<Rightarrow> w\<lparr>g_sources := List.insert i (g_sources w)\<rparr>
        | RelayWork \<Rightarrow> w\<lparr>g_relays := List.insert i (g_relays w)\<rparr>
        | DeleteWork \<Rightarrow> w\<lparr>g_deletes := List.insert i (g_deletes w)\<rparr>)))"

text \<open>Queue a list; the first refusal ends it.\<close>

fun enqueue_all :: "work_kind \<Rightarrow> int list \<Rightarrow> epg_world \<Rightarrow> bool \<times> epg_world" where
  "enqueue_all kind [] w = (True, w)"
| "enqueue_all kind (i # is) w =
     (case enqueue_locked kind i w of (False, w1) \<Rightarrow> (False, w1) | (True, w1) \<Rightarrow> enqueue_all kind is w1)"

definition enqueue_refresh_source :: "int \<Rightarrow> epg_world \<Rightarrow> bool \<times> epg_world" where
  "enqueue_refresh_source i w = enqueue_locked SourceWork i w"

definition enqueue_refresh_enabled :: "epg_world \<Rightarrow> bool \<times> epg_world" where
  "enqueue_refresh_enabled w = enqueue_all SourceWork (map es_id (list_enabled_epg_sources (g_db w))) w"

definition effective_interval :: "epg_source \<Rightarrow> int" where
  "effective_interval src = (if es_interval src < minute_ns then minute_ns else es_interval src)"

definition source_due :: "epg_env \<Rightarrow> int \<Rightarrow> epg_source \<Rightarrow> bool" where
  "source_due e now src = (case es_last src of None \<Rightarrow> True | Some t \<Rightarrow> effective_interval src \<le> now - ev_time e t)"

definition backing_off :: "int \<Rightarrow> epg_world \<Rightarrow> bool" where
  "backing_off i w = (case map_of (g_retry w) i of None \<Rightarrow> False | Some r \<Rightarrow> g_now w < r)"

definition enqueue_refresh_due :: "epg_env \<Rightarrow> epg_world \<Rightarrow> bool \<times> epg_world" where
  "enqueue_refresh_due e w = enqueue_all SourceWork
     (map es_id (filter (\<lambda>src. source_due e (g_now w) src \<and> \<not> backing_off (es_id src) w)
        (list_enabled_epg_sources (g_db w)))) w"

definition enqueue_rebuild_relays :: "int list \<Rightarrow> epg_world \<Rightarrow> bool \<times> epg_world" where
  "enqueue_rebuild_relays is w = enqueue_all RelayWork (filter (\<lambda>i. 0 < i) is) w"

definition cleanup_slugs :: "int \<Rightarrow> epg_world \<Rightarrow> string list" where
  "cleanup_slugs i w = (case map_of (g_cleanups w) i of None \<Rightarrow> [] | Some c \<Rightarrow> cu_slugs c)"

definition enqueue_relay_cleanup :: "int \<Rightarrow> string \<Rightarrow> epg_world \<Rightarrow> bool \<times> epg_world" where
  "enqueue_relay_cleanup i raw w =
     (let slug = trim_space raw in
      if i \<le> 0 \<or> slug = [] then (True, w)
      else (g_open w \<or> g_held w \<noteq> 0, wake_worker (w\<lparr>g_cleanups :=
        aput i \<lparr> cu_slugs = List.insert slug (cleanup_slugs i w), cu_retry = None \<rparr> (g_cleanups w)\<rparr>)))"

definition invalidate_source :: "int \<Rightarrow> epg_world \<Rightarrow> epg_world" where
  "invalidate_source i w = w\<lparr>g_rev := (g_rev w)(i := g_rev w i + 1), g_indexes := adel i (g_indexes w)\<rparr>"

definition enqueue_delete_source_files :: "int \<Rightarrow> epg_world \<Rightarrow> bool \<times> epg_world" where
  "enqueue_delete_source_files i w = enqueue_locked DeleteWork i (invalidate_source i w)"

section \<open>Taking work\<close>

definition pick_of :: "epg_env \<Rightarrow> epg_world \<Rightarrow> 'a list \<Rightarrow> 'a" where
  "pick_of e w xs = xs ! (ev_pick e (g_calls w) mod length xs)"

definition take_pending :: "epg_env \<Rightarrow> work_kind \<Rightarrow> epg_world \<Rightarrow> int option \<times> epg_world" where
  "take_pending e kind w =
     (let m = (case kind of SourceWork \<Rightarrow> g_sources w | RelayWork \<Rightarrow> g_relays w | DeleteWork \<Rightarrow> g_deletes w) in
      if m = [] then (None, w)
      else let i = pick_of e w m in
        (Some i, (case kind of
            SourceWork \<Rightarrow> w\<lparr>g_sources := removeAll i m\<rparr>
          | RelayWork \<Rightarrow> w\<lparr>g_relays := removeAll i m\<rparr>
          | DeleteWork \<Rightarrow> w\<lparr>g_deletes := removeAll i m\<rparr>)\<lparr>g_calls := Suc (g_calls w)\<rparr>))"

definition cleanup_ready :: "int \<Rightarrow> relay_cleanup \<Rightarrow> bool" where
  "cleanup_ready now c \<longleftrightarrow> cu_slugs c \<noteq> [] \<and> (case cu_retry c of None \<Rightarrow> True | Some r \<Rightarrow> \<not> now < r)"

definition ready_cleanups :: "epg_world \<Rightarrow> (int \<times> relay_cleanup) list" where
  "ready_cleanups w = filter (\<lambda>(_, c). cleanup_ready (g_now w) c) (g_cleanups w)"

definition take_cleanup_ready :: "epg_env \<Rightarrow> epg_world \<Rightarrow> (int \<times> string list) option \<times> epg_world" where
  "take_cleanup_ready e w =
     (if ready_cleanups w = [] then
        (None, w\<lparr>g_cleanups := filter (\<lambda>(_, c). cu_slugs c \<noteq> []) (g_cleanups w)\<rparr>)
      else let (i, c) = pick_of e w (ready_cleanups w) in
        (Some (i, cu_slugs c), (tick w)\<lparr>g_cleanups := adel i (g_cleanups w)\<rparr>))"

definition cleanup_retry_delay :: int where "cleanup_retry_delay = second_ns"

definition defer_cleanup :: "int \<Rightarrow> string list \<Rightarrow> epg_world \<Rightarrow> epg_world" where
  "defer_cleanup i slugs w =
     (if i \<le> 0 \<or> slugs = [] then w
      else w\<lparr>g_cleanups := aput i \<lparr> cu_slugs = fold List.insert slugs (cleanup_slugs i w),
             cu_retry = Some (g_now w + cleanup_retry_delay) \<rparr> (g_cleanups w)\<rparr>)"

definition set_ok :: "epg_world \<Rightarrow> epg_world" where
  "set_ok w = w\<lparr>g_last_ok := Some (g_now w), g_last_error := []\<rparr>"

definition set_error :: "string \<Rightarrow> epg_world \<Rightarrow> epg_world" where
  "set_error msg w = w\<lparr>g_last_error := msg\<rparr>"

fun err_text :: "store_err \<Rightarrow> string" where
  "err_text ErrNotFound = ''not found''"
| "err_text (ErrValidation m) = m"
| "err_text (ErrConflict m) = m"
| "err_text (ErrDb m) = m"

section \<open>processSource\<close>

record refresh =
  rf_id :: int
  rf_rev :: "64 word"
  rf_name :: string
  rf_url :: string
  rf_now :: int

text \<open>The outcome of a stage: finished, with an error or without, or the value the next one needs.\<close>

type_synonym 'v stage = "(string option + 'v) \<times> epg_world"

definition refresh_begin :: "epg_env \<Rightarrow> int \<Rightarrow> epg_world \<Rightarrow> refresh stage" where
  "refresh_begin e i w =
     (case on_db (get_epg_source i) w of
        (Inl ErrNotFound, w1) \<Rightarrow> (Inl None, delete_source_files e i w1)
      | (Inl err, w1) \<Rightarrow> (Inl (Some (err_text err)), w1)
      | (Inr src, w1) \<Rightarrow>
          if backing_off i w1 then (Inl None, w1)
          else (Inr \<lparr> rf_id = i, rf_rev = g_rev w i, rf_name = es_name src, rf_url = es_url src,
                 rf_now = g_now w1 \<rparr>, w1))"

definition next_backoff :: "int \<Rightarrow> int" where
  "next_backoff b = (if b \<le> 0 then second_ns else if b < 5 * minute_ns then b * 2 else b)"

definition refresh_failed :: "epg_env \<Rightarrow> refresh \<Rightarrow> string \<Rightarrow> epg_world \<Rightarrow> epg_world" where
  "refresh_failed e rf msg w =
     (let w1 = snd (on_db (mark_epg_refresh_error (rf_id rf) msg (ev_stamp e (g_now w))) w);
          b = next_backoff (case map_of (g_backoff w1) (rf_id rf) of None \<Rightarrow> 0 | Some b \<Rightarrow> b)
      in w1\<lparr>g_backoff := aput (rf_id rf) b (g_backoff w1),
            g_retry := aput (rf_id rf) (g_now w1 + b) (g_retry w1), g_last_error := msg\<rparr>)"

text \<open>The check after the fetch, and the files of the new generation.\<close>

record written =
  wr_url :: string
  wr_gen :: string
  wr_channels :: "channel_info list"

definition refresh_write :: "epg_env \<Rightarrow> refresh \<Rightarrow> tv_document \<Rightarrow> epg_world \<Rightarrow> written stage" where
  "refresh_write e rf doc w =
     (case on_db (get_epg_source (rf_id rf)) w of
        (Inl err, w1) \<Rightarrow> (Inl (Some (err_text err)), w1)
      | (Inr src2, w1) \<Rightarrow>
          if g_rev w1 (rf_id rf) \<noteq> rf_rev rf \<or> normalize_source_url (es_url src2) \<noteq> normalize_source_url (rf_url rf)
          then (Inl None, w1)
          else case write_source_generation_files e (rf_id rf) (es_url src2) doc w1 of
              (None, w2) \<Rightarrow> (Inl (Some ''write failed''),
                 snd (on_db (mark_epg_refresh_error (rf_id rf) ''write failed'' (ev_stamp e (g_now w2))) w2))
            | (Some (gen, chs), w2) \<Rightarrow> (Inr \<lparr> wr_url = es_url src2, wr_gen = gen, wr_channels = chs \<rparr>, w2))"

definition relays_referencing_source :: "int \<Rightarrow> db \<Rightarrow> int list" where
  "relays_referencing_source i d =
     uniq_acc [] (map em_relay (filter (\<lambda>m. em_source m = i) (list_all_relay_epg_mappings d)))"

definition refresh_publish :: "epg_env \<Rightarrow> refresh \<Rightarrow> written \<Rightarrow> epg_world \<Rightarrow> string option \<times> epg_world" where
  "refresh_publish e rf wr w =
     (let i = rf_id rf; url = normalize_source_url (wr_url wr) in
      if g_rev w i \<noteq> rf_rev rf then (None, remove_generation e i (wr_gen wr) w)
      else case on_db (get_epg_source i) w of
          (Inl err, w1) \<Rightarrow> (Some (err_text err), remove_generation e i (wr_gen wr) w1)
        | (Inr src3, w1) \<Rightarrow>
            if normalize_source_url (es_url src3) \<noteq> url then (None, remove_generation e i (wr_gen wr) w1)
            else case write_source_manifest e i
                \<lparr> mf_generation = wr_gen wr, mf_url = url, mf_fetched = rfc3339 (rf_now rf) \<rparr> w1 of
                (False, w2) \<Rightarrow> (Some ''write failed'',
                   snd (on_db (mark_epg_refresh_error i ''write failed'' (ev_stamp e (g_now w2)))
                     (remove_generation e i (wr_gen wr) w2)))
              | (True, w2) \<Rightarrow>
                  (let w3 = (keep_index i \<lparr> ix_url = url, ix_generation = wr_gen wr, ix_channels = wr_channels wr \<rparr> w2)
                         \<lparr>g_retry := adel i (g_retry w2), g_backoff := adel i (g_backoff w2)\<rparr>;
                       w4 = snd (on_db (mark_epg_refresh i (ev_stamp e (rf_now rf)) [] (ev_stamp e (g_now w3))) w3)
                   in (None, set_ok (snd (enqueue_rebuild_relays (relays_referencing_source i (g_db w4)) w4)))))"

definition process_source :: "epg_env \<Rightarrow> int \<Rightarrow> epg_world \<Rightarrow> string option \<times> epg_world" where
  "process_source e i w =
     (case refresh_begin e i w of
        (Inl err, w1) \<Rightarrow> (err, w1)
      | (Inr rf, w1) \<Rightarrow>
          (case fetch_source e (rf_url rf) w1 of
             (Inl msg, w2) \<Rightarrow> (Some (''source '' @ rf_name rf @ '': '' @ msg), refresh_failed e rf msg w2)
           | (Inr doc, w2) \<Rightarrow>
               (case refresh_write e rf doc w2 of
                  (Inl err, w3) \<Rightarrow> (err, w3)
                | (Inr wr, w3) \<Rightarrow> refresh_publish e rf wr w3)))"

end
