(* ===== verification/EpgBuild.thy ===== *)
theory EpgBuild
  imports EpgWorker
begin

text \<open>
  The two other jobs of the guide worker: \<^verbatim>\<open>processRelay\<close> (\<^verbatim>\<open>relay_builder.go\<close>) writes a relay's guide from the
  guides of its sources, \<^verbatim>\<open>processCleanup\<close> (\<^verbatim>\<open>worker.go\<close>) removes the guides of slugs nobody has any more.
\<close>

section \<open>processRelay\<close>

text \<open>For each source of a relay the ids it needs, with their public names.\<close>

definition add_mapping :: "(int \<times> (string \<times> string) list) list \<Rightarrow> epg_mapping \<Rightarrow> (int \<times> (string \<times> string) list) list" where
  "add_mapping out m =
     (let pub = public_tvg_id (em_source m) (em_tvg m) in
      if pub = [] then out
      else aput (em_source m)
        (aput (em_tvg m) pub (case map_of out (em_source m) of None \<Rightarrow> [] | Some r \<Rightarrow> r)) out)"

definition relay_mappings :: "int \<Rightarrow> db \<Rightarrow> (int \<times> (string \<times> string) list) list" where
  "relay_mappings i d = foldl add_mapping [] (filter (\<lambda>m. em_relay m = i) (list_all_relay_epg_mappings d))"

text \<open>The guides of the sources, or the message why one is missing.\<close>

fun load_docs :: "epg_env \<Rightarrow> string \<Rightarrow> int list \<Rightarrow> epg_world \<Rightarrow> (string + (int \<times> tv_document) list) \<times> epg_world" where
  "load_docs e slug [] w = (Inr [], w)"
| "load_docs e slug (i # is) w =
     (case on_db (get_epg_source i) w of
        (Inl _, w1) \<Rightarrow> (Inl (''relay '' @ slug @ '' incomplete: source '' @ show_int i @ '' unavailable''), w1)
      | (Inr src, w1) \<Rightarrow>
          (case eligible_source e i (es_url src) w1 of
             (None, w2) \<Rightarrow> (Inl (''relay '' @ slug @ '' incomplete: source '' @ es_name src @ '' unavailable''), w2)
           | (Some (_, xml, _), w2) \<Rightarrow>
               (case load_source_doc xml w2 of
                  None \<Rightarrow> (Inl (''relay '' @ slug @ '' incomplete: source '' @ es_name src @ '' unreadable''), w2)
                | Some doc \<Rightarrow>
                    (case load_docs e slug is w2 of
                       (Inl msg, w3) \<Rightarrow> (Inl msg, w3) | (Inr docs, w3) \<Rightarrow> (Inr ((i, doc) # docs), w3)))))"

definition merge_docs :: "(int \<times> (string \<times> string) list) list \<Rightarrow> (int \<times> tv_document) list \<Rightarrow> tv_document" where
  "merge_docs allowed docs = foldl (\<lambda>dst (i, rewrite). merge_document dst (map_of docs i) rewrite)
     \<lparr> td_generator = ''tvr'', td_channels = [], td_programmes = [] \<rparr> allowed"

definition process_relay :: "epg_env \<Rightarrow> int \<Rightarrow> epg_world \<Rightarrow> string option \<times> epg_world" where
  "process_relay e i w =
     (case on_db (get_relay i) w of
        (Inl ErrNotFound, w1) \<Rightarrow> (None, w1)
      | (Inl err, w1) \<Rightarrow> (Some (err_text err), w1)
      | (Inr relay, w1) \<Rightarrow>
          (let allowed = relay_mappings i (g_db w1) in
           case load_docs e (rl_slug relay) (map fst allowed) w1 of
             (Inl msg, w2) \<Rightarrow> (None, set_error msg w2)
           | (Inr docs, w2) \<Rightarrow>
               (case write_relay_cache e (rl_slug relay) (merge_docs allowed docs) w2 of
                  (False, w3) \<Rightarrow> (Some ''write failed'', w3)
                | (True, w3) \<Rightarrow> (None, set_ok w3))))"

section \<open>processCleanup\<close>

text \<open>One old slug: the world after it, and whether it stays pending.\<close>

definition cleanup_slug :: "epg_env \<Rightarrow> relay_row option \<Rightarrow> string \<Rightarrow> epg_world \<Rightarrow> bool \<times> epg_world" where
  "cleanup_slug e relay raw w =
     (let slug = trim_space raw in
      if slug = [] then (False, w)
      else case on_db (get_relay_by_slug slug) w of
          (Inr _, w1) \<Rightarrow> (False, w1)
        | (Inl ErrNotFound, w1) \<Rightarrow>
            (if (case relay of Some r \<Rightarrow> rl_slug r = slug | None \<Rightarrow> False) then (False, w1)
             else if (case relay of Some r \<Rightarrow> map_of (g_cache_dir w1) (relay_cache_name (rl_slug r)) = None
                      | None \<Rightarrow> False) then (True, w1)
             else (map_of (g_cache_dir w1) (relay_cache_name slug) \<noteq> None \<and> \<not> ev_remove_ok e (relay_cache_name slug),
                   w1\<lparr>g_cache_dir := remove_file e (relay_cache_name slug) (g_cache_dir w1)\<rparr>))
        | (Inl _, w1) \<Rightarrow> (True, w1))"

fun cleanup_all :: "epg_env \<Rightarrow> relay_row option \<Rightarrow> string list \<Rightarrow> epg_world \<Rightarrow> string list \<times> epg_world" where
  "cleanup_all e relay [] w = ([], w)"
| "cleanup_all e relay (s # ss) w =
     (case cleanup_slug e relay s w of (keep, w1) \<Rightarrow>
      (case cleanup_all e relay ss w1 of (pending, w2) \<Rightarrow> (if keep then trim_space s # pending else pending, w2)))"

definition process_cleanup :: "epg_env \<Rightarrow> int \<Rightarrow> string list \<Rightarrow> epg_world \<Rightarrow> epg_world" where
  "process_cleanup e i slugs w =
     (if slugs = [] then w
      else case on_db (get_relay i) w of
          (Inl ErrNotFound, w1) \<Rightarrow>
            (case cleanup_all e None slugs w1 of (pending, w2) \<Rightarrow> defer_cleanup i pending w2)
        | (Inl _, w1) \<Rightarrow> defer_cleanup i slugs w1
        | (Inr relay, w1) \<Rightarrow>
            (case cleanup_all e (Some relay) slugs w1 of (pending, w2) \<Rightarrow> defer_cleanup i pending w2))"

end
