(* ===== verification/EpgFrames.thy ===== *)
theory EpgFrames
  imports EpgBuild
begin

text \<open>
  What the worker's jobs leave alone.  A relation between the state before and after that holds of the
  steps below, and of a few steps of the job at hand, holds of the whole job: the locale \<open>epg_frame\<close> and its
  extensions.  The termination of the drain, the safety of the guides of live relays and the invariants of
  the server are interpretations.
\<close>

section \<open>Steps on files and indexes\<close>

text \<open>Nothing but guide files, indexes, delays, status and the wake-up has changed.\<close>

definition files_only :: "epg_world \<Rightarrow> epg_world \<Rightarrow> bool" where
  "files_only w w' \<longleftrightarrow> g_open w' = g_open w \<and> g_held w' = g_held w \<and> g_sources w' = g_sources w \<and> g_relays w' = g_relays w \<and>
     g_deletes w' = g_deletes w \<and> g_cleanups w' = g_cleanups w \<and> g_rev w' = g_rev w \<and> g_busy w' = g_busy w \<and>
     g_cache_dir w' = g_cache_dir w \<and> g_now w' = g_now w \<and> g_db w' = g_db w"

named_theorems file_steps "jobs that touch files only"

lemma files_refl [file_steps]: "files_only w w"
  by (simp add: files_only_def)

lemma files_trans: "files_only w w1 \<Longrightarrow> files_only w1 w2 \<Longrightarrow> files_only w w2"
  by (simp add: files_only_def)

lemma files_of: "p = (r, w') \<Longrightarrow> files_only w (snd p) \<Longrightarrow> files_only w w'"
  by simp

text \<open>The reads of the store.\<close>

lemma on_db_reads [simp]:
  "snd (on_db (get_epg_source i) w) = w" "snd (on_db (get_relay i) w) = w" "snd (on_db (get_relay_by_slug s) w) = w"
  by (auto simp: on_db_def get_epg_source_def get_relay_def get_relay_by_slug_def split: prod.split option.split)

lemma on_db_read_eq:
  "on_db (get_epg_source i) w = (r, w') \<Longrightarrow> w' = w" "on_db (get_relay i) w = (r', w') \<Longrightarrow> w' = w"
  "on_db (get_relay_by_slug s) w = (r', w') \<Longrightarrow> w' = w"
  using on_db_reads by (metis snd_conv)+

lemma files_simple [file_steps]:
  "files_only w (set_ok w)" "files_only w (set_error msg w)" "files_only w (delete_source_files e i w)"
  "files_only w (keep_index i tag w)" "files_only w (remove_generation e i gen w)"
  "files_only w (snd (write_source_manifest e i m w))" "files_only w (snd (write_generation_index e i gen url chs w))"
  "files_only w (snd (write_generation_xml e i gen doc w))" "files_only w (tick w)"
  by (simp_all add: files_only_def set_ok_def set_error_def delete_source_files_def keep_index_def remove_generation_def
      write_source_manifest_def write_generation_index_def write_generation_xml_def tick_def split: prod.split)

lemma files_generation [file_steps]: "files_only w (snd (write_source_generation_files e i url doc w))"
proof -
  obtain ok1 w1 where 1: "write_generation_xml e i (ev_gen e (g_calls w)) doc (tick w) = (ok1, w1)" by fastforce
  obtain ok2 w2 where 2: "write_generation_index e i (ev_gen e (g_calls w)) url (index_from_doc (ev_lower e) doc) w1 = (ok2, w2)"
    by fastforce
  have "files_only w w1" using files_trans [OF files_simple(9)] files_of [OF 1 files_simple(8)] by blast
  moreover from this have "files_only w w2" using files_trans files_of [OF 2 files_simple(7)] by blast
  ultimately show ?thesis
    using 1 2 by (auto simp: write_source_generation_files_def Let_def files_only_def split: bool.split)
qed

lemma files_eligible [file_steps]: "files_only w (snd (eligible_source e i url w))"
proof -
  have rebuild: "files_only w (snd (rebuild_index e i gen u w))" for gen u
    by (auto simp: rebuild_index_def file_steps Let_def split: option.split)
  have reload: "files_only w (snd (reload_index e i gen u w))" for gen u
    using rebuild by (auto simp: reload_index_def file_steps split: option.split)
  have "files_only w w1" if "reload_index e i gen u w = (r, w1)" for gen u r w1
    using reload [of gen u] that by simp
  then show ?thesis
    by (auto simp: eligible_source_def Let_def file_steps files_trans [OF _ files_simple(4)]
        split: option.splits prod.splits)
qed

lemma files_load_docs [file_steps]: "files_only w (snd (load_docs e slug is w))"
proof (induction "is" arbitrary: w)
  case (Cons i "is")
  obtain r1 w1 where 1: "on_db (get_epg_source i) w = (r1, w1)" by fastforce
  note [simp] = on_db_read_eq(1) [OF 1]
  show ?case
  proof (cases r1)
    case (Inr src)
    obtain r2 w2 where 2: "eligible_source e i (es_url src) w = (r2, w2)" by fastforce
    have w2: "files_only w w2" using files_of [OF 2 files_eligible] .
    obtain r3 w3 where 3: "load_docs e slug is w2 = (r3, w3)" by fastforce
    have "files_only w w3" using Cons.IH [of w2] files_trans [OF w2] 3 by simp
    then show ?thesis using 1 2 3 w2 Inr by (auto split: option.split sum.split)
  qed (use 1 files_refl in simp)
qed (simp add: file_steps)

lemma files_begin [file_steps]: "files_only w (snd (refresh_begin e i w))"
proof -
  obtain r w1 where 1: "on_db (get_epg_source i) w = (r, w1)" by fastforce
  show ?thesis using 1 on_db_read_eq(1) [OF 1]
    by (auto simp: refresh_begin_def file_steps split: sum.split store_err.split)
qed

section \<open>Frames\<close>

locale epg_frame =
  fixes R :: "epg_world \<Rightarrow> epg_world \<Rightarrow> bool"
  assumes trans: "R w w1 \<Longrightarrow> R w1 w2 \<Longrightarrow> R w w2"
    and files: "files_only w w' \<Longrightarrow> R w w'"
    and marks: "R w (snd (on_db (mark_epg_refresh i t m n) w))" "R w (snd (on_db (mark_epg_refresh_error i m n) w))"
begin

lemma refl: "R w w"
  by (rule files) (rule files_refl)

lemma step: "R w w1 \<Longrightarrow> files_only w1 w2 \<Longrightarrow> R w w2"
  using trans files by blast

lemma failed_frame: "R w (refresh_failed e rf msg w)"
  by (rule step [OF marks(2) [of w "rf_id rf" msg "ev_stamp e (g_now w)"]])
    (simp add: refresh_failed_def Let_def files_only_def)

lemma write_frame: "R w (snd (refresh_write e rf doc w))"
proof -
  obtain r1 w1 where 1: "on_db (get_epg_source (rf_id rf)) w = (r1, w1)" by fastforce
  note [simp] = on_db_read_eq(1) [OF 1]
  show ?thesis
  proof (cases r1)
    case (Inr src)
    obtain r2 w2 where 2: "write_source_generation_files e (rf_id rf) (es_url src) doc w = (r2, w2)" by fastforce
    have "R w w2" using files files_of [OF 2 files_generation] by blast
    then show ?thesis using 1 2 Inr trans marks(2) refl
      by (auto simp: refresh_write_def split: option.split)
  qed (use 1 refl in \<open>simp add: refresh_write_def\<close>)
qed

end

text \<open>A refresh queues relays and takes time.\<close>

locale epg_refresh_frame = epg_frame +
  assumes later: "g_now w \<le> t \<Longrightarrow> R w (w\<lparr>g_now := t\<rparr>)"
    and queued: "R w (w\<lparr>g_relays := l\<rparr>)"
begin

lemma enqueue_frame: "R w (snd (enqueue_all RelayWork is w))"
proof (induction "is" arbitrary: w)
  case (Cons i "is")
  obtain ok w1 where 1: "enqueue_locked RelayWork i w = (ok, w1)" by fastforce
  have "R w (wake_worker (w\<lparr>g_relays := List.insert i (g_relays w)\<rparr>))"
    by (rule step [OF queued]) (simp add: wake_worker_def files_only_def)
  then have "R w w1" using 1 refl by (auto simp: enqueue_locked_def split: if_splits)
  then show ?case using 1 Cons.IH [of w1] trans by (auto split: bool.split)
qed (simp add: refl)

lemma fetch_frame: "R w (snd (fetch_source e url w))"
proof -
  have "snd (fetch_source e url w) = (tick w)\<lparr>g_now := g_now w + int (ev_elapsed e (g_calls w))\<rparr>"
    by (simp add: fetch_source_def Let_def)
  moreover have "R (tick w) ((tick w)\<lparr>g_now := g_now w + int (ev_elapsed e (g_calls w))\<rparr>)"
    by (rule later) (simp add: tick_def)
  ultimately show ?thesis using trans [OF files [OF files_simple(9)]] by metis
qed

lemma publish_frame: "R w (snd (refresh_publish e rf wr w))"
proof -
  let ?i = "rf_id rf"
  obtain r1 w1 where 1: "on_db (get_epg_source ?i) w = (r1, w1)" by fastforce
  note [simp] = on_db_read_eq(1) [OF 1]
  have gone: "R w (remove_generation e ?i g w)" for g by (rule files) (rule files_simple)
  obtain ok w2 where 2: "write_source_manifest e ?i \<lparr> mf_generation = wr_gen wr, mf_url = normalize_source_url (wr_url wr),
      mf_fetched = rfc3339 (rf_now rf) \<rparr> w = (ok, w2)" by fastforce
  have w2: "files_only w w2" using files_of [OF 2 files_simple(6)] .
  have fail: "R w (snd (on_db (mark_epg_refresh_error j m n) (remove_generation e ?i g w2)))" for j m n g
    using trans [OF files [OF files_trans [OF w2 files_simple(5)]] marks(2)] .
  have fin: "R w (set_ok (snd (enqueue_rebuild_relays is w4)))" if "R w w4" for "is" w4
    unfolding enqueue_rebuild_relays_def using step [OF trans [OF that enqueue_frame] files_simple(1)] .
  have keep: "R w (snd (on_db (mark_epg_refresh j t m n) ((keep_index ?i tag w2)\<lparr>g_retry := a, g_backoff := b\<rparr>)))"
    for j t m n tag a b
    by (rule trans [OF files marks(1)]) (use w2 in \<open>simp add: files_only_def keep_index_def\<close>)
  show ?thesis
    using 1 2 gone fail keep fin
    by (cases r1; cases ok) (auto simp: refresh_publish_def Let_def)
qed

lemma source_frame: "R w (snd (process_source e i w))"
proof -
  obtain r1 w1 where 1: "refresh_begin e i w = (r1, w1)" by fastforce
  have w1: "R w w1" using files files_of [OF 1 files_begin] by blast
  show ?thesis
  proof (cases r1)
    case (Inr rf)
    obtain r2 w2 where 2: "fetch_source e (rf_url rf) w1 = (r2, w2)" by fastforce
    have w2: "R w w2" using trans [OF w1] fetch_frame [of w1 e "rf_url rf"] 2 by simp
    show ?thesis
    proof (cases r2)
      case (Inl msg)
      then show ?thesis using 1 2 Inr trans [OF w2 failed_frame] by (simp add: process_source_def)
    next
      case (Inr doc)
      obtain r3 w3 where 3: "refresh_write e rf doc w2 = (r3, w3)" by fastforce
      have w3: "R w w3" using trans [OF w2] write_frame [of w2 e rf doc] 3 by simp
      then show ?thesis
        using 1 2 3 \<open>r1 = Inr rf\<close> Inr trans [OF w3 publish_frame]
        by (cases r3) (simp_all add: process_source_def)
    qed
  qed (use 1 w1 in \<open>simp add: process_source_def\<close>)
qed

end

text \<open>The guides of relays are written and removed.\<close>

locale epg_cache_frame = epg_frame +
  assumes cached: "R w (snd (write_relay_cache e slug doc w))"
    and slug: "R w (snd (cleanup_slug e relay s w))"
begin

lemma relay_frame: "R w (snd (process_relay e i w))"
proof -
  obtain r1 w1 where 1: "on_db (get_relay i) w = (r1, w1)" by fastforce
  note [simp] = on_db_read_eq(2) [OF 1]
  show ?thesis
  proof (cases r1)
    case (Inl err)
    then show ?thesis using 1 refl by (cases err) (simp_all add: process_relay_def)
  next
    case (Inr relay)
    obtain r2 w2 where 2: "load_docs e (rl_slug relay) (map fst (relay_mappings i (g_db w))) w = (r2, w2)" by fastforce
    have w2: "files_only w w2" using files_of [OF 2 files_load_docs] .
    show ?thesis
    proof (cases r2)
      case (Inl msg)
      then show ?thesis
        using 1 2 Inr files [OF files_trans [OF w2 files_simple(2)]] by (simp add: process_relay_def Let_def)
    next
      case (Inr docs)
      obtain ok w3 where 3: "write_relay_cache e (rl_slug relay) (merge_docs (relay_mappings i (g_db w)) docs) w2 = (ok, w3)"
        by fastforce
      have w3: "R w w3"
        using trans [OF files [OF w2]] cached [of w2 e "rl_slug relay" "merge_docs (relay_mappings i (g_db w)) docs"] 3 by simp
      then show ?thesis
        using 1 2 3 \<open>r1 = Inr relay\<close> Inr step [OF w3 files_simple(1)]
        by (cases ok) (simp_all add: process_relay_def Let_def)
    qed
  qed
qed

lemma cleanup_all_frame: "R w (snd (cleanup_all e relay ss w))"
proof (induction ss arbitrary: w)
  case (Cons s ss)
  obtain k w1 where 1: "cleanup_slug e relay s w = (k, w1)" by fastforce
  then have "R w w1" using slug [of w e relay s] by simp
  then show ?case using 1 Cons.IH [of w1] trans by (auto split: prod.split)
qed (simp add: refl)

end

end
