(* ===== verification/EpgDrain.thy ===== *)
theory EpgDrain
  imports EpgFrames
begin

text \<open>
  \<^verbatim>\<open>drain\<close>, the loop of the guide worker, \<^verbatim>\<open>nextDelay\<close>, \<^verbatim>\<open>Status\<close> and \<^verbatim>\<open>reconcileStartup\<close>.  \<open>drain\<close> is total: a
  pass over the queues leaves nothing to do but the cleanups it has put off, and those wait for the clock.
\<close>

section \<open>What the jobs leave alone\<close>

text \<open>The queues and the clock: what the loops of \<open>drain\<close> count.\<close>

definition same_queues :: "epg_world \<Rightarrow> epg_world \<Rightarrow> bool" where
  "same_queues w w' \<longleftrightarrow> g_deletes w' = g_deletes w \<and> g_sources w' = g_sources w \<and> g_cleanups w' = g_cleanups w \<and>
     g_open w' = g_open w \<and> g_held w' = g_held w"

definition same_work :: "epg_world \<Rightarrow> epg_world \<Rightarrow> bool" where
  "same_work w w' \<longleftrightarrow> same_queues w w' \<and> g_relays w' = g_relays w \<and> g_now w' = g_now w"

lemmas work_defs = same_work_def same_queues_def

lemma on_db_work: "same_work w (snd (on_db m w))"
  by (simp add: on_db_def work_defs split: prod.split)

lemma slug_work: "same_work w (snd (cleanup_slug e relay s w))"
  using on_db_work [of w "get_relay_by_slug (trim_space s)"]
  by (cases "on_db (get_relay_by_slug (trim_space s)) w")
    (auto simp: cleanup_slug_def Let_def work_defs split: sum.split store_err.split)

interpretation work: epg_cache_frame same_work
  by unfold_locales
    (auto simp: work_defs files_only_def write_relay_cache_def on_db_work [unfolded work_defs] slug_work [unfolded work_defs]
      split: prod.split)

text \<open>A refresh may queue relays, and takes time.\<close>

definition same_but_relays :: "epg_world \<Rightarrow> epg_world \<Rightarrow> bool" where
  "same_but_relays w w' \<longleftrightarrow> same_queues w w' \<and> g_now w \<le> g_now w'"

interpretation refreshing: epg_refresh_frame same_but_relays
  by unfold_locales
    (auto simp: same_but_relays_def same_queues_def files_only_def on_db_work [unfolded work_defs])

section \<open>Cleanups\<close>

definition ready_count :: "epg_world \<Rightarrow> nat" where
  "ready_count w = length (ready_cleanups w)"

lemma ready_count_aput:
  "\<not> cleanup_ready now c \<Longrightarrow>
   length (filter (\<lambda>(_, c). cleanup_ready now c) (aput i c cs)) \<le> length (filter (\<lambda>(_, c). cleanup_ready now c) cs)"
  by (induction i c cs rule: aput.induct) auto

lemma defer_ready: "ready_count (defer_cleanup i slugs w) \<le> ready_count w"
proof -
  have "\<not> cleanup_ready (g_now w) \<lparr> cu_slugs = ss, cu_retry = Some (g_now w + cleanup_retry_delay) \<rparr>" for ss
    by (simp add: cleanup_ready_def cleanup_retry_delay_def second_ns_def)
  from ready_count_aput [OF this, of i _ "g_cleanups w"] show ?thesis
    by (simp add: ready_count_def ready_cleanups_def defer_cleanup_def)
qed

text \<open>Everything but the cleanups stays.\<close>

definition same_but_cleanups :: "epg_world \<Rightarrow> epg_world \<Rightarrow> bool" where
  "same_but_cleanups w w' \<longleftrightarrow> g_deletes w' = g_deletes w \<and> g_sources w' = g_sources w \<and> g_relays w' = g_relays w \<and>
     g_now w' = g_now w"

lemma ready_count_work: "same_work w w' \<Longrightarrow> ready_count w' = ready_count w"
  by (simp add: work_defs ready_count_def ready_cleanups_def)

lemma defer_same: "same_but_cleanups w (defer_cleanup i slugs w)"
  by (simp add: same_but_cleanups_def defer_cleanup_def)

lemma cleanup_work: "same_but_cleanups w (process_cleanup e i slugs w)"
  "ready_count (process_cleanup e i slugs w) \<le> ready_count w"
proof -
  have via: "same_but_cleanups w (defer_cleanup i p w2) \<and> ready_count (defer_cleanup i p w2) \<le> ready_count w"
    if "same_work w w2" for p w2
    using that defer_same [of w2 i p] defer_ready [of i p w2] ready_count_work [OF that]
    by (simp add: same_but_cleanups_def work_defs)
  obtain r1 w1 where 1: "on_db (get_relay i) w = (r1, w1)" by fastforce
  have w1: "same_work w w1" using work.refl on_db_read_eq(2) [OF 1] by simp
  have all: "same_work w (snd (cleanup_all e relay slugs w1))" for relay
    using work.trans [OF w1 work.cleanup_all_frame] .
  have "same_but_cleanups w (process_cleanup e i slugs w) \<and> ready_count (process_cleanup e i slugs w) \<le> ready_count w"
    using 1 via [OF w1] via [OF all [of None]] via [OF all [of "Some (projr r1)"]]
    by (cases r1) (auto simp: process_cleanup_def same_but_cleanups_def split: prod.split store_err.split)
  then show "same_but_cleanups w (process_cleanup e i slugs w)"
    "ready_count (process_cleanup e i slugs w) \<le> ready_count w" by blast+
qed

section \<open>drain\<close>

lemma pick_of_in: "xs \<noteq> [] \<Longrightarrow> pick_of e w xs \<in> set xs"
  by (simp add: pick_of_def)

lemma take_pending_less:
  "take_pending e DeleteWork w = (Some i, w1) \<Longrightarrow> length (g_deletes w1) < length (g_deletes w)"
  "take_pending e SourceWork w = (Some i, w1) \<Longrightarrow> length (g_sources w1) < length (g_sources w)"
  "take_pending e RelayWork w = (Some i, w1) \<Longrightarrow> length (g_relays w1) < length (g_relays w)"
  by (auto simp: take_pending_def Let_def pick_of_in length_removeAll_less split: if_splits)

function drain_deletes :: "epg_env \<Rightarrow> epg_world \<Rightarrow> bool \<times> epg_world" where
  "drain_deletes e w =
     (case take_pending e DeleteWork w of
        (None, w1) \<Rightarrow> (False, w1)
      | (Some i, w1) \<Rightarrow> (True, snd (drain_deletes e (delete_source_files e i w1))))"
  by pat_completeness auto
termination
proof (relation "measure (\<lambda>(_, w). length (g_deletes w))", goal_cases)
  case (2 e w x w1 i)
  then have "length (g_deletes w1) < length (g_deletes w)" using take_pending_less(1) by metis
  then show ?case by (simp add: delete_source_files_def)
qed simp

declare drain_deletes.simps [simp del]

definition first_error :: "string option \<Rightarrow> string option \<Rightarrow> string option" where
  "first_error err r = (case err of None \<Rightarrow> r | Some _ \<Rightarrow> err)"

function drain_sources :: "epg_env \<Rightarrow> string option \<Rightarrow> epg_world \<Rightarrow> bool \<times> string option \<times> epg_world" where
  "drain_sources e err w =
     (case take_pending e SourceWork w of
        (None, w1) \<Rightarrow> (False, err, w1)
      | (Some i, w1) \<Rightarrow>
          (True, snd (drain_sources e (first_error err (fst (process_source e i w1))) (snd (process_source e i w1)))))"
  by pat_completeness auto
termination
proof (relation "measure (\<lambda>(_, _, w). length (g_sources w))", goal_cases)
  case (2 e err w x w1 i)
  then have "length (g_sources w1) < length (g_sources w)" using take_pending_less(2) by metis
  then show ?case using refreshing.source_frame [of w1 e i] by (simp add: same_but_relays_def same_queues_def)
qed simp

declare drain_sources.simps [simp del]

function drain_relays :: "epg_env \<Rightarrow> string option \<Rightarrow> epg_world \<Rightarrow> bool \<times> string option \<times> epg_world" where
  "drain_relays e err w =
     (case take_pending e RelayWork w of
        (None, w1) \<Rightarrow> (False, err, w1)
      | (Some i, w1) \<Rightarrow>
          (True, snd (drain_relays e (first_error err (fst (process_relay e i w1))) (snd (process_relay e i w1)))))"
  by pat_completeness auto
termination
proof (relation "measure (\<lambda>(_, _, w). length (g_relays w))", goal_cases)
  case (2 e err w x w1 i)
  then have "length (g_relays w1) < length (g_relays w)" using take_pending_less(3) by metis
  then show ?case using work.relay_frame [of w1 e i] by (simp add: same_work_def)
qed simp

declare drain_relays.simps [simp del]

lemma ready_adel:
  assumes "(i, c) \<in> set cs" "cleanup_ready now c"
  shows "length (filter (\<lambda>(_, c). cleanup_ready now c) (adel i cs)) < length (filter (\<lambda>(_, c). cleanup_ready now c) cs)"
proof -
  have "length (filter (\<lambda>(_, c). cleanup_ready now c) (adel i cs)) \<le> length (filter (\<lambda>(_, c). cleanup_ready now c) cs)" for cs
    by (induction cs) auto
  then show ?thesis using assms
    by (induction cs) (auto simp: less_Suc_eq_le)
qed

lemma take_cleanup_less: "take_cleanup_ready e w = (Some x, w1) \<Longrightarrow> ready_count w1 < ready_count w"
proof -
  assume t: "take_cleanup_ready e w = (Some x, w1)"
  then have ne: "ready_cleanups w \<noteq> []" by (auto simp: take_cleanup_ready_def split: if_splits)
  obtain i c where p: "pick_of e w (ready_cleanups w) = (i, c)" by fastforce
  then have "(i, c) \<in> set (ready_cleanups w)" using pick_of_in [OF ne] by metis
  then have "(i, c) \<in> set (g_cleanups w)" "cleanup_ready (g_now w) c" by (auto simp: ready_cleanups_def)
  moreover have "g_cleanups w1 = adel i (g_cleanups w)" "g_now w1 = g_now w"
    using t ne p by (auto simp: take_cleanup_ready_def tick_def)
  ultimately show ?thesis using ready_adel by (simp add: ready_count_def ready_cleanups_def)
qed

function drain_cleanups :: "epg_env \<Rightarrow> epg_world \<Rightarrow> bool \<times> epg_world" where
  "drain_cleanups e w =
     (case take_cleanup_ready e w of
        (None, w1) \<Rightarrow> (False, w1)
      | (Some (i, slugs), w1) \<Rightarrow> (True, snd (drain_cleanups e (process_cleanup e i slugs w1))))"
  by pat_completeness auto
termination
proof (relation "measure (\<lambda>(_, w). ready_count w)", goal_cases)
  case (2 e w x w1 y i slugs)
  then have "ready_count w1 < ready_count w" using take_cleanup_less by metis
  then show ?case using cleanup_work(2) [where w = w1] by (metis (no_types) in_measure order_le_less_trans prod.case)
qed simp

declare drain_cleanups.simps [simp del]

text \<open>Relays are rebuilt before the cleanups, so that the file of a renamed relay exists first.\<close>

definition drain_pass :: "epg_env \<Rightarrow> string option \<Rightarrow> epg_world \<Rightarrow> bool \<times> string option \<times> epg_world" where
  "drain_pass e err w =
     (case drain_deletes e w of (d, w1) \<Rightarrow>
      (case drain_sources e err w1 of (s, err2, w2) \<Rightarrow>
       (case drain_relays e err2 w2 of (r, err3, w3) \<Rightarrow>
        (case drain_cleanups e w3 of (c, w4) \<Rightarrow> (d \<or> s \<or> r \<or> c, err3, w4)))))"

section \<open>What a pass leaves\<close>

lemma take_pending_None:
  "take_pending e DeleteWork w = (None, w1) \<Longrightarrow> w1 = w \<and> g_deletes w = []"
  "take_pending e SourceWork w = (None, w1) \<Longrightarrow> w1 = w \<and> g_sources w = []"
  "take_pending e RelayWork w = (None, w1) \<Longrightarrow> w1 = w \<and> g_relays w = []"
  by (auto simp: take_pending_def Let_def split: if_splits)

lemma take_pending_frames:
  "take_pending e DeleteWork w = (r, w1) \<Longrightarrow> g_sources w1 = g_sources w \<and> g_relays w1 = g_relays w"
  "take_pending e SourceWork w = (r, w1) \<Longrightarrow> g_deletes w1 = g_deletes w"
  "take_pending e RelayWork w = (r, w1) \<Longrightarrow> g_deletes w1 = g_deletes w \<and> g_sources w1 = g_sources w"
  by (auto simp: take_pending_def Let_def split: if_splits)

lemma drain_deletes_done: "g_deletes (snd (drain_deletes e w)) = []"
proof (induction e w rule: drain_deletes.induct)
  case (1 e w)
  then show ?case
    by (subst drain_deletes.simps) (auto split: prod.split option.split dest: take_pending_None(1))
qed

lemma drain_sources_done: "g_sources (snd (snd (drain_sources e err w))) = [] \<and>
  g_deletes (snd (snd (drain_sources e err w))) = g_deletes w"
proof (induction e err w rule: drain_sources.induct)
  case (1 e err w)
  show ?case
  proof (cases "take_pending e SourceWork w")
    case (Pair r w1)
    show ?thesis
    proof (cases r)
      case None
      then show ?thesis using Pair take_pending_None(2) [of e w w1]
        by (subst (1 2) drain_sources.simps) auto
    next
      case (Some i)
      have "g_deletes (snd (process_source e i w1)) = g_deletes w"
        using refreshing.source_frame [of w1 e i] take_pending_frames(2) [OF Pair]
        by (simp add: same_but_relays_def same_queues_def)
      then show ?thesis using Pair Some 1 [OF Pair [symmetric] Some]
        by (subst (1 2) drain_sources.simps) simp
    qed
  qed
qed

lemma drain_relays_done: "g_relays (snd (snd (drain_relays e err w))) = [] \<and>
  g_deletes (snd (snd (drain_relays e err w))) = g_deletes w \<and>
  g_sources (snd (snd (drain_relays e err w))) = g_sources w"
proof (induction e err w rule: drain_relays.induct)
  case (1 e err w)
  show ?case
  proof (cases "take_pending e RelayWork w")
    case (Pair r w1)
    show ?thesis
    proof (cases r)
      case None
      then show ?thesis using Pair take_pending_None(3) [of e w w1]
        by (subst (1 2 3) drain_relays.simps) auto
    next
      case (Some i)
      have "g_deletes (snd (process_relay e i w1)) = g_deletes w" "g_sources (snd (process_relay e i w1)) = g_sources w"
        using work.relay_frame [of w1 e i] take_pending_frames(3) [OF Pair]
        by (simp_all add: work_defs)
      then show ?thesis using Pair Some 1 [OF Pair [symmetric] Some]
        by (subst (1 2 3) drain_relays.simps) simp
    qed
  qed
qed

lemma drain_cleanups_done: "ready_count (snd (drain_cleanups e w)) = 0 \<and> same_but_cleanups w (snd (drain_cleanups e w))"
proof (induction e w rule: drain_cleanups.induct)
  case (1 e w)
  show ?case
  proof (cases "take_cleanup_ready e w")
    case (Pair r w1)
    have same: "same_but_cleanups w w1"
      using Pair by (auto simp: take_cleanup_ready_def same_but_cleanups_def tick_def split: if_splits prod.splits)
    show ?thesis
    proof (cases r)
      case None
      then have "ready_cleanups w = []" "g_cleanups w1 = filter (\<lambda>(_, c). cu_slugs c \<noteq> []) (g_cleanups w)" "g_now w1 = g_now w"
        using Pair by (auto simp: take_cleanup_ready_def split: if_splits prod.splits)
      then have "ready_count w1 = 0"
        by (auto simp: ready_count_def ready_cleanups_def filter_empty_conv)
      then show ?thesis using Pair None same by (subst (1 2) drain_cleanups.simps) simp
    next
      case (Some x)
      obtain i slugs where x: "x = (i, slugs)" by fastforce
      show ?thesis
        using 1 [OF Pair [symmetric] Some x [symmetric]] cleanup_work(1) [of w1 e i slugs] same Pair Some x
        by (subst (1 2) drain_cleanups.simps) (auto simp: same_but_cleanups_def)
    qed
  qed
qed

text \<open>Nothing to do: no pending work, and every cleanup waits for the clock.\<close>

definition settled :: "epg_world \<Rightarrow> bool" where
  "settled w \<longleftrightarrow> g_deletes w = [] \<and> g_sources w = [] \<and> g_relays w = [] \<and> ready_cleanups w = []"

lemma drain_pass_settled: "drain_pass e err w = (worked, err', w') \<Longrightarrow> settled w'"
proof -
  assume p: "drain_pass e err w = (worked, err', w')"
  obtain d w1 where 1: "drain_deletes e w = (d, w1)" by fastforce
  obtain s err2 w2 where 2: "drain_sources e err w1 = (s, err2, w2)" by (metis prod_cases3)
  obtain r err3 w3 where 3: "drain_relays e err2 w2 = (r, err3, w3)" by (metis prod_cases3)
  obtain c w4 where 4: "drain_cleanups e w3 = (c, w4)" by fastforce
  have "w' = w4" using p 1 2 3 4 by (simp add: drain_pass_def)
  then show ?thesis
    using drain_deletes_done [of e w] drain_sources_done [of e err w1] drain_relays_done [of e err2 w2]
      drain_cleanups_done [of e w3] 1 2 3 4
    by (simp add: settled_def same_but_cleanups_def ready_count_def)
qed

lemma take_pending_Nil: "g_deletes w = [] \<Longrightarrow> take_pending e DeleteWork w = (None, w)"
  "g_sources w = [] \<Longrightarrow> take_pending e SourceWork w = (None, w)"
  "g_relays w = [] \<Longrightarrow> take_pending e RelayWork w = (None, w)"
  by (simp_all add: take_pending_def)

lemma settled_no_work: "settled w \<Longrightarrow> \<not> fst (drain_pass e err w)"
proof -
  assume s: "settled w"
  then have "drain_deletes e w = (False, w)" "drain_sources e err w = (False, err, w)" "drain_relays e err w = (False, err, w)"
    by (subst drain_deletes.simps drain_sources.simps drain_relays.simps, simp add: settled_def take_pending_Nil)+
  moreover have "\<not> fst (drain_cleanups e w)"
    using s by (subst drain_cleanups.simps) (simp add: settled_def take_cleanup_ready_def)
  ultimately show ?thesis by (cases "drain_cleanups e w") (simp add: drain_pass_def)
qed

function drain_from :: "epg_env \<Rightarrow> string option \<Rightarrow> epg_world \<Rightarrow> string option \<times> epg_world" where
  "drain_from e err w =
     (case drain_pass e err w of (worked, err', w') \<Rightarrow> if worked then drain_from e err' w' else (err', w'))"
  by pat_completeness auto
termination
proof (relation "measure (\<lambda>(_, _, w). if settled w then 0 else 1)", goal_cases)
  case (2 e err w worked y err' w')
  then have p: "drain_pass e err w = (worked, err', w')" by simp
  have "\<not> settled w" using 2 p settled_no_work [of w e err] by auto
  then show ?case using drain_pass_settled [OF p] by simp
qed simp

declare drain_from.simps [simp del]

definition drain :: "epg_env \<Rightarrow> bool \<Rightarrow> epg_world \<Rightarrow> string option \<times> epg_world" where
  "drain e cancelled w =
     (case (if cancelled then (Some ''context canceled'', w\<lparr>g_busy := True\<rparr>) else drain_from e None (w\<lparr>g_busy := True\<rparr>)) of
        (err, w') \<Rightarrow> (err, w'\<lparr>g_busy := False\<rparr>))"

lemma drained_settled: "settled (snd (drain e False w))"
proof -
  have "settled (snd (drain_from e err w'))" for err w'
  proof (induction e err w' rule: drain_from.induct)
    case (1 e err w)
    obtain worked err' w' where p: "drain_pass e err w = (worked, err', w')" by (metis prod_cases3)
    show ?case
      using 1 [OF p [symmetric]] drain_pass_settled [OF p] p by (subst drain_from.simps) simp
  qed
  from this [of None "w\<lparr>g_busy := True\<rparr>"] show ?thesis
    by (auto simp: drain_def settled_def ready_cleanups_def split: prod.split)
qed


section \<open>Frames of a drain\<close>

text \<open>What also holds of taking work and putting it off holds of a drain.\<close>

locale epg_drain_frame = epg_refresh_frame R + epg_cache_frame R for R +
  assumes taken: "R w (snd (take_pending e k w))" "R w (snd (take_cleanup_ready e w))"
    and deferred: "R w (defer_cleanup i ss w)"
    and busy: "R w (w\<lparr>g_busy := b\<rparr>)"
begin

lemma taken_eq: "take_pending e k w = (r, w1) \<Longrightarrow> R w w1" "take_cleanup_ready e w = (r', w1) \<Longrightarrow> R w w1"
  using taken by (metis snd_conv)+

lemma cleanup_frame: "R w (process_cleanup e i slugs w)"
proof -
  obtain r1 w1 where 1: "on_db (get_relay i) w = (r1, w1)" by fastforce
  note [simp] = on_db_read_eq(2) [OF 1]
  have "R w (defer_cleanup i p w2)" if "cleanup_all e relay slugs w = (p, w2)" for relay p w2
    using trans [OF cleanup_all_frame [of w e relay slugs] deferred] that by simp
  then show ?thesis
    using 1 deferred refl by (cases r1) (auto simp: process_cleanup_def split: prod.split store_err.split)
qed

lemma deletes_frame: "R w (snd (drain_deletes e w))"
proof (induction e w rule: drain_deletes.induct)
  case (1 e w)
  obtain r w1 where t: "take_pending e DeleteWork w = (r, w1)" by fastforce
  show ?case
    using 1 [OF t [symmetric]] t taken_eq(1) [OF t] files [OF files_simple(3)] trans
    by (subst drain_deletes.simps) (auto split: option.split, blast)
qed

lemma sources_frame: "R w (snd (snd (drain_sources e err w)))"
proof (induction e err w rule: drain_sources.induct)
  case (1 e err w)
  obtain r w1 where t: "take_pending e SourceWork w = (r, w1)" by fastforce
  show ?case
    using 1 [OF t [symmetric]] t taken_eq(1) [OF t] source_frame trans
    by (subst drain_sources.simps) (auto split: option.split, blast)
qed

lemma relays_frame: "R w (snd (snd (drain_relays e err w)))"
proof (induction e err w rule: drain_relays.induct)
  case (1 e err w)
  obtain r w1 where t: "take_pending e RelayWork w = (r, w1)" by fastforce
  show ?case
    using 1 [OF t [symmetric]] t taken_eq(1) [OF t] relay_frame trans
    by (subst drain_relays.simps) (auto split: option.split, blast)
qed

lemma cleanups_frame: "R w (snd (drain_cleanups e w))"
proof (induction e w rule: drain_cleanups.induct)
  case (1 e w)
  obtain r w1 where t: "take_cleanup_ready e w = (r, w1)" by fastforce
  show ?case
  proof (cases r)
    case None
    then show ?thesis using t taken_eq(2) [OF t] by (subst drain_cleanups.simps) simp
  next
    case (Some x)
    obtain i slugs where x: "x = (i, slugs)" by fastforce
    show ?thesis
      using 1 [OF t [symmetric] Some x [symmetric]] t taken_eq(2) [OF t] Some x trans cleanup_frame
      by (subst drain_cleanups.simps) (auto, blast)
  qed
qed

lemma pass_frame: "drain_pass e err w = (worked, err', w') \<Longrightarrow> R w w'"
proof -
  assume p: "drain_pass e err w = (worked, err', w')"
  obtain d w1 where 1: "drain_deletes e w = (d, w1)" by fastforce
  obtain s err2 w2 where 2: "drain_sources e err w1 = (s, err2, w2)" by (metis prod_cases3)
  obtain r err3 w3 where 3: "drain_relays e err2 w2 = (r, err3, w3)" by (metis prod_cases3)
  obtain c w4 where 4: "drain_cleanups e w3 = (c, w4)" by fastforce
  have "w' = w4" using p 1 2 3 4 by (simp add: drain_pass_def)
  moreover have "R w w1" "R w1 w2" "R w2 w3" "R w3 w4"
    using deletes_frame [of w e] sources_frame [of w1 e err] relays_frame [of w2 e err2] cleanups_frame [of w3 e] 1 2 3 4
    by simp_all
  ultimately show ?thesis using trans by blast
qed

lemma drain_frame: "R w (snd (drain e cancelled w))"
proof -
  have start: "R w' (snd (drain_from e err w'))" for err w'
  proof (induction e err w' rule: drain_from.induct)
    case (1 e err w)
    obtain worked err' w' where p: "drain_pass e err w = (worked, err', w')" by (metis prod_cases3)
    show ?case
      using 1 [OF p [symmetric]] pass_frame [OF p] p trans by (subst drain_from.simps) auto
  qed
  have "R w ((snd (drain_from e None (w\<lparr>g_busy := True\<rparr>)))\<lparr>g_busy := False\<rparr>)"
    using trans [OF trans [OF busy start] busy] .
  moreover have "R w ((w\<lparr>g_busy := True\<rparr>)\<lparr>g_busy := False\<rparr>)" using trans [OF busy busy] .
  ultimately show ?thesis
    by (cases "drain_from e None (w\<lparr>g_busy := True\<rparr>)") (simp add: drain_def split: prod.split)
qed

end

section \<open>The worker\<close>

text \<open>\<^verbatim>\<open>Refresh\<close>, \<^verbatim>\<open>RefreshSource\<close> and \<^verbatim>\<open>DrainPending\<close>.\<close>

definition admission_error :: string where
  "admission_error = ''epg worker admission closed''"

definition refresh_all :: "epg_env \<Rightarrow> epg_world \<Rightarrow> string option \<times> epg_world" where
  "refresh_all e w = (case enqueue_refresh_enabled w of
     (False, w1) \<Rightarrow> (Some admission_error, w1) | (True, w1) \<Rightarrow> drain e False w1)"

definition refresh_source :: "epg_env \<Rightarrow> int \<Rightarrow> epg_world \<Rightarrow> string option \<times> epg_world" where
  "refresh_source e i w = (case enqueue_refresh_source i w of
     (False, w1) \<Rightarrow> (Some admission_error, w1) | (True, w1) \<Rightarrow> drain e False w1)"

definition drain_pending :: "epg_env \<Rightarrow> epg_world \<Rightarrow> string option \<times> epg_world" where
  "drain_pending e w = drain e False (wake_worker w)"

text \<open>The time until the next wake-up: \<open>None\<close> where the code has -1.\<close>

definition sooner :: "int option \<Rightarrow> int \<Rightarrow> int option" where
  "sooner s d = (case s of None \<Rightarrow> Some d | Some x \<Rightarrow> Some (if d < x then d else x))"

definition cleanup_due :: "int \<Rightarrow> relay_cleanup \<Rightarrow> int" where
  "cleanup_due now c = (case cu_retry c of None \<Rightarrow> 0 | Some r \<Rightarrow> if \<not> now < r then 0 else r - now)"

definition source_due_in :: "epg_env \<Rightarrow> epg_world \<Rightarrow> epg_source \<Rightarrow> int" where
  "source_due_in e w src =
     (let interval = effective_interval src;
          due = (case es_last src of None \<Rightarrow> interval
            | Some t \<Rightarrow> (let d = interval - (g_now w - ev_time e t) in if d < 0 then 0 else d))
      in case map_of (g_retry w) (es_id src) of
           None \<Rightarrow> due
         | Some r \<Rightarrow>
             (let retry_in = (if r - g_now w < 0 then 0 else r - g_now w) in
              if es_last src = None \<or> due = 0 then retry_in else due))"

definition next_delay :: "epg_env \<Rightarrow> epg_world \<Rightarrow> int" where
  "next_delay e w =
     (let s1 = foldl (\<lambda>s (_, c). if cu_slugs c = [] then s else sooner s (cleanup_due (g_now w) c)) None (g_cleanups w);
          s2 = foldl (\<lambda>s src. sooner s (source_due_in e w src)) s1 (list_enabled_epg_sources (g_db w))
      in case s2 of None \<Rightarrow> hour_ns | Some d \<Rightarrow> if d = 0 then second_ns else d)"

datatype worker_event = Cancelled | Woken | TimerFired

text \<open>One turn of \<^verbatim>\<open>loop\<close>: the delay its timer is set to, or none when the worker ends.\<close>

definition loop_step :: "epg_env \<Rightarrow> worker_event \<Rightarrow> epg_world \<Rightarrow> int option \<times> epg_world" where
  "loop_step e event w =
     (case event of
        Cancelled \<Rightarrow> (None, snd (drain e False w))
      | Woken \<Rightarrow> (let w1 = snd (drain e False (w\<lparr>g_wake := False\<rparr>)) in (Some (next_delay e w1), w1))
      | TimerFired \<Rightarrow> (let w1 = snd (drain e False (snd (enqueue_refresh_due e w))) in (Some (next_delay e w1), w1)))"

record epg_status =
  st_last_ok :: string
  st_last_error :: string
  st_refreshing :: bool

definition service_status :: "epg_world \<Rightarrow> epg_status" where
  "service_status w = \<lparr>
     st_last_ok = (case g_last_ok w of None \<Rightarrow> [] | Some t \<Rightarrow> rfc3339 t),
     st_last_error = g_last_error w,
     st_refreshing = (g_busy w \<or> g_sources w \<noteq> [] \<or> g_relays w \<noteq> [] \<or> g_deletes w \<noteq> [] \<or> g_cleanups w \<noteq> []) \<rparr>"

section \<open>Startup\<close>

text \<open>The id a name starts with: what \<^verbatim>\<open>fmt.Sscanf\<close> reads for a number followed by a dot.\<close>

definition scan_id :: "string \<Rightarrow> int option" where
  "scan_id name =
     (let s = dropWhile (\<lambda>c. c = CHR '' '') name;
          sgn = (if has_prefix s ''-'' \<or> has_prefix s ''+'' then take 1 s else []);
          rest = drop (length sgn) s; ds = takeWhile is_digit_char rest; tl' = dropWhile is_digit_char rest
      in if ds = [] \<or> \<not> has_prefix tl' ''.'' then None
         else case parse_int64 (sgn @ ds) of (i, ok) \<Rightarrow> if ok then Some i else None)"

definition load_live_index :: "epg_env \<Rightarrow> epg_world \<Rightarrow> epg_source \<Rightarrow> epg_world" where
  "load_live_index e w src =
     (case read_source_manifest (es_id src) w of
        None \<Rightarrow> w
      | Some m \<Rightarrow> if mf_url m = normalize_source_url (es_url src)
          then (case eligible_source e (es_id src) (es_url src) w of
              (Some (_, _, tag), w1) \<Rightarrow> keep_index (es_id src) tag w1 | (None, w1) \<Rightarrow> w1)
          else w)"

definition sweep_source :: "epg_env \<Rightarrow> int list \<Rightarrow> epg_world \<Rightarrow> string \<Rightarrow> epg_world" where
  "sweep_source e live w name = (case scan_id name of
     None \<Rightarrow> w | Some i \<Rightarrow> if i \<in> set live then w else delete_source_files e i w)"

definition sweep_cache :: "epg_env \<Rightarrow> string list \<Rightarrow> epg_world \<Rightarrow> string \<Rightarrow> epg_world" where
  "sweep_cache e live w name =
     (if \<not> has_suffix name ''.xml'' \<or> trim_suffix name ''.xml'' \<in> set live then w
      else w\<lparr>g_cache_dir := remove_file e name (g_cache_dir w)\<rparr>)"

definition reconcile_startup :: "epg_env \<Rightarrow> epg_world \<Rightarrow> epg_world" where
  "reconcile_startup e w =
     (let sources = list_epg_sources (g_db w);
          w1 = foldl (load_live_index e) w sources;
          relays = list_relays (g_db w1);
          w2 = snd (enqueue_rebuild_relays (map rl_id relays) w1);
          w3 = foldl (sweep_source e (map es_id sources)) w2 (map fst (g_source_dir w2))
      in foldl (sweep_cache e (map rl_slug relays)) w3 (map fst (g_cache_dir w3)))"

definition new_service :: "epg_env \<Rightarrow> directory \<Rightarrow> directory \<Rightarrow> directory \<Rightarrow> int \<Rightarrow> db \<Rightarrow> epg_world" where
  "new_service e cache index source now d = reconcile_startup e
     \<lparr> g_open = True, g_held = 0, g_indexes = [], g_sources = [], g_relays = [], g_deletes = [], g_cleanups = [],
       g_rev = (\<lambda>_. 0), g_retry = [], g_backoff = [], g_last_ok = None, g_last_error = [], g_busy = False,
       g_wake = False, g_cache_dir = cache, g_index_dir = index, g_source_dir = source, g_now = now, g_calls = 0,
       g_db = d \<rparr>"

end
