(* ===== verification/EpgLive.thy ===== *)
theory EpgLive
  imports EpgDrain
begin

text \<open>
  The guides of live relays: nothing the worker does while it drains its queues takes away the guide file
  of a relay that is in the database.
\<close>

section \<open>What keeps the guides\<close>

definition live_guides :: "epg_world \<Rightarrow> string set" where
  "live_guides w = {relay_cache_name (rl_slug r) | r. r \<in> set (t_relays (g_db w)) \<and> normalize_slug (rl_slug r) = rl_slug r}"

definition keeps_guides :: "epg_world \<Rightarrow> epg_world \<Rightarrow> bool" where
  "keeps_guides w w' \<longleftrightarrow> t_relays (g_db w') = t_relays (g_db w) \<and>
     (\<forall>n \<in> live_guides w. map_of (g_cache_dir w) n \<noteq> None \<longrightarrow> map_of (g_cache_dir w') n \<noteq> None)"

lemma keeps_refl: "keeps_guides w w"
  by (simp add: keeps_guides_def)

lemma keeps_trans: "keeps_guides w w1 \<Longrightarrow> keeps_guides w1 w2 \<Longrightarrow> keeps_guides w w2"
  by (simp add: keeps_guides_def live_guides_def)

lemma run_epg_same: "t_relays (snd (run_stmt (upd_epg i f) d)) = t_relays d"
  by (auto simp: run_stmt_def upd_epg_def split: option.split)

lemma marks_same:
  "t_relays (g_db (snd (on_db (mark_epg_refresh i t m n) w))) = t_relays (g_db w)"
  "t_relays (g_db (snd (on_db (mark_epg_refresh_error i m n) w))) = t_relays (g_db w)"
  "g_cache_dir (snd (on_db x w)) = g_cache_dir w"
  using run_epg_same
  by (auto simp: on_db_def mark_epg_refresh_def mark_epg_refresh_error_def split: prod.split) (metis snd_conv)+

text \<open>The slug of a live relay is never cleaned up.\<close>

lemma slug_found:
  assumes "relay_cache_name slug \<in> live_guides w"
  shows "\<exists>r. on_db (get_relay_by_slug slug) w = (Inr r, w)"
proof -
  obtain r where r: "r \<in> set (t_relays (g_db w))" "normalize_slug slug = rl_slug r"
    using assms by (auto simp: live_guides_def relay_cache_name_def)
  then have "find (\<lambda>r. rl_slug r = normalize_slug slug) (t_relays (g_db w)) \<noteq> None"
    by (auto simp: find_None_iff)
  then show ?thesis by (auto simp: on_db_def get_relay_by_slug_def)
qed

lemma slug_keeps: "keeps_guides w (snd (cleanup_slug e relay raw w))"
proof (cases "relay_cache_name (trim_space raw) \<in> live_guides w")
  case True
  then obtain r where "on_db (get_relay_by_slug (trim_space raw)) w = (Inr r, w)" using slug_found by blast
  then show ?thesis by (simp add: cleanup_slug_def Let_def keeps_refl)
next
  case False
  obtain r1 w1 where 1: "on_db (get_relay_by_slug (trim_space raw)) w = (r1, w1)" by fastforce
  have "keeps_guides w (w\<lparr>g_cache_dir := remove_file e (relay_cache_name (trim_space raw)) (g_cache_dir w)\<rparr>)"
    using False by (auto simp: keeps_guides_def remove_file_def)
  then show ?thesis
    using 1 on_db_read_eq(3) [OF 1]
    by (auto simp: cleanup_slug_def Let_def keeps_refl split: sum.split store_err.split)
qed

lemma keeps_same: "t_relays (g_db w') = t_relays (g_db w) \<Longrightarrow> g_cache_dir w' = g_cache_dir w \<Longrightarrow> keeps_guides w w'"
  by (simp add: keeps_guides_def)

lemma cache_keeps: "keeps_guides w (snd (write_relay_cache e slug doc w))"
  by (auto simp: write_relay_cache_def put_temp_def keeps_guides_def)

interpretation guides: epg_drain_frame keeps_guides
proof unfold_locales
  show "keeps_guides w w1 \<Longrightarrow> keeps_guides w1 w2 \<Longrightarrow> keeps_guides w w2" for w w1 w2 by (rule keeps_trans)
  show "keeps_guides w (snd (write_relay_cache e slug doc w))" for w e slug doc by (rule cache_keeps)
  show "keeps_guides w (snd (cleanup_slug e relay s w))" for w e relay s by (rule slug_keeps)
  show "keeps_guides w (snd (take_pending e k w))" for w e k
    by (rule keeps_same) (auto simp: take_pending_def Let_def split: work_kind.split)
  show "keeps_guides w (snd (take_cleanup_ready e w))" for w e
    by (rule keeps_same) (auto simp: take_cleanup_ready_def tick_def split: prod.split)
qed (rule keeps_same; simp add: files_only_def marks_same defer_cleanup_def)+

text \<open>
  C6: a drain never takes the guide of a live relay away: the file of a relay that is in the database
  under its normalized slug is there after the drain if it was there before, whatever stale slugs are
  queued for cleanup (those of the relay itself and slugs another relay has taken over among them).
\<close>

theorem drain_spares_live_guides:
  assumes "r \<in> set (t_relays (g_db w))" "normalize_slug (rl_slug r) = rl_slug r"
    "open_relay_cache (rl_slug r) w \<noteq> None"
  shows "open_relay_cache (rl_slug r) (snd (drain e cancelled w)) \<noteq> None"
proof -
  have "relay_cache_name (rl_slug r) \<in> live_guides w" using assms by (auto simp: live_guides_def)
  then show ?thesis
    using guides.drain_frame [of w e cancelled] assms(3) by (auto simp: keeps_guides_def open_relay_cache_def)
qed

definition sample_epg_env :: epg_env where
  "sample_epg_env = \<lparr> ev_lower = (\<lambda>r. r), ev_write_ok = (\<lambda>_. True), ev_remove_ok = (\<lambda>_. True), ev_gen = show_nat,
     ev_pick = (\<lambda>_. 0), ev_fetch = (\<lambda>_ _. FetchFailed ''timeout''), ev_elapsed = (\<lambda>_. 0),
     ev_gunzip = (\<lambda>_. None), ev_decode = (\<lambda>_. ([], False)), ev_max = 1000, ev_time = (\<lambda>_. 0), ev_stamp = (\<lambda>_. []) \<rparr>"

definition sample_epg_world :: epg_world where
  "sample_epg_world = \<lparr> g_open = True, g_held = 0, g_indexes = [], g_sources = [], g_relays = [], g_deletes = [],
     g_cleanups = [(1, \<lparr> cu_slugs = [''home'', ''old''], cu_retry = None \<rparr>)],
     g_rev = (\<lambda>_. 0), g_retry = [], g_backoff = [], g_last_ok = None, g_last_error = [], g_busy = False, g_wake = False,
     g_cache_dir = [(''home.xml'', XmlFile ([], True)), (''old.xml'', XmlFile ([], True))],
     g_index_dir = [], g_source_dir = [], g_now = 0, g_calls = 0,
     g_db = empty_db\<lparr>t_relays := [\<lparr> rl_id = 1, rl_name = ''Home'', rl_slug = ''home'', rl_created = [], rl_updated = [] \<rparr>]\<rparr> \<rparr>"

theorem drain_spares_live_guides_witness:
  "open_relay_cache ''home'' (snd (drain sample_epg_env False sample_epg_world)) \<noteq> None"
proof -
  let ?r = "\<lparr> rl_id = 1, rl_name = ''Home'', rl_slug = ''home'', rl_created = [], rl_updated = [] \<rparr>"
  have "?r \<in> set (t_relays (g_db sample_epg_world))" by (simp add: sample_epg_world_def)
  moreover have "normalize_slug (rl_slug ?r) = rl_slug ?r" by code_simp
  moreover have "open_relay_cache (rl_slug ?r) sample_epg_world \<noteq> None"
    by (simp add: open_relay_cache_def relay_cache_name_def sample_epg_world_def)
  ultimately show ?thesis
    using drain_spares_live_guides [of ?r sample_epg_world sample_epg_env False] by simp
qed

end
