(* ===== verification/EpgRelay.thy ===== *)
theory EpgRelay
  imports EpgLive
begin

text \<open>
  What \<^verbatim>\<open>processRelay\<close> publishes: the guide file of a relay holds, under public ids, exactly the channels
  and programmes its lineup is mapped to.
\<close>

section \<open>Mappings\<close>

definition mapped :: "int \<Rightarrow> db \<Rightarrow> int \<Rightarrow> string \<Rightarrow> string \<Rightarrow> bool" where
  "mapped i d s k p \<longleftrightarrow> p \<noteq> [] \<and> p = public_tvg_id s k \<and>
     (\<exists>m \<in> set (list_all_relay_epg_mappings d). em_relay m = i \<and> em_source m = s \<and> em_tvg m = k)"

definition rewrite_of :: "(int \<times> (string \<times> string) list) list \<Rightarrow> int \<Rightarrow> string \<Rightarrow> string option" where
  "rewrite_of out s k = (case map_of out s of None \<Rightarrow> None | Some r \<Rightarrow> map_of r k)"

lemma rewrite_add:
  "rewrite_of (add_mapping out m) s k =
    (if public_tvg_id (em_source m) (em_tvg m) \<noteq> [] \<and> s = em_source m \<and> k = em_tvg m
     then Some (public_tvg_id s k) else rewrite_of out s k)"
  by (auto simp: add_mapping_def rewrite_of_def Let_def split: option.split)

lemma rewrite_mappings: "rewrite_of (relay_mappings i d) s k = Some p \<longleftrightarrow> mapped i d s k p"
proof -
  have "rewrite_of (foldl add_mapping out ms) s k = Some p \<longleftrightarrow>
      (p \<noteq> [] \<and> p = public_tvg_id s k \<and> (\<exists>m \<in> set ms. em_source m = s \<and> em_tvg m = k)) \<or>
      (rewrite_of out s k = Some p \<and> \<not> (public_tvg_id s k \<noteq> [] \<and> (\<exists>m \<in> set ms. em_source m = s \<and> em_tvg m = k)))" for ms out
    by (induction ms arbitrary: out) (auto simp: rewrite_add)
  from this [of "[]"] show ?thesis by (auto simp: relay_mappings_def mapped_def rewrite_of_def)
qed

lemma amap_mappings: "amap (relay_mappings i d)"
proof -
  have "amap out \<Longrightarrow> amap (foldl add_mapping out ms)" for ms out
    by (induction ms arbitrary: out) (auto simp: add_mapping_def Let_def)
  then show ?thesis by (simp add: relay_mappings_def)
qed

section \<open>The guides of the sources\<close>

text \<open>The guide of a source as its manifest names it.\<close>

definition source_guide :: "int \<Rightarrow> epg_world \<Rightarrow> tv_document option" where
  "source_guide i w = (case read_source_manifest i w of
     None \<Rightarrow> None | Some m \<Rightarrow> load_source_doc (generation_xml_name i (mf_generation m)) w)"

definition same_guides :: "epg_world \<Rightarrow> epg_world \<Rightarrow> bool" where
  "same_guides w w' \<longleftrightarrow> g_source_dir w' = g_source_dir w"

lemma source_guide_cong: "same_guides w w' \<Longrightarrow> source_guide i w' = source_guide i w"
  by (simp add: same_guides_def source_guide_def read_source_manifest_def load_source_doc_def cong: option.case_cong)

lemma eligible_guides:
  assumes "eligible_source e i url w = (r, w')"
  shows "same_guides w w'" "r = Some (m, xml, tag) \<Longrightarrow> load_source_doc xml w' = source_guide i w"
proof -
  have rb: "g_source_dir (snd (rebuild_index e i gen u w)) = g_source_dir w" for gen u
    by (auto simp: rebuild_index_def write_generation_index_def Let_def split: option.split prod.split)
  have rl: "g_source_dir (snd (reload_index e i gen u w)) = g_source_dir w" for gen u
    using rb by (auto simp: reload_index_def split: option.split)
  have w1: "g_source_dir w1 = g_source_dir w" if "reload_index e i gen u w = (a, w1)" for gen u a w1
    using rl [of gen u] that by simp
  show g: "same_guides w w'"
    using assms w1 by (auto simp: eligible_source_def Let_def same_guides_def keep_index_def
        split: option.splits if_splits prod.splits)
  assume "r = Some (m, xml, tag)"
  then have "read_source_manifest i w = Some m" "xml = generation_xml_name i (mf_generation m)"
    using assms by (auto simp: eligible_source_def Let_def split: option.splits if_splits prod.splits)
  then show "load_source_doc xml w' = source_guide i w"
    using g by (simp add: source_guide_def load_source_doc_def same_guides_def)
qed

lemma load_docs_guides:
  "load_docs e slug is w = (Inr docs, w') \<Longrightarrow> distinct is \<Longrightarrow>
   \<forall>i \<in> set is. map_of docs i = source_guide i w \<and> source_guide i w \<noteq> None"
proof (induction "is" arbitrary: w docs)
  case (Cons i "is")
  obtain r1 w1 where 1: "on_db (get_epg_source i) w = (r1, w1)" by fastforce
  have g1: "same_guides w w1" using 1 by (auto simp: on_db_def same_guides_def split: prod.splits)
  obtain src where src: "r1 = Inr src" using Cons.prems 1 by (cases r1) auto
  obtain r2 w2 where 2: "eligible_source e i (es_url src) w1 = (r2, w2)" by fastforce
  obtain m xml tag where r2: "r2 = Some (m, xml, tag)" using Cons.prems 1 2 src by (cases r2) auto
  have g2: "same_guides w1 w2" and x: "load_source_doc xml w2 = source_guide i w1"
    using eligible_guides [OF 2] r2 by auto
  obtain doc where doc: "load_source_doc xml w2 = Some doc" using Cons.prems(1) 1 2 src r2 by (auto split: option.splits)
  obtain docs' where d: "load_docs e slug is w2 = (Inr docs', w')" "docs = (i, doc) # docs'"
    using Cons.prems(1) 1 2 src r2 doc by (auto split: sum.splits prod.splits)
  have "same_guides w w2" using g1 g2 by (simp add: same_guides_def)
  then show ?case
    using Cons.IH [OF d(1)] Cons.prems(2) d(2) doc x source_guide_cong [OF g1] source_guide_cong [of w w2] by auto
qed simp

lemma source_guide_ok: "source_guide i w = Some doc \<Longrightarrow> document_ok doc"
  by (auto simp: source_guide_def load_source_doc_def intro: parse_xmltv_ok split: option.splits epg_file.splits)

section \<open>Merging\<close>

definition put_renamed_channel :: "(string \<times> string) list \<Rightarrow> (string \<times> tv_channel) list \<Rightarrow> string \<times> tv_channel \<Rightarrow>
    (string \<times> tv_channel) list" where
  "put_renamed_channel rw out kc = (case kc of (k, ch) \<Rightarrow>
     (case map_of rw k of None \<Rightarrow> out | Some p \<Rightarrow> aput p (ch\<lparr>tc_id := p\<rparr>) out))"

lemma merge_channels_Cons: "td_channels (merge_document dst (Some s) rw) =
  foldl (put_renamed_channel rw) (td_channels dst) (td_channels s)"
  by (simp add: merge_document_def put_renamed_channel_def [abs_def] case_prod_unfold)

lemma renamed_lookup:
  "map_of (foldl (put_renamed_channel rw) out chs) p = Some c \<Longrightarrow>
   map_of out p = Some c \<or> (\<exists>k ch. (k, ch) \<in> set chs \<and> map_of rw k = Some p \<and> c = ch\<lparr>tc_id := p\<rparr>)"
proof (induction chs arbitrary: out)
  case (Cons x chs)
  obtain k ch where x: "x = (k, ch)" by fastforce
  from Cons.IH [of "put_renamed_channel rw out x"] Cons.prems
  show ?case
    by (auto simp: x put_renamed_channel_def split: option.splits if_splits)
qed simp

lemma renamed_dom:
  "map_of (foldl (put_renamed_channel rw) out chs) p \<noteq> None \<longleftrightarrow>
   map_of out p \<noteq> None \<or> (\<exists>k ch. (k, ch) \<in> set chs \<and> map_of rw k = Some p)"
proof (induction chs arbitrary: out)
  case (Cons x chs)
  obtain k ch where x: "x = (k, ch)" by fastforce
  show ?case
    unfolding foldl_Cons Cons.IH by (auto simp: x put_renamed_channel_def split: option.splits)
qed simp

lemma renamed_amap: "amap out \<Longrightarrow> amap (foldl (put_renamed_channel rw) out chs)"
  by (induction chs arbitrary: out) (auto simp: put_renamed_channel_def split: option.splits)

lemma merged_programmes:
  "q \<in> set (td_programmes (merge_document dst (Some s) rw)) \<longleftrightarrow> q \<in> set (td_programmes dst) \<or>
   (\<exists>p \<in> set (td_programmes s). \<exists>pub. map_of rw (tp_channel p) = Some pub \<and> q = p\<lparr>tp_channel := pub\<rparr>)"
  by (auto simp: merge_document_def split: option.splits) metis+

text \<open>What a merge over all sources holds.\<close>

definition merged_from :: "(int \<times> (string \<times> string) list) list \<Rightarrow> (int \<times> tv_document) list \<Rightarrow> string \<Rightarrow> tv_channel \<Rightarrow> bool" where
  "merged_from allowed docs p c \<longleftrightarrow> (\<exists>(s, rw) \<in> set allowed. \<exists>doc k ch. map_of docs s = Some doc \<and>
     (k, ch) \<in> set (td_channels doc) \<and> map_of rw k = Some p \<and> c = ch\<lparr>tc_id := p\<rparr>)"

definition programme_from :: "(int \<times> (string \<times> string) list) list \<Rightarrow> (int \<times> tv_document) list \<Rightarrow> tv_programme \<Rightarrow> bool" where
  "programme_from allowed docs q \<longleftrightarrow> (\<exists>(s, rw) \<in> set allowed. \<exists>doc. map_of docs s = Some doc \<and>
     (\<exists>p \<in> set (td_programmes doc). \<exists>pub. map_of rw (tp_channel p) = Some pub \<and> q = p\<lparr>tp_channel := pub\<rparr>))"

lemma merge_fold:
  fixes dst :: tv_document and allowed docs
  defines "res \<equiv> foldl (\<lambda>dst (i, rewrite). merge_document dst (map_of docs i) rewrite) dst allowed"
  shows "map_of (td_channels res) p = Some c \<Longrightarrow> map_of (td_channels dst) p = Some c \<or> merged_from allowed docs p c"
    "map_of (td_channels res) p \<noteq> None \<longleftrightarrow> map_of (td_channels dst) p \<noteq> None \<or> (\<exists>c. merged_from allowed docs p c)"
    "q \<in> set (td_programmes res) \<longleftrightarrow> q \<in> set (td_programmes dst) \<or> programme_from allowed docs q"
    "amap (td_channels dst) \<Longrightarrow> amap (td_channels res)"
  unfolding res_def
proof (induction allowed arbitrary: dst)
  case Nil
  { case 1 then show ?case by simp next case 2 show ?case by (simp add: merged_from_def)
  next case 3 show ?case by (simp add: programme_from_def) next case 4 then show ?case by simp }
next
  case (Cons x allowed)
  obtain s rw where x: "x = (s, rw)" by fastforce
  have m: "merged_from ((s, rw) # allowed) docs p c \<longleftrightarrow> merged_from allowed docs p c \<or>
      (\<exists>doc k ch. map_of docs s = Some doc \<and> (k, ch) \<in> set (td_channels doc) \<and> map_of rw k = Some p \<and> c = ch\<lparr>tc_id := p\<rparr>)" for c
    by (auto simp: merged_from_def)
  have pr: "programme_from ((s, rw) # allowed) docs q \<longleftrightarrow> programme_from allowed docs q \<or> (\<exists>doc. map_of docs s = Some doc \<and>
     (\<exists>p \<in> set (td_programmes doc). \<exists>pub. map_of rw (tp_channel p) = Some pub \<and> q = p\<lparr>tp_channel := pub\<rparr>))"
    by (auto simp: programme_from_def)
  have none: "merge_document d None rw = d" for d by (simp add: merge_document_def)
  { case 1
    then have "map_of (td_channels (merge_document dst (map_of docs s) rw)) p = Some c \<or> merged_from allowed docs p c"
      by (intro Cons.IH(1)) (simp add: x)
    then show ?case
      unfolding x by (cases "map_of docs s") (auto simp: m none merge_channels_Cons dest!: renamed_lookup)
  next
    case 2
    have "map_of (td_channels (merge_document dst (map_of docs s) rw)) p \<noteq> None \<longleftrightarrow> map_of (td_channels dst) p \<noteq> None \<or>
        (\<exists>doc k ch. map_of docs s = Some doc \<and> (k, ch) \<in> set (td_channels doc) \<and> map_of rw k = Some p)"
      using renamed_dom [of rw "td_channels dst" "td_channels (the (map_of docs s))" p]
      by (cases "map_of docs s") (auto simp: none merge_channels_Cons)
    then show ?case unfolding x foldl_Cons prod.case Cons.IH(2) m by blast
  next
    case 3
    have "q \<in> set (td_programmes (merge_document dst (map_of docs s) rw)) \<longleftrightarrow> q \<in> set (td_programmes dst) \<or>
        (\<exists>doc. map_of docs s = Some doc \<and>
         (\<exists>p \<in> set (td_programmes doc). \<exists>pub. map_of rw (tp_channel p) = Some pub \<and> q = p\<lparr>tp_channel := pub\<rparr>))"
      by (cases "map_of docs s") (simp_all add: none merged_programmes)
    then show ?case unfolding x foldl_Cons prod.case Cons.IH(3) pr by blast
  next
    case 4
    then show ?case
      using Cons.IH(4) [of "merge_document dst (map_of docs s) rw"]
      by (cases "map_of docs s") (simp_all add: x none merge_channels_Cons renamed_amap) }
qed

section \<open>The guide of a relay\<close>

lemma public_id_nonempty: "public_tvg_id s k \<noteq> [] \<Longrightarrow> public_tvg_id s k = ''epg'' @ show_int s @ ''-'' @ trim_space k"
  by (auto simp: public_tvg_id_def Let_def split: if_splits)

lemma merged_ok:
  assumes docs: "\<forall>(s, rw) \<in> set allowed. \<forall>doc. map_of docs s = Some doc \<longrightarrow> document_ok doc"
    and pubs: "\<forall>(s, rw) \<in> set allowed. \<forall>k p. map_of rw k = Some p \<longrightarrow> p \<noteq> []"
  shows "document_ok (merge_docs allowed docs)"
proof -
  let ?e = "\<lparr> td_generator = ''tvr'', td_channels = [], td_programmes = [] \<rparr>"
  note fold = merge_fold [where dst = ?e and docs = docs and allowed = allowed, folded merge_docs_def]
  have a: "amap (td_channels (merge_docs allowed docs))" by (rule fold(4)) simp
  have "tc_id c = p \<and> channel_ok c" if "(p, c) \<in> set (td_channels (merge_docs allowed docs))" for p c
  proof -
    have "map_of (td_channels (merge_docs allowed docs)) p = Some c" using a that by (simp add: map_of_amap)
    then have "merged_from allowed docs p c" using fold(1) by fastforce
    then obtain s rw doc k ch where "(s, rw) \<in> set allowed" "map_of docs s = Some doc" "(k, ch) \<in> set (td_channels doc)"
      "map_of rw k = Some p" "c = ch\<lparr>tc_id := p\<rparr>" by (auto simp: merged_from_def)
    then show ?thesis using docs pubs by (fastforce simp: document_ok_def channel_ok_def)
  qed
  moreover have "programme_ok q" if "q \<in> set (td_programmes (merge_docs allowed docs))" for q
  proof -
    have "programme_from allowed docs q" using that fold(3) by fastforce
    then obtain s rw doc p pub where "(s, rw) \<in> set allowed" "map_of docs s = Some doc" "p \<in> set (td_programmes doc)"
      "map_of rw (tp_channel p) = Some pub" "q = p\<lparr>tp_channel := pub\<rparr>" by (auto simp: programme_from_def)
    then show ?thesis using docs pubs by (fastforce simp: document_ok_def programme_ok_def)
  qed
  ultimately show ?thesis using a by (auto simp: document_ok_def)
qed

text \<open>What the guide of relay \<open>i\<close> is to hold, given the guides of the sources.\<close>

definition wanted_channel :: "int \<Rightarrow> epg_world \<Rightarrow> string \<Rightarrow> tv_channel \<Rightarrow> bool" where
  "wanted_channel i w p c \<longleftrightarrow> (\<exists>s k doc ch. mapped i (g_db w) s k p \<and> source_guide s w = Some doc \<and>
     map_of (td_channels doc) k = Some ch \<and> c = ch\<lparr>tc_id := p\<rparr>)"

definition wanted_programme :: "int \<Rightarrow> epg_world \<Rightarrow> tv_programme \<Rightarrow> bool" where
  "wanted_programme i w q \<longleftrightarrow> (\<exists>s p pub doc. source_guide s w = Some doc \<and> p \<in> set (td_programmes doc) \<and>
     mapped i (g_db w) s (tp_channel p) pub \<and> q = p\<lparr>tp_channel := pub\<rparr>)"

lemma allowed_mapped:
  "(\<exists>rw. (s, rw) \<in> set (relay_mappings i d) \<and> map_of rw k = Some p) \<longleftrightarrow> mapped i d s k p"
  using rewrite_mappings [of i d s k p] amap_mappings [of i d]
  by (auto simp: rewrite_of_def map_of_amap [symmetric] split: option.splits)

lemma relay_merge:
  assumes "load_docs e slug (map fst (relay_mappings i (g_db w))) w0 = (Inr docs, w1)" "same_guides w w0"
  defines "doc \<equiv> merge_docs (relay_mappings i (g_db w)) docs"
  shows "document_ok doc" "map_of (td_channels doc) p = Some c \<Longrightarrow> wanted_channel i w p c"
    "map_of (td_channels doc) p \<noteq> None \<longleftrightarrow> (\<exists>c. wanted_channel i w p c)"
    "q \<in> set (td_programmes doc) \<longleftrightarrow> wanted_programme i w q"
proof -
  let ?a = "relay_mappings i (g_db w)" and ?e = "\<lparr> td_generator = ''tvr'', td_channels = [], td_programmes = [] \<rparr>"
  have "distinct (map fst ?a)" using amap_mappings by (simp add: amap_def)
  then have guides: "map_of docs s = source_guide s w \<and> source_guide s w \<noteq> None" if "(s, rw) \<in> set ?a" for s rw
    using load_docs_guides [OF assms(1)] source_guide_cong [OF assms(2)] that by fastforce
  have lookup: "(k, ch) \<in> set (td_channels g) \<longleftrightarrow> map_of (td_channels g) k = Some ch" if "source_guide s w = Some g" for s g k ch
    using source_guide_ok [OF that] by (simp add: document_ok_def map_of_amap)
  have from_wanted: "merged_from ?a docs p c \<longleftrightarrow> wanted_channel i w p c" for p c
  proof
    assume "merged_from ?a docs p c"
    then obtain s rw g k ch where m: "(s, rw) \<in> set ?a" "map_of docs s = Some g" "(k, ch) \<in> set (td_channels g)"
      "map_of rw k = Some p" "c = ch\<lparr>tc_id := p\<rparr>" by (auto simp: merged_from_def)
    then have "mapped i (g_db w) s k p" "source_guide s w = Some g" using allowed_mapped guides by (blast, metis)
    then show "wanted_channel i w p c" using m lookup unfolding wanted_channel_def by blast
  next
    assume "wanted_channel i w p c"
    then obtain s k g ch where m: "mapped i (g_db w) s k p" "source_guide s w = Some g"
      "map_of (td_channels g) k = Some ch" "c = ch\<lparr>tc_id := p\<rparr>" by (auto simp: wanted_channel_def)
    then obtain rw where "(s, rw) \<in> set ?a" "map_of rw k = Some p" using allowed_mapped by blast
    then show "merged_from ?a docs p c" using m guides lookup unfolding merged_from_def by fastforce
  qed
  have from_wanted': "programme_from ?a docs q \<longleftrightarrow> wanted_programme i w q" for q
  proof
    assume "programme_from ?a docs q"
    then obtain s rw g p pub where m: "(s, rw) \<in> set ?a" "map_of docs s = Some g" "p \<in> set (td_programmes g)"
      "map_of rw (tp_channel p) = Some pub" "q = p\<lparr>tp_channel := pub\<rparr>" by (auto simp: programme_from_def)
    then have "mapped i (g_db w) s (tp_channel p) pub" "source_guide s w = Some g" using allowed_mapped guides by (blast, metis)
    then show "wanted_programme i w q" using m unfolding wanted_programme_def by blast
  next
    assume "wanted_programme i w q"
    then obtain s p pub g where m: "source_guide s w = Some g" "p \<in> set (td_programmes g)"
      "mapped i (g_db w) s (tp_channel p) pub" "q = p\<lparr>tp_channel := pub\<rparr>" by (auto simp: wanted_programme_def)
    then obtain rw where "(s, rw) \<in> set ?a" "map_of rw (tp_channel p) = Some pub" using allowed_mapped by blast
    then show "programme_from ?a docs q" using m guides unfolding programme_from_def by fastforce
  qed
  note fold = merge_fold [where dst = ?e and docs = docs and allowed = ?a, folded merge_docs_def doc_def]
  show "document_ok doc"
    unfolding doc_def
  proof (rule merged_ok)
    show "\<forall>(s, rw) \<in> set ?a. \<forall>doc. map_of docs s = Some doc \<longrightarrow> document_ok doc"
      using guides source_guide_ok by fastforce
    show "\<forall>(s, rw) \<in> set ?a. \<forall>k p. map_of rw k = Some p \<longrightarrow> p \<noteq> []"
      using allowed_mapped by (fastforce simp: mapped_def)
  qed
  show "map_of (td_channels doc) p = Some c \<Longrightarrow> wanted_channel i w p c"
    using fold(1) from_wanted by fastforce
  show "map_of (td_channels doc) p \<noteq> None \<longleftrightarrow> (\<exists>c. wanted_channel i w p c)"
    using fold(2) from_wanted by simp
  show "q \<in> set (td_programmes doc) \<longleftrightarrow> wanted_programme i w q"
    using fold(3) from_wanted' by simp
qed

text \<open>
  C2: when the worker publishes the guide of a relay, reading the file back gives a channel under each
  public id the lineup is mapped to and its source knows, taken from that source with the id replaced,
  and no other channel; and exactly the programmes of the mapped channels, under their public ids.
\<close>

theorem relay_guide_exact:
  assumes "process_relay e i w = (None, w')" "find (\<lambda>r. rl_id r = i) (t_relays (g_db w)) = Some relay"
    "g_last_error w' = []"
  shows "\<exists>x doc. open_relay_cache (rl_slug relay) w' = Some (XmlFile x) \<and> parse_xmltv x = Some doc \<and>
    (\<forall>p c. map_of (td_channels doc) p = Some c \<longrightarrow> wanted_channel i w p c) \<and>
    (\<forall>p. map_of (td_channels doc) p \<noteq> None \<longleftrightarrow> (\<exists>c. wanted_channel i w p c)) \<and>
    (\<forall>q. q \<in> set (td_programmes doc) \<longleftrightarrow> wanted_programme i w q)"
proof -
  have r: "on_db (get_relay i) w = (Inr relay, w)" using assms(2) by (simp add: on_db_def get_relay_def)
  let ?a = "relay_mappings i (g_db w)"
  obtain r2 w2 where 2: "load_docs e (rl_slug relay) (map fst ?a) w = (r2, w2)" by fastforce
  have inr: "\<exists>docs. r2 = Inr docs"
  proof (rule ccontr)
    assume "\<nexists>docs. r2 = Inr docs"
    then obtain msg where m: "r2 = Inl msg" by (cases r2) auto
    have "load_docs e slug is v = (Inl msg, v') \<Longrightarrow> msg \<noteq> []" for slug "is" v v'
      by (induction "is" arbitrary: v) (auto split: sum.splits prod.splits option.splits)
    then have "msg \<noteq> []" using 2 m by blast
    moreover have "w' = set_error msg w2" using 2 m r assms(1) by (simp add: process_relay_def Let_def)
    ultimately show False using assms(3) by (simp add: set_error_def)
  qed
  then obtain docs where docs: "r2 = Inr docs" by blast
  note merge = relay_merge [OF 2 [unfolded docs]]
  have "open_relay_cache (rl_slug relay) w' = Some (XmlFile (write_xmltv (merge_docs ?a docs), True))"
    using r 2 docs assms(1)
    by (auto simp: process_relay_def Let_def write_relay_cache_def put_temp_def open_relay_cache_def set_ok_def
        split: if_splits)
  moreover have ok: "document_ok (merge_docs ?a docs)" by (rule merge) (simp add: same_guides_def)
  moreover note parse_written [OF ok]
  moreover have "map_of (td_channels (filed_document (merge_docs ?a docs))) = map_of (td_channels (merge_docs ?a docs))"
    "set (td_programmes (filed_document (merge_docs ?a docs))) = set (td_programmes (merge_docs ?a docs))"
    using filed_same [OF ok] by (simp, metis set_mset_mset)
  moreover have "same_guides w w" by (simp add: same_guides_def)
  ultimately show ?thesis using merge(2-4) by simp
qed

definition sample_relay_world :: epg_world where
  "sample_relay_world = sample_epg_world\<lparr>
     g_indexes := [(3, \<lparr> ix_url = ''http://g'', ix_generation = ''7'', ix_channels = [] \<rparr>)],
     g_source_dir := [(''3.manifest.json'', ManifestFile \<lparr> mf_generation = ''7'', mf_url = ''http://g'', mf_fetched = [] \<rparr>),
       (''3.7.xml'', XmlFile sample_guide)],
     g_db := (g_db sample_epg_world)\<lparr>
       t_epgs := [\<lparr> ep_id = 3, ep_name = ''Guide'', ep_url = ''http://g'', ep_enabled = True, ep_seconds = 3600, ep_last = None,
         ep_error = [], ep_created = [], ep_updated = [] \<rparr>],
       t_channels := [\<lparr> cr_id = ''c'', cr_name = ''Two'', cr_logo = [], cr_url = ''http://c'', cr_headers = [], cr_transcode = False,
         cr_policy = ''fixed'', cr_fixed = None, cr_epg = Some 3, cr_tvg = ''two'', cr_created = [], cr_updated = [] \<rparr>],
       t_groups := [\<lparr> gr_id = 1, gr_relay = 1, gr_name = ''All'', gr_sort = 0 \<rparr>],
       t_members := [\<lparr> mb_id = 1, mb_relay = 1, mb_group = 1, mb_channel = ''c'', mb_number = 1, mb_sort = 0 \<rparr>]\<rparr>\<rparr>"

theorem relay_guide_exact_witness:
  "\<exists>x doc. open_relay_cache ''home'' (snd (process_relay sample_epg_env 1 sample_relay_world)) = Some (XmlFile x) \<and>
     parse_xmltv x = Some doc \<and>
     (\<forall>q. q \<in> set (td_programmes doc) \<longleftrightarrow> wanted_programme 1 sample_relay_world q)"
proof -
  let ?r = "\<lparr> rl_id = 1, rl_name = ''Home'', rl_slug = ''home'', rl_created = [], rl_updated = [] \<rparr>"
  have "fst (process_relay sample_epg_env 1 sample_relay_world) = None" by code_simp
  then have p: "process_relay sample_epg_env 1 sample_relay_world =
      (None, snd (process_relay sample_epg_env 1 sample_relay_world))" by (simp add: prod_eq_iff)
  have l: "g_last_error (snd (process_relay sample_epg_env 1 sample_relay_world)) = []" by code_simp
  have r: "find (\<lambda>r. rl_id r = 1) (t_relays (g_db sample_relay_world)) = Some ?r"
    by (simp add: sample_relay_world_def sample_epg_world_def)
  show ?thesis using relay_guide_exact [OF p r l] by auto
qed

end
