(* ===== verification/Workflows.thy ===== *)
theory Workflows
  imports EpgDrain StoreApi
begin

text \<open>
  \<^verbatim>\<open>internal/core/workflows/workflows.go\<close>: the store mutations that queue guide work, under the admission of
  the worker.  \<open>dflt\<close> is \<^verbatim>\<open>DefaultEPGInterval\<close>; the time stamp of a store call is the clock of the world.
  The error of \<open>apply_derived_work\<close> is the first of its parts, as in the code, which only logs it.
\<close>

record slug_cleanup =
  sc_relay :: int
  sc_old :: string

record derived_work =
  dw_refresh :: "int list"
  dw_invalidate :: "int list"
  dw_delete :: "int list"
  dw_rebuild :: "int list"
  dw_cleanup :: "slug_cleanup list"
  dw_due :: bool

datatype workflow_err = AdmissionClosed | StoreErr store_err

definition no_work :: derived_work where
  "no_work = \<lparr> dw_refresh = [], dw_invalidate = [], dw_delete = [], dw_rebuild = [], dw_cleanup = [], dw_due = False \<rparr>"

type_synonym 'v workflow = "epg_world \<Rightarrow> (workflow_err + 'v) \<times> epg_world"

definition with_admission :: "'v workflow \<Rightarrow> 'v workflow" where
  "with_admission fn w =
     (case acquire_admission w of
        (False, w1) \<Rightarrow> (Inl AdmissionClosed, w1)
      | (True, w1) \<Rightarrow> (case fn w1 of (r, w2) \<Rightarrow> (r, release_admission w2)))"

text \<open>A store call with the clock's stamp, and what follows it when it succeeds.\<close>

definition then_do :: "(string \<Rightarrow> 'v dbm) \<Rightarrow> epg_env \<Rightarrow> ('v \<Rightarrow> 'u workflow) \<Rightarrow> 'u workflow" where
  "then_do m e next_step w =
     (case on_db (m (ev_stamp e (g_now w))) w of
        (Inl err, w1) \<Rightarrow> (Inl (StoreErr err), w1) | (Inr x, w1) \<Rightarrow> next_step x w1)"

text \<open>Each of a list in turn, whatever the one before answers.\<close>

fun each :: "('a \<Rightarrow> epg_world \<Rightarrow> bool \<times> epg_world) \<Rightarrow> 'a list \<Rightarrow> epg_world \<Rightarrow> bool \<times> epg_world" where
  "each f [] w = (True, w)"
| "each f (x # xs) w = (case f x w of (ok, w1) \<Rightarrow> (case each f xs w1 of (ok', w2) \<Rightarrow> (ok \<and> ok', w2)))"

definition apply_derived_work :: "epg_env \<Rightarrow> derived_work \<Rightarrow> epg_world \<Rightarrow> bool \<times> epg_world" where
  "apply_derived_work e dw w0 =
     (let w1 = fold invalidate_source (dw_invalidate dw) w0;
          (ok2, w2) = each enqueue_delete_source_files (dw_delete dw) w1;
          (ok3, w3) = each enqueue_refresh_source (dw_refresh dw) w2;
          (ok4, w4) = (if dw_due dw then enqueue_refresh_due e w3 else (True, w3));
          (ok5, w5) = (if dw_rebuild dw \<noteq> [] then enqueue_rebuild_relays (dw_rebuild dw) w4 else (True, w4));
          (ok6, w6) = each (\<lambda>c. enqueue_relay_cleanup (sc_relay c) (sc_old c)) (dw_cleanup dw) w5
      in (ok2 \<and> ok3 \<and> ok4 \<and> ok5 \<and> ok6, w6))"

definition finish :: "epg_env \<Rightarrow> derived_work \<Rightarrow> 'v \<Rightarrow> 'v workflow" where
  "finish e dw x w = (Inr x, snd (apply_derived_work e dw w))"

section \<open>Guide sources\<close>

definition wf_create_epg_source :: "epg_env \<Rightarrow> store_env \<Rightarrow> int \<Rightarrow> epg_input \<Rightarrow> epg_source workflow" where
  "wf_create_epg_source e v dflt inp = with_admission
     (then_do (\<lambda>now. create_epg_source (v_dur v) now inp dflt) e (\<lambda>src.
      finish e (no_work\<lparr>dw_refresh := (if es_enabled src then [es_id src] else [])\<rparr>) src))"

definition epg_update_work :: "int \<Rightarrow> epg_source \<Rightarrow> epg_source \<Rightarrow> derived_work" where
  "epg_update_work i old src =
     (if trim_space (es_url old) \<noteq> trim_space (es_url src) then
        no_work\<lparr>dw_invalidate := [i], dw_delete := [i], dw_refresh := (if es_enabled src then [i] else [])\<rparr>
      else if \<not> es_enabled old \<and> es_enabled src then no_work\<lparr>dw_refresh := [i]\<rparr>
      else if es_interval old \<noteq> es_interval src \<and> es_enabled src then no_work\<lparr>dw_due := True\<rparr>
      else no_work)"

definition wf_update_epg_source :: "epg_env \<Rightarrow> store_env \<Rightarrow> int \<Rightarrow> int \<Rightarrow> epg_input \<Rightarrow> epg_source workflow" where
  "wf_update_epg_source e v dflt i inp = with_admission
     (then_do (\<lambda>_. get_epg_source i) e (\<lambda>old.
      then_do (\<lambda>now. update_epg_source (v_dur v) now i inp dflt) e (\<lambda>src.
      finish e (epg_update_work i old src) src)))"

definition wf_delete_epg_source :: "epg_env \<Rightarrow> int \<Rightarrow> unit workflow" where
  "wf_delete_epg_source e i = with_admission
     (then_do (\<lambda>_. delete_epg_source i) e (\<lambda>_.
      finish e (no_work\<lparr>dw_invalidate := [i], dw_delete := [i]\<rparr>) ()))"

section \<open>Relays\<close>

definition wf_update_relay :: "epg_env \<Rightarrow> int \<Rightarrow> string \<Rightarrow> string \<Rightarrow> relay_row workflow" where
  "wf_update_relay e i name slug = with_admission
     (then_do (\<lambda>_. get_relay i) e (\<lambda>old.
      then_do (\<lambda>now. update_relay now i name slug) e (\<lambda>new.
      (if rl_slug old \<noteq> rl_slug new
       then finish e (no_work\<lparr>dw_rebuild := [i], dw_cleanup := [\<lparr> sc_relay = i, sc_old = rl_slug old \<rparr>]\<rparr>) new
       else (\<lambda>w. (Inr new, w))))))"

definition wf_delete_relay :: "epg_env \<Rightarrow> int \<Rightarrow> unit workflow" where
  "wf_delete_relay e i = with_admission
     (then_do (\<lambda>_. get_relay i) e (\<lambda>old.
      then_do (\<lambda>_. delete_relay i) e (\<lambda>_.
      finish e (no_work\<lparr>dw_cleanup := [\<lparr> sc_relay = i, sc_old = rl_slug old \<rparr>]\<rparr>) ())))"

section \<open>Channels\<close>

definition enqueue_channel_epg_rebuild :: "epg_env \<Rightarrow> channel \<Rightarrow> channel \<Rightarrow> epg_world \<Rightarrow> epg_world" where
  "enqueue_channel_epg_rebuild e before after w =
     (if channel_epg_key before = channel_epg_key after then w
      else snd (apply_derived_work e (no_work\<lparr>dw_rebuild := channel_relay_ids (ch_id after) (g_db w)\<rparr>) w))"

text \<open>Without admission: the caller still publishes the live revision.\<close>

definition wf_update_channel :: "epg_env \<Rightarrow> store_env \<Rightarrow> string \<Rightarrow> channel_input \<Rightarrow> (channel \<times> channel) workflow" where
  "wf_update_channel e v i inp =
     then_do (\<lambda>_. get_channel i) e (\<lambda>before.
     then_do (\<lambda>now. update_channel (v_uuid v) now i inp) e (\<lambda>after w.
     (Inr (before, after), enqueue_channel_epg_rebuild e before after w)))"

section \<open>Memberships\<close>

definition wf_add_membership :: "epg_env \<Rightarrow> int \<Rightarrow> membership_input \<Rightarrow> membership workflow" where
  "wf_add_membership e rid inp = with_admission
     (then_do (\<lambda>_. add_membership rid inp) e (\<lambda>m.
      (if has_mapping (ms_epg m) (ms_tvg m) then finish e (no_work\<lparr>dw_rebuild := [rid]\<rparr>) m
       else (\<lambda>w. (Inr m, w)))))"

definition wf_update_membership :: "epg_env \<Rightarrow> int \<Rightarrow> int \<Rightarrow> membership_input \<Rightarrow> membership workflow" where
  "wf_update_membership e rid i inp = with_admission
     (then_do (\<lambda>_. get_membership_in_relay rid i) e (\<lambda>before.
      then_do (\<lambda>_. update_membership i inp) e (\<lambda>m.
      (if mapping_key (ms_epg before) (ms_tvg before) \<noteq> mapping_key (ms_epg m) (ms_tvg m)
       then finish e (no_work\<lparr>dw_rebuild := [rid]\<rparr>) m else (\<lambda>w. (Inr m, w))))))"

definition wf_delete_membership :: "epg_env \<Rightarrow> int \<Rightarrow> int \<Rightarrow> unit workflow" where
  "wf_delete_membership e rid i = with_admission
     (then_do (\<lambda>_. get_membership_in_relay rid i) e (\<lambda>before.
      then_do (\<lambda>_. delete_membership i) e (\<lambda>_.
      (if has_mapping (ms_epg before) (ms_tvg before) then finish e (no_work\<lparr>dw_rebuild := [rid]\<rparr>) ()
       else (\<lambda>w. (Inr (), w))))))"

section \<open>Import and restore\<close>

definition wf_import_relay :: "epg_env \<Rightarrow> store_env \<Rightarrow> import_relay_input \<Rightarrow> import_relay_result workflow" where
  "wf_import_relay e v inp = with_admission
     (then_do (\<lambda>now. import_relay (v_uuid v) (v_dur v) (v_show_dur v) now inp) e (\<lambda>r w.
      finish e (no_work\<lparr>dw_rebuild := unique_int64 (irr_relay r # concat (map (\<lambda>ch. channel_relay_ids ch (g_db w)) (irr_updated r))),
                      dw_refresh := irr_epg_ids r\<rparr>) r w))"

definition restore_derived_work :: "restore_result \<Rightarrow> derived_work" where
  "restore_derived_work r = \<lparr> dw_refresh = rs_refresh_epgs r, dw_invalidate = rs_old_epgs r, dw_delete = rs_old_epgs r,
     dw_rebuild = map fst (rs_relays r),
     dw_cleanup = map (\<lambda>(i, slug). \<lparr> sc_relay = i, sc_old = slug \<rparr>) (rs_removed_relays r), dw_due = False \<rparr>"

definition wf_restore_library :: "epg_env \<Rightarrow> store_env \<Rightarrow> library_backup \<Rightarrow> restore_result workflow" where
  "wf_restore_library e v b = with_admission
     (then_do (\<lambda>now. restore_library (v_uuid v) (v_uuid_ok v) now b) e (\<lambda>r.
      finish e (restore_derived_work r) r))"

end
