(* ===== verification/Version.thy ===== *)
theory Version
  imports Prelude
begin

text \<open>
  \<^verbatim>\<open>internal/version/version.go\<close>: the version and the commit a build shows.  What the toolchain recorded
  (\<^verbatim>\<open>debug.ReadBuildInfo\<close>) is an argument: the module's version and the settings, or nothing.
\<close>

record build =
  bd_version :: string
  bd_commit :: string

definition dev :: string where "dev = ''dev''"

text \<open>The version and the commit after \<^verbatim>\<open>init\<close>, from those of the linker.\<close>

definition module_version :: "string \<Rightarrow> string \<Rightarrow> string" where
  "module_version v main =
     (let m = trim_space main in
      if (v = dev \<or> v = []) \<and> m \<noteq> [] \<and> m \<noteq> ''(devel)'' then (if has_prefix m ''v'' then drop 1 m else m) else v)"

definition vcs_commit :: "string \<Rightarrow> (string \<times> string) list \<Rightarrow> string" where
  "vcs_commit c settings =
     (if c \<noteq> [] then c
      else case find (\<lambda>(k, v). k = ''vcs.revision'' \<and> v \<noteq> []) settings of None \<Rightarrow> [] | Some (_, v) \<Rightarrow> v)"

definition build_init :: "build \<Rightarrow> (string \<times> (string \<times> string) list) option \<Rightarrow> build" where
  "build_init b info =
     (let b1 = (case info of None \<Rightarrow> b
          | Some (main, settings) \<Rightarrow> \<lparr> bd_version = module_version (bd_version b) main,
              bd_commit = vcs_commit (bd_commit b) settings \<rparr>)
      in if blank (bd_version b1) then b1\<lparr>bd_version := dev\<rparr> else b1)"

definition short_commit :: "build \<Rightarrow> string" where
  "short_commit b = take 7 (trim_space (bd_commit b))"

definition version_label :: "build \<Rightarrow> string" where
  "version_label b =
     (let v = trim_space (bd_version b); v' = (if v = [] then dev else v); c = short_commit b in
      if c \<noteq> [] then v' @ ''('' @ c @ '')'' else v')"

lemma label_not_empty: "version_label b \<noteq> []"
  by (simp add: version_label_def dev_def Let_def)

lemma build_init_version: "\<not> blank (bd_version (build_init b info))"
proof -
  have "\<not> blank dev" by code_simp
  then show ?thesis by (simp add: build_init_def Let_def)
qed

end
