(* ===== verification/HttpModel.thy ===== *)
theory HttpModel
  imports Workflows Manager Config StoreSettings Version
begin

text \<open>
  What the handlers of \<^verbatim>\<open>internal/httpapi\<close> share: the state of the server, the replies, the errors and
  path values, and the publication of channel revisions (\<^verbatim>\<open>server.go\<close>).

  A handler is a function of the request's values and the state of the whole server.  A request runs as
  one step: the handlers that change channels hold \<^verbatim>\<open>channelMu\<close>.  A JSON body is the value it decodes to
  or the decoder's message, a JSON reply the value it encodes.  A session that is told to stop needs the
  answer of its source to end; how long that takes is \<open>se_wait\<close>, which gives the error of a wait that
  the time limit cuts off.
\<close>

section \<open>State\<close>

record image =
  img_x :: int
  img_y :: int
  img_w :: int
  img_h :: int
  img_at :: "int \<Rightarrow> int \<Rightarrow> 32 word"

record server_world =
  sw_epg :: epg_world
  sw_live :: manager
  sw_icon :: "(byte list \<times> int) option"
  sw_icon_tmp :: "byte list option"

datatype probe = ProbeFailed string bool | ProbeReply int "byte list"

record server_env =
  se_store :: store_env
  se_epg :: epg_env
  se_config :: config
  se_build :: build
  se_index :: "string option"
  se_roll :: "nat \<Rightarrow> nat"
  se_wait :: "string \<times> nat \<Rightarrow> stream_err option"
  se_ready :: "subscription \<Rightarrow> stream_err option"
  se_probe :: "nat \<Rightarrow> string \<Rightarrow> headers \<Rightarrow> probe"
  se_playlist :: "string \<Rightarrow> fetch_reply"
  se_rfc3339 :: "string \<Rightarrow> string + int"
  se_ffmpeg :: bool
  se_icon_write :: bool
  se_icon_rename :: bool
  se_image_size :: "byte list \<Rightarrow> (int \<times> int) option"
  se_image :: "byte list \<Rightarrow> image option"
  se_png :: "image \<Rightarrow> byte list option"

section \<open>Replies\<close>

record epg_dto =
  dto_source :: epg_source
  dto_interval :: string

record relay_item =
  ri_relay :: relay_row
  ri_playlist :: string
  ri_epg :: string

record system_settings =
  sy_listen :: string
  sy_base :: string
  sy_trust :: bool
  sy_data_dir :: string
  sy_database :: string
  sy_log_level :: string
  sy_ffmpeg :: string
  sy_buffer :: int
  sy_idle :: string
  sy_conn :: string
  sy_epg_max :: int
  sy_epg_every :: string

record settings_reply =
  st_brand :: brand_settings
  st_transcode :: transcode_settings
  st_ffmpeg :: string
  st_ffmpeg_ok :: bool
  st_system :: system_settings

record probe_report =
  pb_ok :: bool
  pb_status :: int
  pb_bytes :: nat
  pb_sync :: bool
  pb_hls :: bool
  pb_upstream :: string
  pb_host :: string

record import_report =
  ip_relay :: int
  ip_slug :: string
  ip_created :: nat
  ip_reused :: nat
  ip_members :: nat
  ip_groups :: nat
  ip_epgs :: nat
  ip_unmatched :: "string list"
  ip_ambiguous :: "string list"
  ip_warnings :: "string list"
  ip_playlist :: string
  ip_epg :: string

record channels_report =
  cp_created :: nat
  cp_reused :: nat
  cp_added :: nat
  cp_warnings :: "string list"

datatype payload =
    NoBody | ErrorBody string | TextBody string | HealthBody string string string | StartedBody
  | ChannelsBody "channel list" | ChannelBody channel | ProbeBody probe_report | ProbeErrorBody string
  | ProxiesBody "proxy list" | ProxyBody proxy
  | EpgSourcesBody "epg_dto list" | EpgSourceBody epg_dto | EpgStatusBody epg_status
  | EpgChannelsBody channel_search_result | GuideBody guide_result | GuideFileBody epg_file
  | RelaysBody "relay_item list" | RelayBody relay_detail | GroupBody group_row | MemberBody membership
  | StatusesBody "status list" | StreamBody subscription
  | SettingsBody settings_reply | IconBody "byte list"
  | BackupBody library_backup | RestoreBody restore_result string
  | ImportBody import_report | ImportChannelsBody channels_report

record reply =
  rp_status :: int
  rp_body :: payload

type_synonym handler = "server_world \<Rightarrow> reply \<times> server_world"

definition json :: "int \<Rightarrow> payload \<Rightarrow> reply" where
  "json status body = \<lparr> rp_status = status, rp_body = body \<rparr>"

definition no_content :: reply where
  "no_content = json 204 NoBody"

definition error_reply :: "int \<Rightarrow> string \<Rightarrow> reply" where
  "error_reply status msg = json status (ErrorBody msg)"

fun store_error :: "store_err \<Rightarrow> reply" where
  "store_error ErrNotFound = error_reply 404 (EpgWorker.err_text ErrNotFound)"
| "store_error (ErrValidation m) = error_reply 400 m"
| "store_error (ErrConflict m) = error_reply 409 m"
| "store_error (ErrDb m) = error_reply 500 m"

fun workflow_error :: "workflow_err \<Rightarrow> reply" where
  "workflow_error AdmissionClosed = error_reply 503 ''epg worker shutting down''"
| "workflow_error (StoreErr err) = store_error err"

definition live_update_timeout :: "string \<Rightarrow> string \<Rightarrow> reply" where
  "live_update_timeout saved msg = error_reply 504 (saved @ '' but live session update failed: '' @ msg)"

section \<open>Running the parts\<close>

definition on_epg :: "(epg_world \<Rightarrow> 'v \<times> epg_world) \<Rightarrow> server_world \<Rightarrow> 'v \<times> server_world" where
  "on_epg f w = (case f (sw_epg w) of (r, g) \<Rightarrow> (r, w\<lparr>sw_epg := g\<rparr>))"

text \<open>A call of the store with the clock's stamp.\<close>

definition on_store :: "server_env \<Rightarrow> (string \<Rightarrow> 'v dbm) \<Rightarrow> server_world \<Rightarrow> (store_err + 'v) \<times> server_world" where
  "on_store e m w = on_epg (on_db (m (ev_stamp (se_epg e) (g_now (sw_epg w))))) w"

definition database :: "server_world \<Rightarrow> db" where
  "database w = g_db (sw_epg w)"

text \<open>The next step on a value, or the reply of an error.\<close>

definition or_reply :: "('e + 'v) \<times> server_world \<Rightarrow> ('e \<Rightarrow> reply) \<Rightarrow> ('v \<Rightarrow> handler) \<Rightarrow> reply \<times> server_world" where
  "or_reply p bad good = (case p of (Inl err, w) \<Rightarrow> (bad err, w) | (Inr x, w) \<Rightarrow> good x w)"

definition need :: "('e + 'v) \<Rightarrow> ('e \<Rightarrow> reply) \<Rightarrow> ('v \<Rightarrow> handler) \<Rightarrow> handler" where
  "need r bad good w = or_reply (r, w) bad good"

definition answer :: "int \<Rightarrow> ('v \<Rightarrow> payload) \<Rightarrow> 'v \<Rightarrow> handler" where
  "answer status f x w = (json status (f x), w)"

section \<open>Values of the path\<close>

definition path_id :: "string \<Rightarrow> string \<Rightarrow> string + int" where
  "path_id name raw = (case parse_int64 raw of (i, ok) \<Rightarrow>
     if \<not> ok \<or> i \<le> 0 then Inl (''invalid '' @ name) else Inr i)"

definition path_uuid :: "server_env \<Rightarrow> string \<Rightarrow> string \<Rightarrow> string + string" where
  "path_uuid e name raw = (let i = trim_space raw in
     if v_uuid_ok (se_store e) i then Inr i else Inl (''invalid '' @ name))"

definition bad_request :: "string \<Rightarrow> reply" where
  "bad_request msg = error_reply 400 msg"

section \<open>Live sessions\<close>

text \<open>\<^verbatim>\<open>stopAndWaitAll\<close>: every session is stopped, the first error of the waits is returned.\<close>

definition stop_and_wait :: "server_env \<Rightarrow> session list \<Rightarrow> server_world \<Rightarrow> stream_err option \<times> server_world" where
  "stop_and_wait e ss w =
     (case List.map_filter (\<lambda>s. se_wait e (session_key s)) ss of [] \<Rightarrow> None | err # _ \<Rightarrow> Some err,
      w\<lparr>sw_live := fold (\<lambda>s. on_session (session_key s) stop) ss (sw_live w)\<rparr>)"

definition stop_retired :: "server_env \<Rightarrow> (stream_err + session option) \<times> manager \<Rightarrow> server_world \<Rightarrow> stream_err option \<times> server_world" where
  "stop_retired e p w = (case p of
       (Inl err, m) \<Rightarrow> (Some err, w\<lparr>sw_live := m\<rparr>)
     | (Inr s, m) \<Rightarrow> stop_and_wait e (case s of None \<Rightarrow> [] | Some x \<Rightarrow> [x]) (w\<lparr>sw_live := m\<rparr>))"

definition live_publish :: "server_env \<Rightarrow> channel \<Rightarrow> bool \<Rightarrow> server_world \<Rightarrow> stream_err option \<times> server_world" where
  "live_publish e ch invalidate w =
     stop_retired e (publish_channel (ch_id ch) (ch_updated ch) invalidate (sw_live w)) w"

definition live_block :: "server_env \<Rightarrow> string \<Rightarrow> server_world \<Rightarrow> stream_err option \<times> server_world" where
  "live_block e ch w = stop_retired e (block_channel ch (sw_live w)) w"

definition live_profile :: "server_env \<Rightarrow> profile \<Rightarrow> server_world \<Rightarrow> stream_err option \<times> server_world" where
  "live_profile e prof w =
     (case apply_profile prof (sw_live w) of (ss, m) \<Rightarrow> stop_and_wait e ss (w\<lparr>sw_live := m\<rparr>))"

text \<open>\<^verbatim>\<open>publishChannelIDs\<close>: the first error ends it, the channels after it are not published.\<close>

fun publish_channel_ids :: "server_env \<Rightarrow> string list \<Rightarrow> bool \<Rightarrow> server_world \<Rightarrow> string option \<times> server_world" where
  "publish_channel_ids e [] invalidate w = (None, w)"
| "publish_channel_ids e (i # is) invalidate w =
     (case on_store e (\<lambda>_. get_channel i) w of
        (Inl err, w1) \<Rightarrow> (Some (EpgWorker.err_text err), w1)
      | (Inr ch, w1) \<Rightarrow>
          (case live_publish e ch invalidate w1 of
             (Some err, w2) \<Rightarrow> (Some (Session.err_text err), w2)
           | (None, w2) \<Rightarrow> publish_channel_ids e is invalidate w2))"

text \<open>The reply after a publication that may have been cut off.\<close>

definition published :: "string \<Rightarrow> string option \<times> server_world \<Rightarrow> reply \<Rightarrow> reply \<times> server_world" where
  "published saved p good = (case p of
       (Some msg, w) \<Rightarrow> (live_update_timeout saved msg, w) | (None, w) \<Rightarrow> (good, w))"

section \<open>Requests\<close>

definition base_url :: "server_env \<Rightarrow> http_request \<Rightarrow> string" where
  "base_url e rq = public_base_url (cf_base (se_config e)) (cf_trust (se_config e)) rq"

definition playlist_url :: "string \<Rightarrow> string \<Rightarrow> string" where
  "playlist_url base slug = base @ ''/r/'' @ slug @ ''/playlist.m3u''"

definition epg_url :: "string \<Rightarrow> string \<Rightarrow> string" where
  "epg_url base slug = base @ ''/r/'' @ slug @ ''/epg.xml''"

definition handle_health :: "server_env \<Rightarrow> http_request \<Rightarrow> handler" where
  "handle_health e rq =
     answer 200 (\<lambda>base. HealthBody base (version_label (se_build e)) (short_commit (se_build e))) (base_url e rq)"

definition handle_index :: "server_env \<Rightarrow> handler" where
  "handle_index e w = (case se_index e of
       None \<Rightarrow> (json 500 (TextBody ''ui not found''), w) | Some page \<Rightarrow> answer 200 TextBody page w)"

datatype log_level = LogDebug | LogInfo | LogWarn | LogError

definition logger_level :: "string \<Rightarrow> log_level" where
  "logger_level raw =
     (if raw = ''debug'' then LogDebug else if raw = ''warn'' then LogWarn else if raw = ''error'' then LogError else LogInfo)"

definition request_log_level :: "string \<Rightarrow> string \<Rightarrow> int \<Rightarrow> log_level" where
  "request_log_level verb path status =
     (if has_prefix path ''/stream/'' then LogInfo
      else if 500 \<le> status then LogError
      else if 400 \<le> status then LogInfo
      else if verb \<noteq> ''GET'' \<and> verb \<noteq> ''HEAD'' then LogInfo
      else LogDebug)"

end
