(* ===== verification/HttpChannels.thy ===== *)
theory HttpChannels
  imports HttpModel
begin

text \<open>
  The handlers of channels and their streams: \<^verbatim>\<open>channels.go\<close>, \<^verbatim>\<open>live.go\<close> and \<^verbatim>\<open>proxies.go\<close>.  The probe of a
  channel sees its upstreams through \<open>se_probe\<close>.  The viewer of a stream waits for its session through
  \<open>se_ready\<close>, and before each new attempt of \<^verbatim>\<open>subscribeChannel\<close> other requests may have run: the
  argument \<open>others\<close>.
\<close>

section \<open>channels.go\<close>

definition handle_list_channels :: "server_env \<Rightarrow> handler" where
  "handle_list_channels e w = answer 200 ChannelsBody (list_channels (ev_lower (se_epg e)) (database w)) w"

definition handle_get_channel :: "server_env \<Rightarrow> string \<Rightarrow> handler" where
  "handle_get_channel e raw = need (path_uuid e ''id'' raw) bad_request (\<lambda>i w.
     or_reply (on_store e (\<lambda>_. get_channel i) w) store_error (answer 200 ChannelBody))"

definition handle_create_channel :: "server_env \<Rightarrow> string + channel_input \<Rightarrow> handler" where
  "handle_create_channel e body = need body bad_request (\<lambda>inp w.
     or_reply (on_store e (\<lambda>now. create_channel (v_uuid (se_store e)) now inp) w) store_error (answer 201 ChannelBody))"

text \<open>The errors of the workflow are those of the store: it takes no admission.\<close>

definition handle_update_channel :: "server_env \<Rightarrow> string \<Rightarrow> string + channel_input \<Rightarrow> handler" where
  "handle_update_channel e raw body = need (path_uuid e ''id'' raw) bad_request (\<lambda>i. need body bad_request (\<lambda>inp w.
     or_reply (on_epg (wf_update_channel (se_epg e) (se_store e) i inp) w) workflow_error (\<lambda>(before, ch) w1.
     (case live_publish e ch (channel_relay_invalidate before ch) w1 of
        (Some err, w2) \<Rightarrow> (live_update_timeout ''channel saved'' (Session.err_text err), w2)
      | (None, w2) \<Rightarrow> answer 200 ChannelBody ch w2))))"

definition handle_delete_channel :: "server_env \<Rightarrow> string \<Rightarrow> handler" where
  "handle_delete_channel e raw = need (path_uuid e ''id'' raw) bad_request (\<lambda>i w.
     or_reply (on_store e (\<lambda>_. delete_channel i) w) store_error (\<lambda>_ w1.
     (case live_block e i w1 of
        (Some err, w2) \<Rightarrow> (live_update_timeout ''channel deleted'' (Session.err_text err), w2)
      | (None, w2) \<Rightarrow> (no_content, w2))))"

section \<open>Testing an upstream\<close>

definition probe_bytes :: nat where "probe_bytes = packet_size * 4"

record probe_state =
  pr_url :: string
  pr_status :: int
  pr_bytes :: "byte list"
  pr_error :: "string option"

definition probe_good :: "int \<Rightarrow> byte list \<Rightarrow> bool" where
  "probe_good status bs \<longleftrightarrow> 200 \<le> status \<and> status < 300 \<and> bs \<noteq> []"

text \<open>The candidates in turn, until one answers well or the time is up.\<close>

fun probe_all :: "server_env \<Rightarrow> headers \<Rightarrow> nat \<Rightarrow> string list \<Rightarrow> probe_state \<Rightarrow> probe_state" where
  "probe_all e h n [] st = st"
| "probe_all e h n (u # us) st =
     (case se_probe e n u h of
        ProbeFailed msg expired \<Rightarrow>
          (let st' = \<lparr> pr_url = u, pr_status = 0, pr_bytes = [], pr_error = Some msg \<rparr>
           in if expired then st' else probe_all e h (Suc n) us st')
      | ProbeReply status body \<Rightarrow>
          (let st' = \<lparr> pr_url = u, pr_status = status, pr_bytes = take probe_bytes body, pr_error = None \<rparr>
           in if probe_good status (pr_bytes st') then st' else probe_all e h (Suc n) us st'))"

definition char_of_byte :: "byte \<Rightarrow> char" where
  "char_of_byte b = char_of (unat b)"

definition probe_candidates :: "server_env \<Rightarrow> channel_upstream \<Rightarrow> string list" where
  "probe_candidates e up =
     (let cands = row_candidates (se_roll e) up in
      if cands = [] \<and> \<not> blank (cu_url up) then [cu_url up] else cands)"

definition probe_channel :: "server_env \<Rightarrow> channel \<Rightarrow> channel_upstream \<Rightarrow> payload" where
  "probe_channel e ch up =
     (let st = probe_all e (merged_headers ch up) 0 (probe_candidates e up)
                 \<lparr> pr_url = [], pr_status = 0, pr_bytes = [], pr_error = None \<rparr>;
          bs = pr_bytes st
      in if pr_error st \<noteq> None \<and> pr_status st = 0 then ProbeErrorBody (the (pr_error st))
         else ProbeBody \<lparr> pb_ok = (pr_error st = None \<and> probe_good (pr_status st) bs), pb_status = pr_status st,
           pb_bytes = length bs, pb_sync = (packet_size \<le> length bs \<and> hd bs = sync_byte),
           pb_hls = (7 < length bs \<and> contains_str (map char_of_byte bs) ''#EXTM3U''), pb_upstream = cu_id up,
           pb_host = (case url_parse (pr_url st) of None \<Rightarrow> [] | Some u \<Rightarrow> u_host u) \<rparr>)"

text \<open>No body at all asks for the channel's own choice.\<close>

definition handle_test_channel :: "server_env \<Rightarrow> string \<Rightarrow> (string + string) option \<Rightarrow> handler" where
  "handle_test_channel e raw body = need (path_uuid e ''id'' raw) bad_request (\<lambda>i w.
     or_reply (on_store e (\<lambda>_. get_channel i) w) store_error (\<lambda>ch.
     need (case body of None \<Rightarrow> Inr [] | Some b \<Rightarrow> b) bad_request (\<lambda>uid.
     need (select_upstream (se_roll e) ch uid) (\<lambda>err. bad_request (EpgWorker.err_text err)) (\<lambda>up.
     answer 200 (probe_channel e ch) up))))"

section \<open>live.go\<close>

definition handle_live_status :: handler where
  "handle_live_status w = answer 200 StatusesBody (all_statuses (sw_live w)) w"

text \<open>\<^verbatim>\<open>Manager.Subscribe\<close> to its end: a session of the other mode is stopped, and a viewer whose session does
  not get ready leaves again.\<close>

definition live_subscribe :: "server_env \<Rightarrow> string \<Rightarrow> source \<Rightarrow> server_world \<Rightarrow> (stream_err + subscription) \<times> server_world" where
  "live_subscribe e ch src w =
     (case subscribe (se_roll e) ch src (sw_live w) of
        (Inl err, m) \<Rightarrow> (Inl err, w\<lparr>sw_live := m\<rparr>)
      | (Inr sub, m) \<Rightarrow>
          (let m1 = (case sub_stale sub of None \<Rightarrow> m | Some s \<Rightarrow> on_session (session_key s) stop m)
           in case se_ready e sub of
                None \<Rightarrow> (Inr sub, w\<lparr>sw_live := m1\<rparr>)
              | Some err \<Rightarrow> (Inl err, w\<lparr>sw_live := on_session (sub_key sub) (remove_viewer (sub_viewer sub)) m1\<rparr>)))"

datatype subscribe_err = SubStore store_err | SubStream stream_err

text \<open>The attempts that are left, the number of the next one, and the error of the last.\<close>

fun subscribe_attempts :: "server_env \<Rightarrow> (nat \<Rightarrow> server_world \<Rightarrow> server_world) \<Rightarrow> nat \<Rightarrow> nat \<Rightarrow> stream_err \<Rightarrow> string \<Rightarrow>
    server_world \<Rightarrow> (subscribe_err + subscription) \<times> server_world" where
  "subscribe_attempts e others 0 n last_err i w = (Inl (SubStream last_err), w)"
| "subscribe_attempts e others (Suc k) n last_err i w =
     (case on_store e (\<lambda>_. get_channel i) (others n w) of
        (Inl err, w1) \<Rightarrow> (Inl (SubStore err), w1)
      | (Inr ch, w1) \<Rightarrow>
          (case live_subscribe e (ch_id ch) (stream_source (se_roll e) ch) w1 of
             (Inr sub, w2) \<Rightarrow> (Inr sub, w2)
           | (Inl err, w2) \<Rightarrow>
               if err_is err ErrStaleRevision then subscribe_attempts e others k (Suc n) err i w2
               else (Inl (SubStream err), w2)))"

definition subscribe_channel :: "server_env \<Rightarrow> (nat \<Rightarrow> server_world \<Rightarrow> server_world) \<Rightarrow> channel \<Rightarrow> server_world \<Rightarrow>
    (subscribe_err + subscription) \<times> server_world" where
  "subscribe_channel e others ch w =
     (case live_subscribe e (ch_id ch) (stream_source (se_roll e) ch) w of
        (Inr sub, w1) \<Rightarrow> (Inr sub, w1)
      | (Inl err, w1) \<Rightarrow>
          if err_is err ErrStaleRevision then subscribe_attempts e others 7 1 err (ch_id ch) w1
          else (Inl (SubStream err), w1))"

text \<open>The client of a cancelled request is gone: nothing is sent.\<close>

fun stream_error :: "subscribe_err \<Rightarrow> reply" where
  "stream_error (SubStore err) =
     (if err = ErrNotFound then json 404 (TextBody ''404 page not found'')
      else json 502 (TextBody (EpgWorker.err_text err)))"
| "stream_error (SubStream err) =
     (if err_is err ErrCanceled then json 200 NoBody
      else if err_is err ErrChannelBlocked then json 404 (TextBody ''404 page not found'')
      else if err_is err ErrReadyTimeout then json 504 (TextBody (Session.err_text err))
      else json 502 (TextBody (Session.err_text err)))"

definition handle_channel_stream :: "server_env \<Rightarrow> (nat \<Rightarrow> server_world \<Rightarrow> server_world) \<Rightarrow> string \<Rightarrow> handler" where
  "handle_channel_stream e others raw = need (path_uuid e ''channelId'' raw)
     (\<lambda>_. json 400 (TextBody ''invalid channel id'')) (\<lambda>i w.
     or_reply (on_store e (\<lambda>_. get_channel i) w)
       (\<lambda>err. if err = ErrNotFound then json 404 (TextBody ''404 page not found'')
              else json 500 (TextBody (EpgWorker.err_text err))) (\<lambda>ch w1.
     or_reply (subscribe_channel e others ch w1) stream_error (answer 200 StreamBody)))"

text \<open>The copy loop of \<^verbatim>\<open>serveChannelStream\<close>: what each read returned, whether the reader ended with it, and
  whether the client took it; the bytes the client got.\<close>

fun send_stream :: "(byte list \<times> bool \<times> bool) list \<Rightarrow> byte list" where
  "send_stream [] = []"
| "send_stream ((bs, ended, taken) # rest) =
     (if bs \<noteq> [] \<and> \<not> taken then []
      else if ended then bs else bs @ send_stream rest)"

definition end_stream :: "subscription \<Rightarrow> server_world \<Rightarrow> server_world" where
  "end_stream sub w = w\<lparr>sw_live := on_session (sub_key sub) (remove_viewer (sub_viewer sub)) (sw_live w)\<rparr>"

section \<open>proxies.go\<close>

definition handle_list_proxies :: "server_env \<Rightarrow> handler" where
  "handle_list_proxies e w = answer 200 ProxiesBody (list_proxies (ev_lower (se_epg e)) (database w)) w"

definition handle_get_proxy :: "server_env \<Rightarrow> string \<Rightarrow> handler" where
  "handle_get_proxy e raw = need (path_uuid e ''id'' raw) bad_request (\<lambda>i w.
     or_reply (on_store e (\<lambda>_. get_proxy i) w) store_error (answer 200 ProxyBody))"

definition handle_create_proxy :: "server_env \<Rightarrow> string + proxy_input \<Rightarrow> handler" where
  "handle_create_proxy e body = need body bad_request (\<lambda>inp w.
     or_reply (on_store e (\<lambda>now. create_proxy (v_uuid (se_store e)) now inp) w) store_error (answer 201 ProxyBody))"

text \<open>Every channel behind the proxy is published, whatever the one before answers.\<close>

fun publish_each :: "server_env \<Rightarrow> string list \<Rightarrow> server_world \<Rightarrow> string option \<times> server_world" where
  "publish_each e [] w = (None, w)"
| "publish_each e (i # is) w =
     (case on_store e (\<lambda>_. get_channel i) w of
        (Inl err, w1) \<Rightarrow> (Some (EpgWorker.err_text err), snd (publish_each e is w1))
      | (Inr ch, w1) \<Rightarrow>
          (case live_publish e ch True w1 of
             (Some err, w2) \<Rightarrow> (Some (Session.err_text err), snd (publish_each e is w2))
           | (None, w2) \<Rightarrow> publish_each e is w2))"

definition handle_update_proxy :: "server_env \<Rightarrow> string \<Rightarrow> string + proxy_input \<Rightarrow> handler" where
  "handle_update_proxy e raw body = need (path_uuid e ''id'' raw) bad_request (\<lambda>i. need body bad_request (\<lambda>inp w.
     or_reply (on_store e (\<lambda>now. update_proxy (v_uuid (se_store e)) now i inp) w) store_error (\<lambda>(p, affected) w1.
     published ''proxy saved'' (publish_each e affected w1) (json 200 (ProxyBody p)))))"

definition handle_delete_proxy :: "server_env \<Rightarrow> string \<Rightarrow> handler" where
  "handle_delete_proxy e raw = need (path_uuid e ''id'' raw) bad_request (\<lambda>i w.
     or_reply (on_store e (\<lambda>_. delete_proxy i) w) store_error (\<lambda>_ w1. (no_content, w1)))"

end
