(* ===== verification/HttpLibrary.thy ===== *)
theory HttpLibrary
  imports HttpModel
begin

text \<open>
  The handlers of the library: relays with their groups and lineups (\<^verbatim>\<open>relays.go\<close>), guide sources
  (\<^verbatim>\<open>epg_api.go\<close>) and backups (\<^verbatim>\<open>backup.go\<close>).
\<close>

section \<open>relays.go\<close>

definition handle_list_relays :: "server_env \<Rightarrow> http_request \<Rightarrow> handler" where
  "handle_list_relays e rq w = (let base = base_url e rq in
     answer 200 RelaysBody (map (\<lambda>r. \<lparr> ri_relay = r, ri_playlist = playlist_url base (rl_slug r),
       ri_epg = epg_url base (rl_slug r) \<rparr>) (list_relays (database w))) w)"

definition relay_reply :: "server_env \<Rightarrow> int \<Rightarrow> int \<Rightarrow> handler" where
  "relay_reply e status i w = or_reply (on_store e (\<lambda>_. get_relay_detail i) w) store_error (answer status RelayBody)"

definition handle_create_relay :: "server_env \<Rightarrow> string + (string \<times> string) \<Rightarrow> handler" where
  "handle_create_relay e body = need body bad_request (\<lambda>(name, slug) w.
     or_reply (on_store e (\<lambda>now. create_relay now name slug) w) store_error (\<lambda>r. relay_reply e 201 (rl_id r)))"

definition handle_get_relay :: "server_env \<Rightarrow> string \<Rightarrow> handler" where
  "handle_get_relay e raw = need (path_id ''id'' raw) bad_request (relay_reply e 200)"

definition handle_update_relay :: "server_env \<Rightarrow> string \<Rightarrow> string + (string \<times> string) \<Rightarrow> handler" where
  "handle_update_relay e raw body = need (path_id ''id'' raw) bad_request (\<lambda>i. need body bad_request (\<lambda>(name, slug) w.
     or_reply (on_epg (wf_update_relay (se_epg e) i name slug) w) workflow_error (\<lambda>_. relay_reply e 200 i)))"

definition handle_delete_relay :: "server_env \<Rightarrow> string \<Rightarrow> handler" where
  "handle_delete_relay e raw = need (path_id ''id'' raw) bad_request (\<lambda>i w.
     or_reply (on_epg (wf_delete_relay (se_epg e) i) w) workflow_error (\<lambda>_ w1. (no_content, w1)))"

definition handle_replace_relay_layout :: "server_env \<Rightarrow> string \<Rightarrow> string + layout_group list \<Rightarrow> handler" where
  "handle_replace_relay_layout e raw body = need (path_id ''id'' raw) bad_request (\<lambda>i. need body bad_request (\<lambda>layout w.
     or_reply (on_store e (\<lambda>now. replace_relay_layout now i layout) w) store_error (answer 200 RelayBody)))"

definition handle_create_relay_group :: "server_env \<Rightarrow> string \<Rightarrow> string + string \<Rightarrow> handler" where
  "handle_create_relay_group e raw body = need (path_id ''id'' raw) bad_request (\<lambda>i. need body bad_request (\<lambda>name w.
     or_reply (on_store e (\<lambda>_. create_relay_group i name) w) store_error (answer 201 GroupBody)))"

definition handle_update_relay_group :: "server_env \<Rightarrow> string \<Rightarrow> string \<Rightarrow> string + string \<Rightarrow> handler" where
  "handle_update_relay_group e raw rawg body = need (path_id ''id'' raw) bad_request (\<lambda>i.
     need (path_id ''groupId'' rawg) bad_request (\<lambda>g. need body bad_request (\<lambda>name w.
     or_reply (on_store e (\<lambda>_. update_relay_group i g name) w) store_error (answer 200 GroupBody))))"

definition handle_delete_relay_group :: "server_env \<Rightarrow> string \<Rightarrow> string \<Rightarrow> handler" where
  "handle_delete_relay_group e raw rawg = need (path_id ''id'' raw) bad_request (\<lambda>i.
     need (path_id ''groupId'' rawg) bad_request (\<lambda>g w.
     or_reply (on_store e (\<lambda>_. delete_relay_group i g) w) store_error (\<lambda>_ w1. (no_content, w1))))"

definition handle_add_membership :: "server_env \<Rightarrow> string \<Rightarrow> string + membership_input \<Rightarrow> handler" where
  "handle_add_membership e raw body = need (path_id ''id'' raw) bad_request (\<lambda>i. need body bad_request (\<lambda>inp w.
     or_reply (on_epg (wf_add_membership (se_epg e) i inp) w) workflow_error (answer 201 MemberBody)))"

definition handle_update_membership :: "server_env \<Rightarrow> string \<Rightarrow> string \<Rightarrow> string + membership_input \<Rightarrow> handler" where
  "handle_update_membership e raw rawm body = need (path_id ''id'' raw) bad_request (\<lambda>i.
     need (path_id ''membershipId'' rawm) bad_request (\<lambda>m. need body bad_request (\<lambda>inp w.
     or_reply (on_epg (wf_update_membership (se_epg e) i m inp) w) workflow_error (answer 200 MemberBody))))"

definition handle_delete_membership :: "server_env \<Rightarrow> string \<Rightarrow> string \<Rightarrow> handler" where
  "handle_delete_membership e raw rawm = need (path_id ''id'' raw) bad_request (\<lambda>i.
     need (path_id ''membershipId'' rawm) bad_request (\<lambda>m w.
     or_reply (on_epg (wf_delete_membership (se_epg e) i m) w) workflow_error (\<lambda>_ w1. (no_content, w1))))"

definition handle_relay_playlist :: "server_env \<Rightarrow> http_request \<Rightarrow> string \<Rightarrow> handler" where
  "handle_relay_playlist e rq slug w =
     or_reply (on_store e (\<lambda>_. relay_playlist (base_url e rq) slug) w) store_error (answer 200 TextBody)"

text \<open>The relay is found by the normalised slug, its file by the slug as it stands in the path.\<close>

definition handle_relay_epg :: "server_env \<Rightarrow> string \<Rightarrow> handler" where
  "handle_relay_epg e slug w =
     or_reply (on_store e (\<lambda>_. get_relay_by_slug slug) w) store_error (\<lambda>_ w1.
     (case open_relay_cache slug (sw_epg w1) of
        None \<Rightarrow> (json 503 (TextBody ''epg not available yet''), w1)
      | Some f \<Rightarrow> answer 200 GuideFileBody f w1))"

section \<open>epg_api.go\<close>

definition map_epg_source_dto :: "server_env \<Rightarrow> epg_source \<Rightarrow> epg_dto" where
  "map_epg_source_dto e src = \<lparr> dto_source = src, dto_interval = v_show_dur (se_store e) (es_interval src) \<rparr>"

definition handle_list_epg_sources :: "server_env \<Rightarrow> handler" where
  "handle_list_epg_sources e w = answer 200 EpgSourcesBody (map (map_epg_source_dto e) (list_epg_sources (database w))) w"

definition default_every :: "server_env \<Rightarrow> int" where
  "default_every e = cf_epg_every (se_config e)"

definition epg_source_reply :: "server_env \<Rightarrow> int \<Rightarrow> (workflow_err + epg_source) \<times> server_world \<Rightarrow> reply \<times> server_world" where
  "epg_source_reply e status p = or_reply p workflow_error (answer status (\<lambda>src. EpgSourceBody (map_epg_source_dto e src)))"

definition handle_create_epg_source :: "server_env \<Rightarrow> string + epg_input \<Rightarrow> handler" where
  "handle_create_epg_source e body = need body bad_request (\<lambda>inp w.
     epg_source_reply e 201 (on_epg (wf_create_epg_source (se_epg e) (se_store e) (default_every e) inp) w))"

definition handle_update_epg_source :: "server_env \<Rightarrow> string \<Rightarrow> string + epg_input \<Rightarrow> handler" where
  "handle_update_epg_source e raw body = need (path_id ''id'' raw) bad_request (\<lambda>i. need body bad_request (\<lambda>inp w.
     epg_source_reply e 200 (on_epg (wf_update_epg_source (se_epg e) (se_store e) (default_every e) i inp) w)))"

definition handle_delete_epg_source :: "server_env \<Rightarrow> string \<Rightarrow> handler" where
  "handle_delete_epg_source e raw = need (path_id ''id'' raw) bad_request (\<lambda>i w.
     or_reply (on_epg (wf_delete_epg_source (se_epg e) i) w) workflow_error (\<lambda>_ w1. (no_content, w1)))"

definition started :: "bool \<times> server_world \<Rightarrow> reply \<times> server_world" where
  "started p = (case p of (ok, w) \<Rightarrow> (if ok then json 202 StartedBody else error_reply 503 admission_error, w))"

definition handle_refresh_epg :: handler where
  "handle_refresh_epg w = started (on_epg enqueue_refresh_enabled w)"

definition handle_refresh_epg_source :: "server_env \<Rightarrow> string \<Rightarrow> handler" where
  "handle_refresh_epg_source e raw = need (path_id ''id'' raw) bad_request (\<lambda>i w.
     or_reply (on_store e (\<lambda>_. get_epg_source i) w) store_error (\<lambda>_ w1. started (on_epg (enqueue_refresh_source i) w1)))"

definition handle_epg_status :: handler where
  "handle_epg_status w = answer 200 EpgStatusBody (service_status (sw_epg w)) w"

text \<open>\<^verbatim>\<open>strconv.Atoi\<close> with its error dropped.\<close>

definition query_int :: "string \<Rightarrow> int" where
  "query_int raw = fst (parse_int64 raw)"

definition handle_search_epg_channels :: "server_env \<Rightarrow> string \<Rightarrow> string \<Rightarrow> string \<Rightarrow> handler" where
  "handle_search_epg_channels e raw q limit = need (path_id ''id'' raw) bad_request (\<lambda>i w.
     (case on_epg (search_source_channels (se_epg e) i q (query_int limit)) w of
        (r, w1) \<Rightarrow> answer 200 EpgChannelsBody r w1))"

text \<open>The query of a guide; \<open>parse\<close> (\<open>se_rfc3339\<close>) is \<^verbatim>\<open>time.Parse(time.RFC3339, _)\<close>.\<close>

record guide_params =
  gp_from :: string
  gp_to :: string
  gp_search :: string
  gp_offset :: string
  gp_limit :: string

definition guide_query_of :: "(string \<Rightarrow> string + int) \<Rightarrow> guide_params \<Rightarrow> string + guide_query" where
  "guide_query_of parse g =
     (let from = trim_space (gp_from g); to = trim_space (gp_to g) in
      if from = [] \<or> to = [] then Inl ''from and to are required''
      else case parse from of
          Inl msg \<Rightarrow> Inl (''invalid from: '' @ msg)
        | Inr t1 \<Rightarrow>
            (case parse to of
               Inl msg \<Rightarrow> Inl (''invalid to: '' @ msg)
             | Inr t2 \<Rightarrow> Inr \<lparr> gq_from = t1, gq_to = t2, gq_q = gp_search g,
                 gq_offset = query_int (gp_offset g), gq_limit = query_int (gp_limit g) \<rparr>))"

fun guide_error_reply :: "guide_error \<Rightarrow> reply" where
  "guide_error_reply GuideRefreshRequired = error_reply 409 ''refresh required''"
| "guide_error_reply (GuideInvalidQuery msg) = error_reply 400 msg"
| "guide_error_reply GuideUnreadable = error_reply 500 ''XML syntax error''"

definition handle_epg_source_guide :: "server_env \<Rightarrow> string \<Rightarrow> guide_params \<Rightarrow> handler" where
  "handle_epg_source_guide e raw g = need (path_id ''id'' raw) bad_request (\<lambda>i w.
     or_reply (on_store e (\<lambda>_. get_epg_source i) w) store_error (\<lambda>src.
     need (guide_query_of (se_rfc3339 e) g) bad_request (\<lambda>q w1.
     or_reply (on_epg (query_source_guide (se_epg e) i (es_url src) (\<not> blank (es_error src)) q) w1)
       guide_error_reply (answer 200 GuideBody))))"

section \<open>backup.go\<close>

definition handle_export_backup :: "server_env \<Rightarrow> handler" where
  "handle_export_backup e w = answer 200 BackupBody (export_library (ev_lower (se_epg e)) (database w)) w"

fun block_all :: "server_env \<Rightarrow> string list \<Rightarrow> server_world \<Rightarrow> string option \<times> server_world" where
  "block_all e [] w = (None, w)"
| "block_all e (i # is) w = (case live_block e i w of
     (Some err, w1) \<Rightarrow> (Some (Session.err_text err), w1) | (None, w1) \<Rightarrow> block_all e is w1)"

definition sync_restored_live :: "server_env \<Rightarrow> string list \<Rightarrow> string list \<Rightarrow> server_world \<Rightarrow> string option \<times> server_world" where
  "sync_restored_live e removed kept w = (case block_all e removed w of
     (Some msg, w1) \<Rightarrow> (Some msg, w1) | (None, w1) \<Rightarrow> publish_channel_ids e kept True w1)"

definition handle_restore_backup :: "server_env \<Rightarrow> string + library_backup \<Rightarrow> handler" where
  "handle_restore_backup e body = need body bad_request (\<lambda>b w.
     or_reply (on_epg (wf_restore_library (se_epg e) (se_store e) b) w) workflow_error (\<lambda>r w1.
     (case sync_restored_live e (rs_removed_channels r) (rs_channel_ids r) w1 of
        (None, w2) \<Rightarrow> answer 200 (RestoreBody r) [] w2
      | (Some msg, w2) \<Rightarrow> answer 200 (RestoreBody r) (''live session update failed: '' @ msg) w2)))"

end
