(* ===== verification/HttpImport.thy ===== *)
theory HttpImport
  imports HttpModel ChannelTxt
begin

text \<open>
  \<^verbatim>\<open>internal/httpapi/import.go\<close>: a playlist read into a relay, and a list of channels read into the library.
  The server a playlist is fetched from is \<open>se_playlist\<close>.
\<close>

record import_request =
  iq_content :: string
  iq_url :: string
  iq_name :: string
  iq_slug :: string
  iq_ignore_groups :: bool
  iq_epg :: "bool option"

section \<open>Fetching\<close>

definition max_playlist_bytes :: nat where "max_playlist_bytes = 32 * 1024 * 1024"

definition byte_chars :: "byte list \<Rightarrow> string" where
  "byte_chars bs = map (\<lambda>b. char_of (unat b)) bs"

text \<open>A body that fails within the limit is an error, one that goes past it is too long.\<close>

definition fetch_m3u :: "server_env \<Rightarrow> string \<Rightarrow> string + string" where
  "fetch_m3u e raw =
     (if \<not> is_http_stream raw then Inl ''url must be http(s)''
      else case se_playlist e raw of
          FetchFailed msg \<Rightarrow> Inl msg
        | FetchReply status body ok \<Rightarrow>
            if status < 200 \<or> 300 \<le> status then Inl (''status '' @ show_int status)
            else if max_playlist_bytes < length body
              then Inl (''playlist exceeds '' @ show_nat max_playlist_bytes @ '' bytes'')
            else if \<not> ok then Inl ''unexpected EOF''
            else Inr (byte_chars body))"

definition playlist_content :: "server_env \<Rightarrow> import_request \<Rightarrow> string + string" where
  "playlist_content e q =
     (let content = trim_space (iq_content q) in
      if content = [] \<and> blank (iq_url q) then Inl ''content or url is required''
      else if content = [] then map_sum (\<lambda>msg. ''fetch m3u: '' @ msg) id (fetch_m3u e (trim_space (iq_url q)))
      else Inr content)"

section \<open>What is imported\<close>

definition skipped :: "string \<Rightarrow> string \<Rightarrow> string" where
  "skipped why name = ''skipped '' @ why @ '' for '' @ quoted name"

definition import_entry_of :: "bool \<Rightarrow> m3u_entry \<Rightarrow> import_entry" where
  "import_entry_of ignore_groups ent =
     \<lparr> ie_name = me_name ent, ie_logo = me_logo ent, ie_url = trim_space (me_url ent), ie_headers = me_headers ent,
       ie_group = (if ignore_groups then ''Channels'' else me_group ent), ie_tvg = trim_space (me_tvg ent), ie_epg = None \<rparr>"

text \<open>The entries taken and the warnings about the others; the first of two entries with the same URL counts.\<close>

definition pick_entry :: "bool \<Rightarrow> string list \<times> import_entry list \<Rightarrow> m3u_entry \<Rightarrow> string list \<times> import_entry list" where
  "pick_entry ignore_groups st ent = (case st of (warnings, taken) \<Rightarrow>
     (if \<not> is_http_stream (me_url ent)
        then (warnings @ [skipped ''non-http(s) url'' (me_name ent)], taken)
      else if trim_space (me_url ent) \<in> set (map ie_url taken)
        then (warnings @ [skipped ''duplicate upstream url'' (me_name ent)], taken)
      else (warnings, taken @ [import_entry_of ignore_groups ent])))"

definition pick_epg_url :: "string list \<times> string list \<Rightarrow> string \<Rightarrow> string list \<times> string list" where
  "pick_epg_url st raw = (case st of (warnings, taken) \<Rightarrow>
     (let url = trim_space raw in
      if url = [] \<or> url \<in> set taken then (warnings, taken)
      else if \<not> is_http_stream url then (warnings @ [''skipped invalid epg url '' @ quoted url], taken)
      else (warnings, taken @ [url])))"

definition classify_playlist :: "import_request \<Rightarrow> m3u_playlist \<Rightarrow> string list \<times> import_entry list \<times> string list" where
  "classify_playlist q pl =
     (let (w1, entries) = foldl (pick_entry (iq_ignore_groups q)) (pl_warnings pl, []) (pl_entries pl);
          (w2, urls) = (if iq_epg q = Some False then (w1, []) else foldl pick_epg_url (w1, []) (pl_epgs pl))
      in (w2, entries, urls))"

section \<open>Matching guide ids\<close>

text \<open>The sources of the playlist's guide URLs that the store knows already.\<close>

fun known_sources :: "server_env \<Rightarrow> string list \<Rightarrow> server_world \<Rightarrow> int list \<times> server_world" where
  "known_sources e [] w = ([], w)"
| "known_sources e (u # us) w =
     (case on_store e (\<lambda>_. find_epg_source_by_url u) w of (r, w1) \<Rightarrow>
      (case known_sources e us w1 of (found, w2) \<Rightarrow>
       ((case r of Inl _ \<Rightarrow> found | Inr src \<Rightarrow> es_id src # found), w2)))"

record match_state =
  mt_entries :: "import_entry list"
  mt_unmatched :: "string list"
  mt_ambiguous :: "string list"

definition match_entry :: "server_env \<Rightarrow> int list \<Rightarrow> nat \<Rightarrow> import_entry \<Rightarrow> match_state \<times> server_world \<Rightarrow> match_state \<times> server_world" where
  "match_entry e known eligible ent p = (case p of (st, w) \<Rightarrow>
     (let tvg = ie_tvg ent; keep = st\<lparr>mt_entries := mt_entries st @ [ent]\<rparr> in
      if tvg = [] then (keep, w)
      else case (if known = [] then ([], w) else on_epg (find_source_ids_by_tvg (se_epg e) known tvg) w) of
          ([], w1) \<Rightarrow> ((if 0 < eligible then keep\<lparr>mt_unmatched := append_unique (mt_unmatched st) tvg\<rparr> else keep), w1)
        | ([i], w1) \<Rightarrow> (st\<lparr>mt_entries := mt_entries st @ [ent\<lparr>ie_epg := Some i\<rparr>]\<rparr>, w1)
        | (_, w1) \<Rightarrow> (keep\<lparr>mt_ambiguous := append_unique (mt_ambiguous st) tvg\<rparr>, w1)))"

definition match_entries :: "server_env \<Rightarrow> string list \<Rightarrow> import_entry list \<Rightarrow> server_world \<Rightarrow> match_state \<times> server_world" where
  "match_entries e urls entries w =
     (if urls = [] then (\<lparr> mt_entries = entries, mt_unmatched = [], mt_ambiguous = [] \<rparr>, w)
      else case known_sources e urls w of (known, w1) \<Rightarrow>
        (case on_epg (count_eligible_sources (se_epg e) known) w1 of (eligible, w2) \<Rightarrow>
          fold (match_entry e known eligible) entries
            (\<lparr> mt_entries = [], mt_unmatched = [], mt_ambiguous = [] \<rparr>, w2)))"

section \<open>The report\<close>

definition max_warnings :: nat where "max_warnings = 40"

definition cap_warnings :: "string list \<Rightarrow> string list" where
  "cap_warnings ws =
     (if max_warnings < length ws
      then take max_warnings ws @
        [[CHR 0xE2, CHR 0x80, CHR 0xA6] @ ''and '' @ show_nat (length ws - max_warnings) @ '' more warnings'']
      else ws)"

definition import_report_of :: "string \<Rightarrow> string list \<Rightarrow> match_state \<Rightarrow> import_relay_result \<Rightarrow> import_report" where
  "import_report_of base warnings st r =
     (let w1 = (if irr_epg_ids r \<noteq> [] then warnings @ [''EPG refresh queued''] else warnings);
          w2 = (if mt_unmatched st \<noteq> [] \<or> mt_ambiguous st \<noteq> []
                then w1 @ [''some tvg-id mappings need review after EPG refresh''] else w1)
      in \<lparr> ip_relay = irr_relay r, ip_slug = irr_slug r, ip_created = irr_created r, ip_reused = irr_reused r,
           ip_members = irr_members r, ip_groups = irr_groups r, ip_epgs = irr_epgs r,
           ip_unmatched = mt_unmatched st, ip_ambiguous = mt_ambiguous st, ip_warnings = cap_warnings w2,
           ip_playlist = playlist_url base (irr_slug r), ip_epg = epg_url base (irr_slug r) \<rparr>)"

definition import_spec :: "server_env \<Rightarrow> import_request \<Rightarrow> string list \<Rightarrow> match_state \<Rightarrow> import_relay_input" where
  "import_spec e q urls st = \<lparr> iri_name = trim_space (iq_name q), iri_slug = trim_space (iq_slug q),
     iri_epg_urls = urls, iri_interval = cf_epg_every (se_config e), iri_entries = mt_entries st \<rparr>"

definition run_import :: "server_env \<Rightarrow> http_request \<Rightarrow> import_request \<Rightarrow> m3u_playlist \<Rightarrow> handler" where
  "run_import e rq q pl w =
     (case classify_playlist q pl of (warnings, entries, urls) \<Rightarrow>
      (case match_entries e urls entries w of (st, w1) \<Rightarrow>
        or_reply (on_epg (wf_import_relay (se_epg e) (se_store e) (import_spec e q urls st)) w1) workflow_error (\<lambda>r w2.
        published ''relay imported'' (publish_channel_ids e (irr_updated r) False w2)
          (json 201 (ImportBody (import_report_of (base_url e rq) warnings st r))))))"

definition handle_import_relay :: "server_env \<Rightarrow> http_request \<Rightarrow> string + import_request \<Rightarrow> handler" where
  "handle_import_relay e rq body = need body bad_request (\<lambda>q.
     need (playlist_content e q) bad_request (\<lambda>content.
     need (m3u_parse content) (\<lambda>msg. bad_request (''parse m3u: '' @ msg)) (run_import e rq q)))"

section \<open>A list of channels\<close>

definition pick_channel :: "string list \<times> import_channel_entry list \<Rightarrow> txt_entry \<Rightarrow> string list \<times> import_channel_entry list" where
  "pick_channel st ent = (case st of (warnings, ready) \<Rightarrow>
     (if tx_proxy ent \<noteq> []
        then (warnings, ready @ [\<lparr> ice_name = tx_name ent, ice_url = tx_url ent, ice_proxy = tx_proxy ent \<rparr>])
      else if \<not> is_http_stream (tx_url ent) then (warnings @ [skipped ''non-http(s) url'' (tx_name ent)], ready)
      else (warnings, ready @ [\<lparr> ice_name = tx_name ent, ice_url = trim_space (tx_url ent), ice_proxy = [] \<rparr>])))"

definition handle_import_channels :: "server_env \<Rightarrow> string + string \<Rightarrow> handler" where
  "handle_import_channels e body = need body bad_request (\<lambda>content.
     need (txt_parse content) bad_request (\<lambda>parsed.
     (case foldl pick_channel ([], []) parsed of (warnings, ready) \<Rightarrow>
       need (if ready = [] then Inl ''no Channels to import'' else Inr ()) bad_request (\<lambda>_ w.
       or_reply (on_store e (\<lambda>now. import_channels (v_uuid (se_store e)) now ready) w) store_error (\<lambda>r w1.
       published ''channels imported'' (publish_channel_ids e (icr_updated r) True w1)
         (json 201 (ImportChannelsBody \<lparr> cp_created = icr_created r, cp_reused = icr_reused r, cp_added = icr_added r,
            cp_warnings = warnings @ icr_warnings r \<rparr>)))))))"

section \<open>What is not lost\<close>

text \<open>Every entry of a playlist is taken or has its warning, and no URL is taken twice.\<close>

lemma pick_entry_counts:
  "case foldl (pick_entry ig) (ws, taken) ents of (ws', taken') \<Rightarrow>
     length ws' + length taken' = length ws + length taken + length ents"
proof (induction ents arbitrary: ws taken)
  case (Cons ent ents)
  show ?case
  proof (cases "pick_entry ig (ws, taken) ent")
    case (Pair ws1 taken1)
    then have "length ws1 + length taken1 = Suc (length ws + length taken)"
      by (auto simp: pick_entry_def split: if_splits)
    then show ?thesis using Cons.IH [of ws1 taken1] Pair by (simp split: prod.splits)
  qed
qed simp

lemma pick_entry_distinct:
  assumes "distinct (map ie_url taken)" "\<forall>x \<in> set taken. is_http_stream (ie_url x)"
  shows "distinct (map ie_url (snd (foldl (pick_entry ig) (ws, taken) ents))) \<and>
    (\<forall>x \<in> set (snd (foldl (pick_entry ig) (ws, taken) ents)). is_http_stream (ie_url x))"
  using assms
proof (induction ents arbitrary: ws taken)
  case (Cons ent ents)
  have trim: "is_http_stream (trim_space u) = is_http_stream u" for u by (simp add: is_http_stream_def)
  show ?case
  proof (cases "pick_entry ig (ws, taken) ent")
    case (Pair ws1 taken1)
    then have "distinct (map ie_url taken1) \<and> (\<forall>x \<in> set taken1. is_http_stream (ie_url x))"
      using Cons.prems by (auto simp: pick_entry_def import_entry_of_def trim split: if_splits)
    then show ?thesis using Cons.IH [of taken1 ws1] Pair by simp
  qed
qed simp

lemma cap_warnings_length: "length (cap_warnings ws) \<le> 41"
  by (auto simp: cap_warnings_def max_warnings_def)

end
