(* ===== verification/HttpSettings.thy ===== *)
theory HttpSettings
  imports HttpModel
begin

text \<open>
  The settings page: \<^verbatim>\<open>internal/httpapi/settings.go\<close> and the brand icon of \<^verbatim>\<open>brand.go\<close>.

  The icon file is \<open>sw_icon\<close>, its bytes and the second of its last change, and the file it is staged in
  \<open>sw_icon_tmp\<close>.  The image formats are the environment's; an image is its bounds and its pixels.
\<close>

section \<open>Images\<close>

definition brand_icon_url :: string where "brand_icon_url = ''/brand-icon''"
definition brand_icon_size :: int where "brand_icon_size = 128"
definition max_brand_icon_src :: int where "max_brand_icon_src = 2048"

text \<open>The middle square of an image, by the nearest source pixel.\<close>

definition fit_square :: "image \<Rightarrow> int \<Rightarrow> image" where
  "fit_square src size0 =
     (let w = img_w src; h = img_h src;
          side = (if h < w then h else w);
          x0 = img_x src + (w - side) div 2; y0 = img_y src + (h - side) div 2;
          size = (if size0 < 1 then 1 else size0)
      in if w \<le> 0 \<or> h \<le> 0 then src
         else if side \<le> size0 \<and> w = h then src
         else \<lparr> img_x = 0, img_y = 0, img_w = size, img_h = size,
           img_at = (\<lambda>x y. img_at src (x0 + x * side div size) (y0 + y * side div size)) \<rparr>)"

text \<open>Base64 in four-character groups, \<^verbatim>\<open>StdEncoding\<close> with its padding and \<^verbatim>\<open>RawStdEncoding\<close> without.\<close>

definition base64_alphabet :: string where
  "base64_alphabet = ''ABCDEFGHIJKLMNOPQRSTUVWXYZabcdefghijklmnopqrstuvwxyz0123456789+/''"

definition base64_value :: "char \<Rightarrow> nat option" where
  "base64_value c = index_byte base64_alphabet c"

definition base64_bytes :: "nat list \<Rightarrow> byte list" where
  "base64_bytes vs =
     (let n = foldl (\<lambda>a v. 64 * a + v) 0 (vs @ replicate (4 - length vs) 0)
      in take (length vs - 1) [of_nat (n div 65536), of_nat (n div 256 mod 256), of_nat (n mod 256)])"

fun values_of :: "string \<Rightarrow> nat list option" where
  "values_of [] = Some []"
| "values_of (c # s) = (case base64_value c of None \<Rightarrow> None
     | Some v \<Rightarrow> (case values_of s of None \<Rightarrow> None | Some vs \<Rightarrow> Some (v # vs)))"

text \<open>The last group: padded to four, or two or three characters alone.\<close>

definition base64_tail :: "bool \<Rightarrow> string \<Rightarrow> byte list option" where
  "base64_tail padded s =
     (let body = (if \<not> padded then s else if has_suffix s ''=='' then take 2 s else if has_suffix s ''='' then take 3 s else s)
      in if s = [] then Some []
         else if padded \<and> length s \<noteq> 4 \<or> length body < 2 then None
         else map_option base64_bytes (values_of body))"

fun base64_decode :: "bool \<Rightarrow> string \<Rightarrow> byte list option" where
  "base64_decode padded (a # b # c # d # e # s) =
     (case values_of [a, b, c, d] of None \<Rightarrow> None
      | Some vs \<Rightarrow> map_option ((@) (base64_bytes vs)) (base64_decode padded (e # s)))"
| "base64_decode padded s = base64_tail padded s"

definition decode_base64_payload :: "string \<Rightarrow> byte list option" where
  "decode_base64_payload payload =
     (let cleaned = filter (\<lambda>c. c \<notin> {CHR 0x0A, CHR 0x0D, CHR '' '', CHR 0x09}) payload in
      case base64_decode True cleaned of Some b \<Rightarrow> Some b | None \<Rightarrow> base64_decode False cleaned)"

definition string_bytes :: "string \<Rightarrow> byte list" where
  "string_bytes s = map (\<lambda>c. of_nat (of_char c)) s"

definition decode_data_image :: "server_env \<Rightarrow> string \<Rightarrow> string + image" where
  "decode_data_image e url =
     (case cut_byte CHR '','' (trim_space url) of (header, payload, ok) \<Rightarrow>
        (if \<not> ok \<or> \<not> has_prefix header ''data:image/'' then Inl ''brand icon must be an image''
         else case (if contains_str header '';base64'' then decode_base64_payload payload else Some (string_bytes payload)) of
             None \<Rightarrow> Inl ''could not read brand icon''
           | Some raw \<Rightarrow>
               (case se_image_size e raw of
                  None \<Rightarrow> Inl ''brand icon is not a usable image''
                | Some (w, h) \<Rightarrow>
                    if w < 1 \<or> h < 1 \<or> max_brand_icon_src < w \<or> max_brand_icon_src < h
                    then Inl ''brand icon is too large''
                    else (case se_image e raw of
                        None \<Rightarrow> Inl ''brand icon is not a usable image'' | Some img \<Rightarrow> Inr img))))"

section \<open>The plan of an icon\<close>

record icon_plan =
  ic_url :: string
  ic_png :: "byte list"
  ic_remove :: bool
  ic_tmp :: bool

definition no_plan :: icon_plan where
  "no_plan = \<lparr> ic_url = [], ic_png = [], ic_remove = False, ic_tmp = False \<rparr>"

definition plan_brand_icon :: "server_env \<Rightarrow> string \<Rightarrow> server_world \<Rightarrow> store_err + icon_plan" where
  "plan_brand_icon e raw w =
     (let icon = trim_space raw in
      if is_default_brand_icon icon then Inr (no_plan\<lparr>ic_remove := True\<rparr>)
      else if fst (cut_byte CHR ''?'' icon) = brand_icon_url then
        (if sw_icon w = None then Inl (ErrValidation ''uploaded brand icon is missing'')
         else Inr (no_plan\<lparr>ic_url := brand_icon_url\<rparr>))
      else if has_prefix icon ''data:image/'' then
        (case decode_data_image e icon of
           Inl msg \<Rightarrow> Inl (ErrValidation msg)
         | Inr img \<Rightarrow>
             (case se_png e (fit_square img brand_icon_size) of
                None \<Rightarrow> Inl (ErrDb ''png: cannot encode'')
              | Some png \<Rightarrow> Inr (no_plan\<lparr>ic_url := brand_icon_url, ic_png := png\<rparr>)))
      else Inr (no_plan\<lparr>ic_url := icon\<rparr>))"

text \<open>The plan of an update, and the brand with the icon's address in place of its data.\<close>

definition prepare_brand_update :: "server_env \<Rightarrow> brand_settings option \<Rightarrow> server_world \<Rightarrow>
    store_err + (icon_plan \<times> brand_settings option)" where
  "prepare_brand_update e inp w =
     (case inp of
        None \<Rightarrow> Inr (no_plan, None)
      | Some b \<Rightarrow> bindE (plan_brand_icon e (br_icon b) w) (\<lambda>plan.
          (let b' = b\<lparr>br_icon := ic_url plan\<rparr> in
           bindE (validate_brand_settings (v_runes (se_store e)) b') (\<lambda>_. Inr (plan, Some b')))))"

definition stage_brand_icon :: "server_env \<Rightarrow> icon_plan \<Rightarrow> server_world \<Rightarrow> (string + icon_plan) \<times> server_world" where
  "stage_brand_icon e p w =
     (if ic_png p = [] then (Inr p, w)
      else if \<not> se_icon_write e then (Inl ''write failed'', w)
      else (Inr (p\<lparr>ic_tmp := True\<rparr>), w\<lparr>sw_icon_tmp := Some (ic_png p)\<rparr>))"

definition abandon_brand_icon :: "icon_plan \<Rightarrow> server_world \<Rightarrow> server_world" where
  "abandon_brand_icon p w = (if ic_tmp p then w\<lparr>sw_icon_tmp := None\<rparr> else w)"

definition clock_seconds :: "server_world \<Rightarrow> int" where
  "clock_seconds w = g_now (sw_epg w) div second_ns"

text \<open>Whether the files were updated; an icon that is no file any more is removed without looking.\<close>

definition commit_brand_icon :: "server_env \<Rightarrow> icon_plan \<Rightarrow> server_world \<Rightarrow> bool \<times> server_world" where
  "commit_brand_icon e p w =
     (if ic_tmp p then
        (if se_icon_rename e
         then (True, w\<lparr>sw_icon := map_option (\<lambda>b. (b, clock_seconds w)) (sw_icon_tmp w), sw_icon_tmp := None\<rparr>)
         else (False, w\<lparr>sw_icon_tmp := None\<rparr>))
      else if ic_remove p \<or> ic_url p \<noteq> [] \<and> ic_url p \<noteq> brand_icon_url then (True, w\<lparr>sw_icon := None\<rparr>)
      else (True, w))"

definition public_brand_icon :: "string \<Rightarrow> server_world \<Rightarrow> string" where
  "public_brand_icon icon w =
     (if is_default_brand_icon icon then []
      else if fst (cut_byte CHR ''?'' icon) = brand_icon_url then
        (case sw_icon w of None \<Rightarrow> [] | Some (_, t) \<Rightarrow> brand_icon_url @ ''?v='' @ show_int t)
      else icon)"

definition handle_get_brand_icon :: handler where
  "handle_get_brand_icon w = (case sw_icon w of
       None \<Rightarrow> (json 404 (TextBody ''404 page not found''), w) | Some (b, _) \<Rightarrow> answer 200 IconBody b w)"

section \<open>settings.go\<close>

definition settings_response :: "server_env \<Rightarrow> transcode_settings \<Rightarrow> brand_settings \<Rightarrow> server_world \<Rightarrow> settings_reply" where
  "settings_response e t b w = (let c = se_config e; dur = v_show_dur (se_store e) in
     \<lparr> st_brand = \<lparr> br_icon = public_brand_icon (br_icon b) w, br_title = br_title b \<rparr>, st_transcode = t,
       st_ffmpeg = cf_ffmpeg c, st_ffmpeg_ok = se_ffmpeg e,
       st_system = \<lparr> sy_listen = cf_listen c, sy_base = cf_base c, sy_trust = cf_trust c, sy_data_dir = cf_data_dir c,
         sy_database = cf_database c, sy_log_level = cf_log_level c, sy_ffmpeg = cf_ffmpeg c, sy_buffer = cf_buffer c,
         sy_idle = dur (cf_idle c), sy_conn = dur (cf_conn c), sy_epg_max = cf_epg_max c,
         sy_epg_every = dur (cf_epg_every c) \<rparr> \<rparr>)"

definition settings_answer :: "server_env \<Rightarrow> transcode_settings \<Rightarrow> brand_settings \<Rightarrow> handler" where
  "settings_answer e t b w = (json 200 (SettingsBody (settings_response e t b w)), w)"

definition internal_error :: "store_err \<Rightarrow> reply" where
  "internal_error err = error_reply 500 (EpgWorker.err_text err)"

definition handle_get_settings :: "server_env \<Rightarrow> handler" where
  "handle_get_settings e w =
     or_reply (on_store e (\<lambda>_. get_transcode_settings) w) internal_error (\<lambda>t w1.
     or_reply (on_store e (\<lambda>_. get_brand_settings) w1) internal_error (\<lambda>b. settings_answer e t b))"

definition profile_of :: "server_env \<Rightarrow> transcode_settings \<Rightarrow> profile" where
  "profile_of e t = \<lparr> ffmpeg_path = cf_ffmpeg (se_config e), video_crf = ts_crf t, video_preset = ts_preset t,
     audio_bitrate_kbps = ts_bitrate t, max_height = ts_height t, startup_timeout = ts_startup t * second_ns \<rparr>"

text \<open>After the database has the settings: the icon's file, then the profile of the sessions.\<close>

definition settings_saved :: "server_env \<Rightarrow> icon_plan \<Rightarrow> transcode_settings \<Rightarrow> brand_settings \<Rightarrow> handler" where
  "settings_saved e plan t b w =
     (case commit_brand_icon e plan w of
        (False, w1) \<Rightarrow> (error_reply 500 ''settings saved but brand icon file update failed: rename failed'', w1)
      | (True, w1) \<Rightarrow>
          (case live_profile e (profile_of e t) w1 of
             (Some err, w2) \<Rightarrow>
               (error_reply 504 (''settings saved but transcoder profile apply failed: '' @ Session.err_text err), w2)
           | (None, w2) \<Rightarrow> settings_answer e t b w2))"

definition handle_put_settings :: "server_env \<Rightarrow> string + (transcode_settings \<times> brand_settings option) \<Rightarrow> handler" where
  "handle_put_settings e body = need body bad_request (\<lambda>(t, brand).
     need (validate_transcode_settings t) store_error (\<lambda>_ w.
     need (prepare_brand_update e brand w) store_error (\<lambda>(plan0, brand') w0.
     or_reply (stage_brand_icon e plan0 w0) (\<lambda>msg. error_reply 500 (''could not write brand icon: '' @ msg)) (\<lambda>plan w1.
     (case on_store e (\<lambda>_. update_app_settings (v_runes (se_store e)) t brand') w1 of
        (Inl err, w2) \<Rightarrow> (store_error err, abandon_brand_icon plan w2)
      | (Inr (saved, b), w2) \<Rightarrow> settings_saved e plan saved b w2))) w))"

section \<open>The icon's pixels and files\<close>

lemma fit_square_coordinate:
  fixes x side size :: int
  assumes "0 \<le> x" "x < size" "0 < side" "side \<le> w"
  shows "x0 \<le> x0 + (w - side) div 2 + x * side div size \<and> x0 + (w - side) div 2 + x * side div size < x0 + w"
proof -
  have "x * side \<le> (size - 1) * side" using assms by (simp add: mult_right_mono)
  then have "x * side < side * size" using assms by (simp add: algebra_simps)
  moreover have "x * side div size * size \<le> x * side"
    using assms pos_mod_sign [of size "x * side"] div_mult_mod_eq [of "x * side" size] by linarith
  ultimately have "x * side div size < side"
    using assms by (metis linorder_not_less mult.commute mult_right_less_imp_less order_le_less_trans order_less_imp_le)
  moreover have "0 \<le> x * side div size" using assms by (simp add: div_int_pos_iff)
  moreover have "0 \<le> (w - side) div 2" "(w - side) div 2 + side \<le> w" using assms by linarith+
  ultimately show ?thesis by linarith
qed

text \<open>Every pixel of the icon is a pixel of the picture it is made of.\<close>

lemma fit_square_inside:
  assumes "0 < img_w src" "0 < img_h src" "0 \<le> x" "x < img_w (fit_square src n)" "0 \<le> y" "y < img_h (fit_square src n)"
    "0 < n" "\<not> (img_w src = img_h src \<and> img_w src \<le> n)"
  shows "\<exists>x' y'. img_x src \<le> x' \<and> x' < img_x src + img_w src \<and> img_y src \<le> y' \<and> y' < img_y src + img_h src \<and>
    img_at (fit_square src n) x y = img_at src x' y'"
proof -
  let ?side = "if img_h src < img_w src then img_h src else img_w src"
  have f: "fit_square src n = \<lparr> img_x = 0, img_y = 0, img_w = n, img_h = n,
      img_at = (\<lambda>x y. img_at src (img_x src + (img_w src - ?side) div 2 + x * ?side div n)
        (img_y src + (img_h src - ?side) div 2 + y * ?side div n)) \<rparr>"
    using assms by (auto simp: fit_square_def Let_def)
  have "x < n" "y < n" using assms(4,6) by (simp_all add: f)
  have "0 < ?side" "?side \<le> img_w src" "?side \<le> img_h src" using assms(1,2) by auto
  then show ?thesis
    using fit_square_coordinate [OF assms(3) \<open>x < n\<close>, of ?side "img_w src" "img_x src"]
      fit_square_coordinate [OF assms(5) \<open>y < n\<close>, of ?side "img_h src" "img_y src"]
    unfolding f by (intro exI conjI) simp_all
qed

end
