(* ===== verification/HttpServe.thy ===== *)
theory HttpServe
  imports HttpChannels HttpLibrary HttpImport HttpSettings
begin

text \<open>
  The server as a whole: the routes of \<^verbatim>\<open>server.go\<close>, and the steps of the running program - a request, a
  turn of the guide worker, a step of the live sessions, the passing of time, the shutdown and a new start
  on the database of the last run.
\<close>

datatype request =
    GetIndex | GetHealth
  | GetChannels | PostChannel "string + channel_input" | PostChannelImport "string + string"
  | GetChannel string | PutChannel string "string + channel_input" | RemoveChannel string
  | TestChannel string "(string + string) option"
  | GetProxies | PostProxy "string + proxy_input" | GetProxy string | PutProxy string "string + proxy_input"
  | RemoveProxy string
  | GetEpgSources | PostEpgSource "string + epg_input" | PutEpgSource string "string + epg_input"
  | RemoveEpgSource string | PostEpgRefresh | GetEpgStatus | GetEpgChannels string string string
  | GetEpgGuide string guide_params | PostEpgSourceRefresh string
  | GetRelays | PostRelay "string + (string \<times> string)" | PostRelayImport "string + import_request"
  | GetRelay string | PutRelay string "string + (string \<times> string)" | RemoveRelay string
  | PutLayout string "string + layout_group list"
  | PostGroup string "string + string" | PutGroup string string "string + string" | RemoveGroup string string
  | PostMember string "string + membership_input" | PutMember string string "string + membership_input"
  | RemoveMember string string | GetLiveStatus
  | GetSettings | PutSettings "string + (transcode_settings \<times> brand_settings option)"
  | GetBackup | PostRestore "string + library_backup" | GetBrandIcon
  | GetPlaylist string | GetRelayGuide string | GetStream string

text \<open>A stream here is the request alone: nothing happens between its attempts.\<close>

fun serve :: "server_env \<Rightarrow> http_request \<Rightarrow> request \<Rightarrow> handler" where
  "serve e rq GetIndex = handle_index e"
| "serve e rq GetHealth = handle_health e rq"
| "serve e rq GetChannels = handle_list_channels e"
| "serve e rq (PostChannel b) = handle_create_channel e b"
| "serve e rq (PostChannelImport b) = handle_import_channels e b"
| "serve e rq (GetChannel i) = handle_get_channel e i"
| "serve e rq (PutChannel i b) = handle_update_channel e i b"
| "serve e rq (RemoveChannel i) = handle_delete_channel e i"
| "serve e rq (TestChannel i b) = handle_test_channel e i b"
| "serve e rq GetProxies = handle_list_proxies e"
| "serve e rq (PostProxy b) = handle_create_proxy e b"
| "serve e rq (GetProxy i) = handle_get_proxy e i"
| "serve e rq (PutProxy i b) = handle_update_proxy e i b"
| "serve e rq (RemoveProxy i) = handle_delete_proxy e i"
| "serve e rq GetEpgSources = handle_list_epg_sources e"
| "serve e rq (PostEpgSource b) = handle_create_epg_source e b"
| "serve e rq (PutEpgSource i b) = handle_update_epg_source e i b"
| "serve e rq (RemoveEpgSource i) = handle_delete_epg_source e i"
| "serve e rq PostEpgRefresh = handle_refresh_epg"
| "serve e rq GetEpgStatus = handle_epg_status"
| "serve e rq (GetEpgChannels i q n) = handle_search_epg_channels e i q n"
| "serve e rq (GetEpgGuide i g) = handle_epg_source_guide e i g"
| "serve e rq (PostEpgSourceRefresh i) = handle_refresh_epg_source e i"
| "serve e rq GetRelays = handle_list_relays e rq"
| "serve e rq (PostRelay b) = handle_create_relay e b"
| "serve e rq (PostRelayImport b) = handle_import_relay e rq b"
| "serve e rq (GetRelay i) = handle_get_relay e i"
| "serve e rq (PutRelay i b) = handle_update_relay e i b"
| "serve e rq (RemoveRelay i) = handle_delete_relay e i"
| "serve e rq (PutLayout i b) = handle_replace_relay_layout e i b"
| "serve e rq (PostGroup i b) = handle_create_relay_group e i b"
| "serve e rq (PutGroup i g b) = handle_update_relay_group e i g b"
| "serve e rq (RemoveGroup i g) = handle_delete_relay_group e i g"
| "serve e rq (PostMember i b) = handle_add_membership e i b"
| "serve e rq (PutMember i m b) = handle_update_membership e i m b"
| "serve e rq (RemoveMember i m) = handle_delete_membership e i m"
| "serve e rq GetLiveStatus = handle_live_status"
| "serve e rq GetSettings = handle_get_settings e"
| "serve e rq (PutSettings b) = handle_put_settings e b"
| "serve e rq GetBackup = handle_export_backup e"
| "serve e rq (PostRestore b) = handle_restore_backup e b"
| "serve e rq GetBrandIcon = handle_get_brand_icon"
| "serve e rq (GetPlaylist s) = handle_relay_playlist e rq s"
| "serve e rq (GetRelayGuide s) = handle_relay_epg e s"
| "serve e rq (GetStream i) = handle_channel_stream e (\<lambda>_ w. w) i"

text \<open>
  \<^verbatim>\<open>main\<close>: the sessions and the worker start on the database with its settings; on a signal the sessions are
  closed, then the requests end, then the admission closes and the worker's queues are drained.  A worker
  that waits in vain for the holders of admissions has no time left to drain.
\<close>

definition start_server :: "server_env \<Rightarrow> directory \<Rightarrow> directory \<Rightarrow> directory \<Rightarrow> int \<Rightarrow> (byte list \<times> int) option \<Rightarrow> db \<Rightarrow>
    server_world option" where
  "start_server e cache index source now icon d =
     (let c = se_config e;
          opts = \<lparr> o_buffer_size = nat (cf_buffer c), o_idle_timeout = cf_idle c, o_conn_timeout = cf_conn c \<rparr> in
      case get_transcode_settings d of
        (Inl _, _) \<Rightarrow> None
      | (Inr t, d') \<Rightarrow> Some \<lparr> sw_epg = new_service (se_epg e) cache index source now d',
          sw_live = new_manager opts (profile_of e t), sw_icon = icon, sw_icon_tmp = None \<rparr>)"

definition close_live :: "server_env \<Rightarrow> server_world \<Rightarrow> server_world" where
  "close_live e w = (case close_manager (sw_live w) of (ss, m) \<Rightarrow> snd (stop_and_wait e ss (w\<lparr>sw_live := m\<rparr>)))"

definition close_epg :: "epg_env \<Rightarrow> epg_world \<Rightarrow> epg_world" where
  "close_epg e g =
     (let g1 = close_admission g;
          g2 = (if g_held g1 = 0 then snd (drain_pending e g1) else snd (drain e True (wake_worker g1)))
      in snd (loop_step e Cancelled g2))"

definition shut_down :: "server_env \<Rightarrow> server_world \<Rightarrow> server_world" where
  "shut_down e w = (let w1 = close_live e w in w1\<lparr>sw_epg := close_epg (se_epg e) (sw_epg w1)\<rparr>)"

inductive server_step :: "server_world \<Rightarrow> server_world \<Rightarrow> bool" where
  request: "serve e rq r w = (rep, w') \<Longrightarrow> server_step w w'"
| worker: "loop_step e ev (sw_epg w) = (d, g) \<Longrightarrow> server_step w (w\<lparr>sw_epg := g\<rparr>)"
| sessions: "mstep (sw_live w) m \<Longrightarrow> server_step w (w\<lparr>sw_live := m\<rparr>)"
| clock: "g_now (sw_epg w) \<le> t \<Longrightarrow> server_step w (w\<lparr>sw_epg := (sw_epg w)\<lparr>g_now := t\<rparr>\<rparr>)"
| closing: "server_step w (w\<lparr>sw_epg := close_admission (sw_epg w)\<rparr>)"
| shutdown: "server_step w (shut_down e w)"

inductive server_reachable :: "server_world \<Rightarrow> bool" where
  first: "start_server e cache index source now icon empty_db = Some w \<Longrightarrow> server_reachable w"
| restart: "server_reachable w \<Longrightarrow> start_server e cache index source now icon (database w) = Some w' \<Longrightarrow>
    server_reachable w'"
| step: "server_reachable w \<Longrightarrow> server_step w w' \<Longrightarrow> server_reachable w'"

inductive_cases server_stepE: "server_step w w'"

end
