(* ===== verification/ServerInvariant.thy ===== *)
theory ServerInvariant
  imports HttpServe StoreHistory
begin

text \<open>
  What every step of the server keeps.  The locale \<open>server_invariant\<close> carries an invariant of the database
  that the operations of the store settle through the workflows, the guide worker and the handlers, to
  every step of \<^theory_text>\<open>server_step\<close>; it is interpreted on the schema of the tables and on the pairing of the
  mappings with their guide ids.
\<close>

section \<open>What every step keeps\<close>

text \<open>An invariant of the database, the reachability of the session manager, and the admissions held.\<close>

definition epg_goes :: "(db \<Rightarrow> bool) \<Rightarrow> epg_world \<Rightarrow> epg_world \<Rightarrow> bool" where
  "epg_goes I g g' \<longleftrightarrow> (I (g_db g) \<longrightarrow> I (g_db g')) \<and> g_held g' = g_held g"

definition goes :: "(db \<Rightarrow> bool) \<Rightarrow> server_world \<Rightarrow> server_world \<Rightarrow> bool" where
  "goes I w w' \<longleftrightarrow> epg_goes I (sw_epg w) (sw_epg w') \<and> (reachable (sw_live w) \<longrightarrow> reachable (sw_live w'))"

lemma epg_goes_refl: "epg_goes I g g" by (simp add: epg_goes_def)

lemma epg_goes_trans: "epg_goes I g g1 \<Longrightarrow> epg_goes I g1 g2 \<Longrightarrow> epg_goes I g g2" by (auto simp: epg_goes_def)

lemma goes_refl: "goes I w w" by (simp add: goes_def epg_goes_def)

lemma goes_trans: "goes I w w1 \<Longrightarrow> goes I w1 w2 \<Longrightarrow> goes I w w2" by (auto simp: goes_def epg_goes_def)

lemma goes_of: "p = (r, w') \<Longrightarrow> goes I w (snd p) \<Longrightarrow> goes I w w'" by simp

lemma goes_live: "reachable (sw_live w) \<longrightarrow> reachable m \<Longrightarrow> goes I w (w\<lparr>sw_live := m\<rparr>)"
  by (simp add: goes_def epg_goes_refl)

lemma goes_epg: "epg_goes I (sw_epg w) g \<Longrightarrow> goes I w (w\<lparr>sw_epg := g\<rparr>)"
  by (simp add: goes_def)

named_theorems goes_rules "handlers and their parts that keep everything"

lemma goes_or_reply [goes_rules]:
  assumes "goes I w (snd p)" "\<And>x w1. goes I w1 (snd (good x w1))"
  shows "goes I w (snd (or_reply p bad good))"
  using assms goes_trans by (cases p) (auto simp: or_reply_def split: sum.split)

lemma goes_need [goes_rules]: "(\<And>x w. goes I w (snd (good x w))) \<Longrightarrow> goes I w (snd (need r bad good w))"
  by (simp add: need_def goes_or_reply goes_refl)

lemma goes_answer [goes_rules]: "goes I w (snd (answer status f x w))"
  by (simp add: answer_def goes_refl)

lemma goes_pair [goes_rules]: "goes I w w' \<Longrightarrow> goes I w (snd (r, w'))"
  by simp

lemma goes_prod [goes_rules]:
  "goes I w (snd p) \<Longrightarrow> (\<And>r w1. goes I w1 (snd (f r w1))) \<Longrightarrow> goes I w (snd (case_prod f p))"
  using goes_trans by (cases p) auto

lemma goes_option [goes_rules]:
  "goes I w (snd g) \<Longrightarrow> (\<And>x. goes I w (snd (f x))) \<Longrightarrow> goes I w (snd (case_option g f r))"
  by (simp split: option.split)

lemma goes_sum [goes_rules]:
  "(\<And>x. goes I w (snd (f x))) \<Longrightarrow> (\<And>x. goes I w (snd (g x))) \<Longrightarrow> goes I w (snd (case_sum f g r))"
  by (simp split: sum.split)

lemma goes_if [goes_rules]: "goes I w (snd a) \<Longrightarrow> goes I w (snd b) \<Longrightarrow> goes I w (snd (if c then a else b))"
  by simp

lemma goes_published [goes_rules]: "goes I w (snd p) \<Longrightarrow> goes I w (snd (published saved p good))"
  by (auto simp: published_def split: prod.split option.split)

lemma goes_on_epg [goes_rules]: "(\<And>g. epg_goes I g (snd (f g))) \<Longrightarrow> goes I w (snd (on_epg f w))"
  using goes_epg by (metis (no_types, lifting) on_epg_def case_prod_beta snd_conv)

text \<open>Live sessions.\<close>

lemma own_stop: "own_step stop"
  by (auto simp: own_step_def stop_def cancel_pump_def fail_ready_def Let_def split: option.split)

lemma own_remove: "own_step (remove_viewer v)"
  by (auto simp: own_step_def remove_viewer_def map_viewer_def cancel_pump_def Let_def split: option.split)

lemma reachable_own: "own_step f \<Longrightarrow> reachable m \<Longrightarrow> reachable (on_session key f m)"
  using reachable.step mstep.own by blast

lemma goes_stop [goes_rules]: "goes I w (snd (stop_and_wait e ss w))"
proof -
  have "reachable m \<Longrightarrow> reachable (fold (\<lambda>s. on_session (session_key s) stop) ss m)" for m
    by (induction ss arbitrary: m) (auto intro: reachable_own own_stop)
  then show ?thesis by (simp add: stop_and_wait_def goes_live)
qed

lemma goes_retired:
  "(reachable (sw_live w) \<longrightarrow> reachable (snd p)) \<Longrightarrow> goes I w (snd (stop_retired e p w))"
  using goes_trans [OF goes_live goes_stop]
  by (cases p) (auto simp: stop_retired_def goes_live split: sum.split)

lemma goes_live_ops [goes_rules]:
  "goes I w (snd (live_publish e ch iv w))" "goes I w (snd (live_block e i w))" "goes I w (snd (live_profile e prof w))"
proof -
  show "goes I w (snd (live_publish e ch iv w))"
    unfolding live_publish_def using reachable.step mstep.publish by (intro goes_retired impI) (metis prod.collapse)
  show "goes I w (snd (live_block e i w))"
    unfolding live_block_def using reachable.step mstep.block by (intro goes_retired impI) (metis prod.collapse)
  have "reachable (sw_live w) \<longrightarrow> reachable (snd (apply_profile prof (sw_live w)))"
    using reachable.step mstep.profile by (metis prod.collapse)
  then show "goes I w (snd (live_profile e prof w))"
    unfolding live_profile_def using goes_trans [OF goes_live goes_stop] by (auto split: prod.split)
qed

lemma goes_subscribe [goes_rules]: "goes I w (snd (live_subscribe e ch src w))"
proof -
  obtain r m where s: "subscribe (se_roll e) ch src (sw_live w) = (r, m)" by fastforce
  have m: "reachable (sw_live w) \<longrightarrow> reachable m" using reachable.step mstep.subscribe [OF s] by blast
  then show ?thesis
    using s by (auto simp: live_subscribe_def Let_def reachable_own own_stop own_remove intro!: goes_live
        split: sum.split option.split)
qed

section \<open>Operations of the store\<close>

lemma settles_snd: "settles I m \<longleftrightarrow> (\<forall>d. I d \<longrightarrow> I (snd (m d)))"
  unfolding settles_def by (metis prod.collapse snd_conv)

lemma settles_done_with: "settles I (done_with m) \<longleftrightarrow> settles I m"
proof -
  have "snd (done_with m d) = snd (m d)" for d
    by (auto simp: done_with_def bindD_def okD_def split: prod.split sum.split)
  then show ?thesis by (simp add: settles_snd)
qed

lemma settles_unchanged: "(\<And>d. snd (m d) = d) \<Longrightarrow> settles I m"
  by (simp add: settles_snd)

lemma snd_bindD: "snd (m d) = d \<Longrightarrow> (\<And>x. snd (f x d) = d) \<Longrightarrow> snd (bindD m f d) = d"
  by (cases "m d") (auto simp: bindD_def split: sum.split)

lemma reads_same [simp]:
  "snd (get_channel i d) = d" "snd (get_proxy i d) = d" "snd (get_relay n d) = d" "snd (get_epg_source n d) = d"
  "snd (find_epg_source_by_url i d) = d" "snd (get_relay_by_slug i d) = d" "snd (get_membership n d) = d"
  "snd (get_transcode_settings d) = d" "snd (get_brand_settings d) = d" "snd (queryD q d) = d" "snd (okD x d) = d"
  "snd (failD err d) = d"
  by (auto simp: get_channel_def get_proxy_def get_relay_def get_epg_source_def find_epg_source_by_url_def
      get_relay_by_slug_def get_membership_def get_transcode_settings_def get_brand_settings_def queryD_def okD_def
      failD_def liftD_def Let_def split: option.split)

lemma composed_reads_same [simp]:
  "snd (get_relay_detail n d) = d" "snd (get_membership_in_relay n k d) = d" "snd (list_relay_lineup i d) = d"
  "snd (relay_playlist b i d) = d"
  by (auto simp: get_relay_detail_def get_membership_in_relay_def list_relay_lineup_def relay_playlist_def
      intro!: snd_bindD split: prod.split)

section \<open>The queues\<close>

lemma same_goes: "g_db g' = g_db g \<Longrightarrow> g_held g' = g_held g \<Longrightarrow> epg_goes I g g'"
  by (simp add: epg_goes_def)

lemma enqueue_goes: "epg_goes I g (snd (enqueue_all k is g))"
proof (induction "is" arbitrary: g)
  case (Cons i "is")
  obtain ok g1 where 1: "enqueue_locked k i g = (ok, g1)" by fastforce
  then have "epg_goes I g g1"
    by (auto simp: enqueue_locked_def wake_worker_def epg_goes_def split: if_splits work_kind.splits)
  then show ?case using 1 Cons.IH [of g1] epg_goes_trans by (auto split: bool.split)
qed (simp add: epg_goes_refl)

lemma queue_goes:
  "epg_goes I g (snd (enqueue_locked k i g))" "epg_goes I g (snd (enqueue_relay_cleanup i s g))"
  "epg_goes I g (invalidate_source i g)"
  by (auto simp: epg_goes_def enqueue_locked_def wake_worker_def enqueue_relay_cleanup_def invalidate_source_def Let_def
      split: work_kind.split)

lemma each_goes: "(\<And>x g. epg_goes I g (snd (f x g))) \<Longrightarrow> epg_goes I g (snd (each f xs g))"
proof (induction xs arbitrary: g)
  case (Cons x xs)
  obtain ok g1 where 1: "f x g = (ok, g1)" by fastforce
  then have "epg_goes I g g1" using Cons.prems [of g x] by simp
  then show ?case using 1 Cons.IH [OF Cons.prems, of g1] epg_goes_trans by (auto split: prod.split)
qed (simp add: epg_goes_refl)

lemma derived_goes: "epg_goes I g (snd (apply_derived_work e dw g))"
proof -
  have inv: "epg_goes I g (fold invalidate_source is g)" for "is" g
    by (induction "is" arbitrary: g) (auto intro: epg_goes_refl epg_goes_trans queue_goes)
  have del: "epg_goes I g (snd (enqueue_delete_source_files i g))" for i g
    unfolding enqueue_delete_source_files_def using epg_goes_trans queue_goes by blast
  have simple: "epg_goes I g (snd (enqueue_refresh_source i g))" "epg_goes I g (snd (enqueue_refresh_due e g))"
    "epg_goes I g (snd (enqueue_rebuild_relays is g))" for i "is" g
    by (simp_all add: enqueue_refresh_source_def enqueue_refresh_due_def enqueue_rebuild_relays_def queue_goes enqueue_goes)
  note lists = each_goes [where f = enqueue_delete_source_files, OF del]
    each_goes [where f = enqueue_refresh_source, OF simple(1)]
    each_goes [where f = "\<lambda>c. enqueue_relay_cleanup (sc_relay c) (sc_old c)", OF queue_goes(2)]
  let ?g1 = "fold invalidate_source (dw_invalidate dw) g"
  obtain ok2 g2 where 2: "each enqueue_delete_source_files (dw_delete dw) ?g1 = (ok2, g2)" by fastforce
  obtain ok3 g3 where 3: "each enqueue_refresh_source (dw_refresh dw) g2 = (ok3, g3)" by fastforce
  obtain ok4 g4 where 4: "(if dw_due dw then enqueue_refresh_due e g3 else (True, g3)) = (ok4, g4)" by fastforce
  obtain ok5 g5 where 5: "(if dw_rebuild dw \<noteq> [] then enqueue_rebuild_relays (dw_rebuild dw) g4 else (True, g4)) = (ok5, g5)" by fastforce
  obtain ok6 g6 where 6: "each (\<lambda>c. enqueue_relay_cleanup (sc_relay c) (sc_old c)) (dw_cleanup dw) g5 = (ok6, g6)" by fastforce
  have "epg_goes I g ?g1" by (rule inv)
  moreover have "epg_goes I ?g1 g2" "epg_goes I g2 g3" "epg_goes I g5 g6"
    using lists(1) [of ?g1 "dw_delete dw"] lists(2) [of g2 "dw_refresh dw"] lists(3) [of I g5 "dw_cleanup dw"] 2 3 6
    by simp_all
  moreover have "epg_goes I g3 g4" "epg_goes I g4 g5"
    using 4 5 simple(2) [of g3] simple(3) [of g4 "dw_rebuild dw"] epg_goes_refl by (auto split: if_splits)
  ultimately have "epg_goes I g g6" using epg_goes_trans by blast
  then show ?thesis using 2 3 4 5 6 by (simp add: apply_derived_work_def Let_def split: prod.splits)
qed

text \<open>An invariant of the database that every operation of the store settles.\<close>

locale server_invariant = db_invariant I for I +
  assumes exec_settles: "settles I (exec v now op')"
begin

lemma store_settles:
  "settles I (create_proxy (v_uuid (v :: store_env)) now p)" "settles I (update_proxy (v_uuid v) now i p)" "settles I (delete_proxy i)"
  "settles I (create_channel (v_uuid v) now c)" "settles I (update_channel (v_uuid v) now i c)" "settles I (delete_channel i)"
  "settles I (create_epg_source (v_dur v) now ei k)" "settles I (update_epg_source (v_dur v) now n ei k)"
  "settles I (delete_epg_source n)" "settles I (mark_epg_refresh n t msg now)" "settles I (mark_epg_refresh_error n msg now)"
  using exec_settles [of v now "CreateProxy p"] exec_settles [of v now "UpdateProxy i p"]
    exec_settles [of v now "store_op.DeleteProxy i"] exec_settles [of v now "CreateChannel c"]
    exec_settles [of v now "UpdateChannel i c"] exec_settles [of v now "DeleteChannel i"]
    exec_settles [of v now "CreateEPGSource ei k"] exec_settles [of v now "UpdateEPGSource n ei k"]
    exec_settles [of v now "DeleteEPGSource n"] exec_settles [of v now "MarkEPGSourceRefresh n t msg"]
    exec_settles [of v now "MarkEPGSourceRefreshError n msg"]
  by (simp_all add: settles_done_with)

lemma relay_settles:
  "settles I (create_relay now name slug)" "settles I (update_relay now n name slug)" "settles I (delete_relay n)"
  "settles I (create_relay_group n name)" "settles I (update_relay_group n g name)" "settles I (delete_relay_group n g)"
  "settles I (add_membership n mi)" "settles I (update_membership n mi)" "settles I (delete_membership n)"
  "settles I (replace_relay_layout now n l)" "settles I (update_app_settings (v_runes (v :: store_env)) ts b)"
  "settles I (import_relay (v_uuid v) (v_dur v) (v_show_dur v) now ir)" "settles I (import_channels (v_uuid v) now es)"
  "settles I (restore_library (v_uuid v) (v_uuid_ok v) now lb)"
  using exec_settles [of v now "CreateRelay name slug"] exec_settles [of v now "UpdateRelay n name slug"]
    exec_settles [of v now "DeleteRelay n"] exec_settles [of v now "CreateRelayGroup n name"]
    exec_settles [of v now "UpdateRelayGroup n g name"] exec_settles [of v now "DeleteRelayGroup n g"]
    exec_settles [of v now "AddMembership n mi"] exec_settles [of v now "UpdateMembership n mi"]
    exec_settles [of v now "DeleteMembership n"] exec_settles [of v now "ReplaceRelayLayout n l"]
    exec_settles [of v now "UpdateAppSettings ts b"] exec_settles [of v now "ImportRelay ir"]
    exec_settles [of v now "ImportChannels es"] exec_settles [of v now "RestoreLibrary lb"]
  by (simp_all add: settles_done_with)

lemma read_settles:
  "settles I (get_channel i)" "settles I (get_proxy i)" "settles I (get_relay n)" "settles I (get_relay_detail n)"
  "settles I (get_epg_source n)" "settles I (find_epg_source_by_url i)" "settles I (get_relay_by_slug i)"
  "settles I (get_membership_in_relay n k)" "settles I get_transcode_settings" "settles I get_brand_settings"
  "settles I (relay_playlist b s)"
  by (simp_all add: settles_unchanged)

lemmas settled_ops = store_settles relay_settles read_settles

lemma on_db_goes: "settles I m \<Longrightarrow> epg_goes I g (snd (on_db m g))"
  by (auto simp: settles_def epg_goes_def on_db_def split: prod.split)

lemma on_store_goes: "settles I (m (ev_stamp (se_epg e) (g_now (sw_epg w)))) \<Longrightarrow> goes I w (snd (on_store e m w))"
  unfolding on_store_def using on_db_goes goes_epg by (metis (no_types, lifting) on_epg_def case_prod_beta snd_conv)

lemma store_goes [goes_rules]: "(\<And>now. settles I (m now)) \<Longrightarrow> goes I w (snd (on_store e m w))"
  by (rule on_store_goes)

text \<open>The workflows.\<close>

lemma admission_goes: "(\<And>g. epg_goes I g (snd (fn g))) \<Longrightarrow> epg_goes I g (snd (with_admission fn g))"
proof -
  assume fn: "\<And>g. epg_goes I g (snd (fn g))"
  obtain r g2 where r: "fn (g\<lparr>g_held := Suc (g_held g)\<rparr>) = (r, g2)" by fastforce
  then have "epg_goes I (g\<lparr>g_held := Suc (g_held g)\<rparr>) g2" using fn [of "g\<lparr>g_held := Suc (g_held g)\<rparr>"] by simp
  then show ?thesis
    using r by (auto simp: with_admission_def acquire_admission_def release_admission_def epg_goes_def split: prod.split)
qed

lemma then_goes:
  "(\<And>now. settles I (m now)) \<Longrightarrow> (\<And>x g. epg_goes I g (snd (k x g))) \<Longrightarrow> epg_goes I g (snd (then_do m e k g))"
  using on_db_goes [of "m (ev_stamp e (g_now g))" g] epg_goes_trans
  by (auto simp: then_do_def split: prod.split sum.split)

lemma finish_goes: "epg_goes I g (snd (finish e dw x g))"
  by (simp add: finish_def derived_goes)

lemma value_goes: "epg_goes I g (snd (Inr x, g))"
  by (simp add: epg_goes_refl)

lemma choice_goes:
  "epg_goes I g (snd (a g)) \<Longrightarrow> epg_goes I g (snd (b g)) \<Longrightarrow> epg_goes I g (snd ((if c then a else b) g))"
  by simp

lemmas flow_rules = choice_goes admission_goes then_goes finish_goes value_goes settled_ops

lemma source_workflows [goes_rules]:
  "epg_goes I g (snd (wf_create_epg_source e v k ei g))" "epg_goes I g (snd (wf_update_epg_source e v k i ei g))"
  "epg_goes I g (snd (wf_delete_epg_source e i g))" "epg_goes I g (snd (wf_delete_relay e i g))"
  "epg_goes I g (snd (wf_restore_library e v lb g))" "epg_goes I g (snd (wf_import_relay e v ir g))"
  unfolding wf_create_epg_source_def wf_update_epg_source_def wf_delete_epg_source_def wf_delete_relay_def
    wf_restore_library_def wf_import_relay_def
  by (rule flow_rules)+

lemma mapping_workflows [goes_rules]:
  "epg_goes I g (snd (wf_update_relay e i name slug g))" "epg_goes I g (snd (wf_add_membership e i mi g))"
  "epg_goes I g (snd (wf_update_membership e i k mi g))" "epg_goes I g (snd (wf_delete_membership e i k g))"
  unfolding wf_update_relay_def wf_add_membership_def wf_update_membership_def wf_delete_membership_def
  by (rule flow_rules)+

lemma channel_workflow [goes_rules]: "epg_goes I g (snd (wf_update_channel e v i ci g))"
  unfolding wf_update_channel_def enqueue_channel_epg_rebuild_def
  by (rule flow_rules | simp add: epg_goes_refl derived_goes)+

text \<open>The worker.\<close>

lemma slug_goes: "epg_goes I g (snd (cleanup_slug e r s g))"
proof -
  obtain x g1 where 1: "on_db (get_relay_by_slug (trim_space s)) g = (x, g1)" by fastforce
  then show ?thesis using on_db_read_eq(3) [OF 1]
    by (auto simp: cleanup_slug_def Let_def epg_goes_def split: sum.split store_err.split)
qed

lemma taken_goes: "epg_goes I g (snd (take_pending e k g))" "epg_goes I g (snd (take_cleanup_ready e g))"
  by (auto intro!: same_goes simp: take_pending_def take_cleanup_ready_def tick_def Let_def split: work_kind.split prod.split)

sublocale worker: epg_drain_frame "epg_goes I"
proof unfold_locales
  show "epg_goes I w w1 \<Longrightarrow> epg_goes I w1 w2 \<Longrightarrow> epg_goes I w w2" for w w1 w2 by (rule epg_goes_trans)
  show "epg_goes I w (snd (on_db (mark_epg_refresh i t m n) w))" for w i t m n by (rule on_db_goes) (rule settled_ops)
  show "epg_goes I w (snd (on_db (mark_epg_refresh_error i m n) w))" for w i m n by (rule on_db_goes) (rule settled_ops)
  show "epg_goes I w (snd (cleanup_slug e relay s w))" for w e relay s by (rule slug_goes)
  show "epg_goes I w (snd (take_pending e k w))" for w e k by (rule taken_goes)
  show "epg_goes I w (snd (take_cleanup_ready e w))" for w e by (rule taken_goes)
qed (auto intro!: same_goes simp: files_only_def write_relay_cache_def defer_cleanup_def split: prod.split)

lemma loop_goes: "epg_goes I g (snd (loop_step e ev g))"
proof -
  have "epg_goes I g (snd (drain e False (snd (enqueue_refresh_due e g))))"
    using epg_goes_trans [OF enqueue_goes worker.drain_frame] by (simp add: enqueue_refresh_due_def)
  moreover have "epg_goes I g (g\<lparr>g_wake := False\<rparr>)" by (simp add: epg_goes_def)
  ultimately show ?thesis
    using worker.drain_frame epg_goes_trans by (auto simp: loop_step_def Let_def split: worker_event.split)
qed

lemma guide_questions [goes_rules]:
  "epg_goes I g (snd (enqueue_refresh_enabled g))" "epg_goes I g (snd (enqueue_refresh_source i g))"
  "epg_goes I g (snd (query_source_guide e i url stale q g))"
  unfolding enqueue_refresh_enabled_def enqueue_refresh_source_def query_source_guide_def
  using worker.files [OF files_eligible] epg_goes_refl
  by (auto intro: enqueue_goes queue_goes split: sum.split option.split prod.split) (metis snd_conv)+

lemma eligible_id_goes: "epg_goes I g (snd (eligible_id e i g))"
proof -
  obtain r g1 where 1: "on_db (get_epg_source i) g = (r, g1)" by fastforce
  then show ?thesis using on_db_read_eq(1) [OF 1] worker.files [OF files_eligible] epg_goes_refl
    by (auto simp: eligible_id_def split: sum.split)
qed

lemma search_goes [goes_rules]: "epg_goes I g (snd (search_source_channels e i q n g))"
  using eligible_id_goes [of g e i] by (auto simp: search_source_channels_def split: prod.split option.split)

lemma count_goes [goes_rules]: "epg_goes I g (snd (count_eligible_sources e is g))"
proof (induction "is" arbitrary: g)
  case (Cons i "is")
  obtain r g1 where 1: "eligible_id e i g = (r, g1)" by fastforce
  then have "epg_goes I g g1" using eligible_id_goes [of g e i] by simp
  then show ?case using 1 Cons.IH [of g1] epg_goes_trans by (auto split: prod.split)
qed (simp add: epg_goes_refl)

lemma tvg_goes: "epg_goes I g (snd (sources_with_tvg e is tvg g))"
proof (induction "is" arbitrary: g)
  case (Cons i "is")
  obtain r g1 where 1: "eligible_id e i g = (r, g1)" by fastforce
  then have "epg_goes I g g1" using eligible_id_goes [of g e i] by simp
  then show ?case using 1 Cons.IH [of g1] epg_goes_trans by (auto split: prod.split)
qed (simp add: epg_goes_refl)

lemma find_tvg_goes [goes_rules]: "epg_goes I g (snd (find_source_ids_by_tvg e is tvg g))"
  by (simp add: find_source_ids_by_tvg_def tvg_goes epg_goes_refl)

text \<open>Publications.\<close>

lemma block_all_goes [goes_rules]: "goes I w (snd (block_all e is w))"
proof (induction "is" arbitrary: w)
  case (Cons i "is")
  show ?case unfolding block_all.simps by (rule goes_rules Cons.IH goes_refl)+
qed (simp add: goes_refl)

lemma publish_ids_goes [goes_rules]: "goes I w (snd (publish_channel_ids e is iv w))"
proof (induction "is" arbitrary: w)
  case (Cons i "is")
  show ?case unfolding publish_channel_ids.simps by (rule goes_rules settled_ops Cons.IH goes_refl)+
qed (simp add: goes_refl)

lemma publish_each_goes [goes_rules]: "goes I w (snd (publish_each e is w))"
proof (induction "is" arbitrary: w)
  case (Cons i "is")
  show ?case unfolding publish_each.simps by (rule goes_rules settled_ops goes_refl | simp add: Cons.IH)+
qed (simp add: goes_refl)

lemma attempts_goes [goes_rules]:
  "(\<And>n w. goes I w (others n w)) \<Longrightarrow> goes I w (snd (subscribe_attempts e others k n err i w))"
proof (induction k arbitrary: n w err)
  case (Suc k)
  have "goes I (others n w) (snd (subscribe_attempts e others (Suc k) n err i w))"
    unfolding subscribe_attempts.simps by (rule goes_rules settled_ops Suc goes_refl)+
  then show ?case using Suc.prems goes_trans by blast
qed (simp add: goes_refl)

lemma known_sources_goes [goes_rules]: "goes I w (snd (known_sources e us w))"
proof (induction us arbitrary: w)
  case (Cons u us)
  show ?case unfolding known_sources.simps by (rule goes_rules settled_ops Cons.IH goes_refl)+
qed (simp add: goes_refl)

end

end
