(* ===== verification/HttpSafety.thy ===== *)
theory HttpSafety
  imports ServerInvariant EpgLive
begin

text \<open>
  Every request, every turn of the worker and every step of the sessions keeps the server consistent.
\<close>

context server_invariant
begin

text \<open>Handlers that take the parts of their value.\<close>

lemma goes_parts: "(\<And>a b. goes I w (snd (f a b w))) \<Longrightarrow> goes I w (snd (case_prod f x w))"
  by (cases x) simp

lemma goes_value: "(\<And>a b. goes I w (snd (f a b))) \<Longrightarrow> goes I w (snd (case_prod f x))"
  by (cases x) simp

lemma match_entry_goes: "goes I w (snd (match_entry e known k ent (st, w)))"
proof -
  let ?p = "if known = [] then ([], w) else on_epg (find_source_ids_by_tvg (se_epg e) known (ie_tvg ent)) w"
  obtain found w1 where 1: "?p = (found, w1)" by fastforce
  have "goes I w (snd ?p)" by (auto intro: goes_on_epg find_tvg_goes goes_refl)
  then have "goes I w w1" using 1 by simp
  then show ?thesis using 1 by (auto simp: match_entry_def Let_def goes_refl split: list.split)
qed

lemma match_all_goes: "goes I w (snd (fold (match_entry e known k) ents (st, w)))"
proof (induction ents arbitrary: st w)
  case (Cons ent ents)
  obtain st1 w1 where 1: "match_entry e known k ent (st, w) = (st1, w1)" by fastforce
  then have "goes I w w1" using match_entry_goes [of w e known k ent st] by simp
  then show ?case using 1 Cons.IH [of w1 st1] by (auto intro: goes_trans)
qed (simp add: goes_refl)

lemma match_entries_goes: "goes I w (snd (match_entries e urls entries w))"
proof (cases "urls = []")
  case False
  then show ?thesis
    unfolding match_entries_def if_not_P [OF False]
    by (intro goes_prod goes_rules match_all_goes)
qed (simp add: match_entries_def goes_refl)

lemma run_import_goes [goes_rules]: "goes I w (snd (run_import e rq q pl w))"
proof -
  have "goes I w (snd (case match_entries e urls entries w of (st, w1) \<Rightarrow>
        or_reply (on_epg (wf_import_relay (se_epg e) (se_store e) (import_spec e q urls st)) w1) workflow_error (\<lambda>r w2.
        published ''relay imported'' (publish_channel_ids e (irr_updated r) False w2) (good r st))))" for urls entries good
    by (rule goes_prod match_entries_goes goes_rules)+
  then show ?thesis by (auto simp: run_import_def split: prod.split)
qed

lemmas handler_rules = goes_rules goes_refl settled_ops goes_parts

lemma channel_handlers [goes_rules]:
  "goes I w (snd (handle_list_channels e w))" "goes I w (snd (handle_get_channel e i w))"
  "goes I w (snd (handle_create_channel e cb w))" "goes I w (snd (handle_update_channel e i cb w))"
  "goes I w (snd (handle_delete_channel e i w))" "goes I w (snd (handle_test_channel e i tb w))"
  "goes I w (snd (handle_live_status w))"
  unfolding handle_list_channels_def handle_get_channel_def handle_create_channel_def handle_update_channel_def
    handle_delete_channel_def handle_test_channel_def handle_live_status_def
  by (rule handler_rules)+

lemma stream_goes [goes_rules]:
  "(\<And>n w. goes I w (others n w)) \<Longrightarrow> goes I w (snd (handle_channel_stream e others i w))"
  unfolding handle_channel_stream_def subscribe_channel_def
  by (rule handler_rules | assumption)+

lemma proxy_handlers [goes_rules]:
  "goes I w (snd (handle_list_proxies e w))" "goes I w (snd (handle_get_proxy e i w))"
  "goes I w (snd (handle_create_proxy e pb w))" "goes I w (snd (handle_update_proxy e i pb w))"
  "goes I w (snd (handle_delete_proxy e i w))"
  unfolding handle_list_proxies_def handle_get_proxy_def handle_create_proxy_def handle_update_proxy_def
    handle_delete_proxy_def
  by (rule handler_rules)+

lemma relay_handlers [goes_rules]:
  "goes I w (snd (handle_list_relays e rq w))" "goes I w (snd (relay_reply e status n w))"
  "goes I w (snd (handle_create_relay e rb w))" "goes I w (snd (handle_get_relay e i w))"
  "goes I w (snd (handle_update_relay e i rb w))" "goes I w (snd (handle_delete_relay e i w))"
  "goes I w (snd (handle_replace_relay_layout e i lb w))" "goes I w (snd (handle_relay_playlist e rq s w))"
  "goes I w (snd (handle_relay_epg e s w))"
  unfolding handle_list_relays_def relay_reply_def handle_create_relay_def handle_get_relay_def
    handle_update_relay_def handle_delete_relay_def handle_replace_relay_layout_def handle_relay_playlist_def
    handle_relay_epg_def Let_def
  by (rule handler_rules)+

lemma lineup_handlers [goes_rules]:
  "goes I w (snd (handle_create_relay_group e i nb w))" "goes I w (snd (handle_update_relay_group e i j nb w))"
  "goes I w (snd (handle_delete_relay_group e i j w))" "goes I w (snd (handle_add_membership e i mb w))"
  "goes I w (snd (handle_update_membership e i j mb w))" "goes I w (snd (handle_delete_membership e i j w))"
  unfolding handle_create_relay_group_def handle_update_relay_group_def handle_delete_relay_group_def
    handle_add_membership_def handle_update_membership_def handle_delete_membership_def
  by (rule handler_rules)+

lemma started_goes: "goes I w (snd p) \<Longrightarrow> goes I w (snd (started p))"
  by (cases p) (simp add: started_def)

lemma source_handlers [goes_rules]:
  "goes I w (snd (handle_list_epg_sources e w))" "goes I w (snd (handle_create_epg_source e eb w))"
  "goes I w (snd (handle_update_epg_source e i eb w))" "goes I w (snd (handle_delete_epg_source e i w))"
  "goes I w (snd (handle_refresh_epg w))" "goes I w (snd (handle_refresh_epg_source e i w))"
  "goes I w (snd (handle_epg_status w))" "goes I w (snd (handle_search_epg_channels e i q n w))"
  "goes I w (snd (handle_epg_source_guide e i gp w))"
  unfolding handle_list_epg_sources_def handle_create_epg_source_def handle_update_epg_source_def
    handle_delete_epg_source_def handle_refresh_epg_def handle_refresh_epg_source_def handle_epg_status_def
    handle_search_epg_channels_def handle_epg_source_guide_def epg_source_reply_def
  by (rule handler_rules started_goes)+

lemma import_handlers [goes_rules]:
  "goes I w (snd (handle_import_relay e rq ib w))" "goes I w (snd (handle_import_channels e sb w))"
  unfolding handle_import_relay_def handle_import_channels_def
  by (rule handler_rules)+

lemma backup_handlers [goes_rules]:
  "goes I w (snd (handle_export_backup e w))" "goes I w (snd (handle_restore_backup e lb w))"
  unfolding handle_export_backup_def handle_restore_backup_def sync_restored_live_def
  by (rule handler_rules)+

lemma icon_goes:
  "goes I w (snd (stage_brand_icon e p w))" "goes I w (abandon_brand_icon p w)" "goes I w (snd (commit_brand_icon e p w))"
  by (simp_all add: stage_brand_icon_def abandon_brand_icon_def commit_brand_icon_def goes_def epg_goes_refl)

lemma settings_answer_goes [goes_rules]: "goes I w (snd (settings_answer e t b w))"
  by (simp add: settings_answer_def goes_refl)

lemma profile_then_answer:
  "goes I w (snd (case live_profile e pr w of (Some err, w2) \<Rightarrow> (bad err, w2) | (None, w2) \<Rightarrow> settings_answer e t b w2))"
  by (rule goes_rules goes_refl)+

lemma settings_saved_goes [goes_rules]: "goes I w (snd (settings_saved e p t b w))"
proof -
  obtain ok w1 where 1: "commit_brand_icon e p w = (ok, w1)" by fastforce
  then have "goes I w w1" using icon_goes(3) [of w e p] by simp
  moreover have "goes I w1 (snd (settings_saved e p t b w))"
    using profile_then_answer [where w = w1 and pr = "profile_of e t"] goes_refl by (cases ok) (simp_all add: settings_saved_def 1)
  ultimately show ?thesis by (rule goes_trans)
qed

lemma put_store_goes:
  "goes I w (snd (case on_store e (\<lambda>_. update_app_settings (v_runes (se_store e)) t b) w of
     (Inl err, w2) \<Rightarrow> (store_error err, abandon_brand_icon p w2)
   | (Inr (saved, br), w2) \<Rightarrow> settings_saved e p saved br w2))"
  by (rule handler_rules settings_saved_goes icon_goes goes_value)+

lemma settings_handlers [goes_rules]:
  "goes I w (snd (handle_get_settings e w))" "goes I w (snd (handle_get_brand_icon w))"
  "goes I w (snd (handle_put_settings e ub w))" "goes I w (snd (handle_health e rq w))"
  "goes I w (snd (handle_index e w))"
proof -
  show "goes I w (snd (handle_get_settings e w))"
    unfolding handle_get_settings_def by (rule handler_rules settings_answer_goes)+
  show "goes I w (snd (handle_get_brand_icon w))" "goes I w (snd (handle_health e rq w))"
    by (auto simp: handle_get_brand_icon_def handle_health_def answer_def goes_refl split: option.split)
  show "goes I w (snd (handle_index e w))"
    by (simp add: handle_index_def answer_def goes_refl split: option.split)
  show "goes I w (snd (handle_put_settings e ub w))"
    unfolding handle_put_settings_def by (rule goes_need goes_parts goes_or_reply icon_goes put_store_goes)+
qed

lemma serve_goes: "goes I w (snd (serve e rq r w))"
  by (cases r) (simp_all only: serve.simps, (rule goes_rules goes_refl)+)

text \<open>The steps of the server.\<close>

lemma close_epg_goes: "epg_goes I g (close_epg e g)"
proof -
  have wake: "epg_goes I g1 (wake_worker g1)" for g1 by (rule same_goes) (simp_all add: wake_worker_def)
  have drained: "epg_goes I g1 (snd (drain_pending e g1))" "epg_goes I g1 (snd (drain e True (wake_worker g1)))" for g1
    unfolding drain_pending_def by (rule epg_goes_trans [OF wake worker.drain_frame])+
  define g1 where "g1 = close_admission g"
  define g2 where "g2 = (if g_held g1 = 0 then snd (drain_pending e g1) else snd (drain e True (wake_worker g1)))"
  have "epg_goes I g g1" by (rule same_goes) (simp_all add: g1_def close_admission_def)
  moreover have "epg_goes I g1 g2" unfolding g2_def by (simp add: drained)
  ultimately have "epg_goes I g (snd (loop_step e Cancelled g2))" using loop_goes epg_goes_trans by blast
  then show ?thesis by (simp only: close_epg_def Let_def g1_def g2_def)
qed

lemma close_live_goes: "goes I w (close_live e w)"
proof -
  obtain ss m where m: "close_manager (sw_live w) = (ss, m)" by fastforce
  then have "goes I w (w\<lparr>sw_live := m\<rparr>)" using reachable.step mstep.close by (intro goes_live) blast
  then show ?thesis using goes_trans [OF _ goes_stop] by (simp add: close_live_def m)
qed

lemma step_goes: "server_step w w' \<Longrightarrow> goes I w w'"
proof (induction rule: server_step.induct)
  case (request e rq r w rep w')
  then show ?case using serve_goes [of w e rq r] by simp
next
  case (worker e ev w d g)
  then show ?case using loop_goes [of "sw_epg w" e ev] by (intro goes_epg) simp
next
  case (sessions w m)
  then show ?case using reachable.step by (intro goes_live) blast
next
  case (clock w t)
  then show ?case by (intro goes_epg) (simp add: epg_goes_def)
next
  case (closing w)
  then show ?case by (intro goes_epg) (simp add: epg_goes_def close_admission_def)
next
  case (shutdown w e)
  show ?case
    unfolding shut_down_def Let_def by (rule goes_trans [OF close_live_goes goes_epg [OF close_epg_goes]])
qed

lemma startup_goes: "epg_goes I g (reconcile_startup e g)"
proof -
  have each: "epg_goes I g (foldl f g xs)" if "\<And>g x. epg_goes I g (f g x)" for f xs and g :: epg_world
    using that by (induction xs arbitrary: g) (auto intro: epg_goes_refl epg_goes_trans)
  have load: "epg_goes I g (load_live_index e g src)" for g src
  proof -
    obtain r g1 where 1: "eligible_source e (es_id src) (es_url src) g = (r, g1)" by fastforce
    then have "epg_goes I g g1" using worker.files [OF files_eligible] by (metis snd_conv)
    then show ?thesis
      using 1 worker.files [OF files_simple(4)] epg_goes_refl epg_goes_trans
      by (auto simp: load_live_index_def split: option.split)
  qed
  have sweep: "epg_goes I g (sweep_source e is g n)" "epg_goes I g (sweep_cache e ss g n)" for g "is" ss n
    using worker.files [OF files_simple(3)] epg_goes_refl
    by (auto simp: sweep_source_def sweep_cache_def epg_goes_def split: option.split)
  define g1 where "g1 = foldl (load_live_index e) g (list_epg_sources (g_db g))"
  define g2 where "g2 = snd (enqueue_rebuild_relays (map rl_id (list_relays (g_db g1))) g1)"
  define g3 where "g3 = foldl (sweep_source e (map es_id (list_epg_sources (g_db g)))) g2 (map fst (g_source_dir g2))"
  have "epg_goes I g g1" unfolding g1_def by (rule each) (rule load)
  moreover have "epg_goes I g1 g2" unfolding g2_def enqueue_rebuild_relays_def by (rule enqueue_goes)
  moreover have "epg_goes I g2 g3" unfolding g3_def by (rule each) (rule sweep)
  moreover have "epg_goes I g3 (reconcile_startup e g)"
    unfolding reconcile_startup_def Let_def g1_def [symmetric] g2_def [symmetric] g3_def [symmetric]
    by (rule each) (rule sweep)
  ultimately show ?thesis using epg_goes_trans by blast
qed

lemma start_keeps:
  assumes "start_server e cache index source now icon d = Some w" "I d"
  shows "I (database w) \<and> g_held (sw_epg w) = 0 \<and> reachable (sw_live w)"
proof -
  obtain r d1 where r: "get_transcode_settings d = (r, d1)" by fastforce
  then have [simp]: "d1 = d" by (metis reads_same(8) snd_conv)
  show ?thesis
    using assms(1) r assms(2) startup_goes reachable.init
    by (auto simp: start_server_def new_service_def database_def epg_goes_def Let_def split: sum.splits)
qed

lemma server_keeps:
  assumes "I empty_db" "server_reachable w"
  shows "I (database w) \<and> g_held (sw_epg w) = 0 \<and> reachable (sw_live w)"
  using assms(2)
proof (induction rule: server_reachable.induct)
  case (first e cache index source now icon w)
  then show ?case using start_keeps assms(1) by blast
next
  case (restart w e cache index source now icon w')
  then show ?case using start_keeps by blast
next
  case (step w w')
  then show ?case using step_goes [of w w'] by (auto simp: goes_def epg_goes_def database_def)
qed

end

section \<open>The two invariants of the database\<close>

interpretation tables: server_invariant schema_ok
  by (intro server_invariant.intro server_invariant_axioms.intro schema.db_invariant_axioms schema_exec)

interpretation mappings: server_invariant pairs_ok
  by (intro server_invariant.intro server_invariant_axioms.intro pair.db_invariant_axioms pair_exec)

lemma pairs_empty: "pairs_ok empty_db"
  by (simp add: pairs_ok_def empty_db_def)

text \<open>C1: in every state the running server can reach, over any requests, turns of the guide worker, steps
  of the live sessions and restarts, the tables satisfy every constraint of the schema, every channel has a
  complete guide mapping or none, the session manager satisfies its invariant, and no admission of the guide
  worker is held between two requests.\<close>

theorem server_consistent:
  assumes "server_reachable w"
  shows "schema_ok (database w) \<and> pairs_ok (database w) \<and> minv (sw_live w) \<and> g_held (sw_epg w) = 0"
  using tables.server_keeps [OF schema_empty assms] mappings.server_keeps [OF pairs_empty assms] minv_reachable
  by blast

text \<open>A server on an empty database that gets its first channel.\<close>

definition sample_server :: server_env where
  "sample_server = \<lparr> se_store = sample_env, se_epg = sample_epg_env,
     se_config = \<lparr> cf_listen = ''0.0.0.0:8080'', cf_base = ''http://tv'', cf_trust = False, cf_data_dir = ''data'',
       cf_database = ''tvr.db'', cf_log_level = ''info'', cf_ffmpeg = ''ffmpeg'', cf_buffer = 8, cf_idle = 1, cf_conn = 1,
       cf_epg_max = 1000, cf_epg_every = hour_ns \<rparr>,
     se_build = \<lparr> bd_version = ''1.0'', bd_commit = [] \<rparr>, se_index = Some ''<html>'',
     se_roll = (\<lambda>_. 0), se_wait = (\<lambda>_. None), se_ready = (\<lambda>_. None), se_probe = (\<lambda>_ _ _. ProbeFailed ''refused'' False),
     se_playlist = (\<lambda>_. FetchFailed ''refused''), se_rfc3339 = (\<lambda>_. Inl ''bad time''), se_ffmpeg = True, se_icon_write = True,
     se_icon_rename = True, se_image_size = (\<lambda>_. None), se_image = (\<lambda>_. None), se_png = (\<lambda>_. None) \<rparr>"

definition sample_channel :: "string \<Rightarrow> channel_input" where
  "sample_channel u = \<lparr> cin_name = ''One'', cin_logo = [], cin_url = u, cin_upstreams = None, cin_policy = [],
     cin_fixed = [], cin_headers = None, cin_transcode = None, cin_epg = None, cin_tvg = None \<rparr>"

definition sample_start :: server_world where
  "sample_start = the (start_server sample_server [] [] [] 0 None empty_db)"

definition sample_reply :: "reply \<times> server_world" where
  "sample_reply = handle_create_channel sample_server (Inr (sample_channel ''http://h/1'')) sample_start"

lemma sample_reachable: "server_reachable (snd sample_reply)"
proof -
  have "start_server sample_server [] [] [] 0 None empty_db \<noteq> None" by (simp add: start_server_def get_transcode_settings_def empty_db_def Let_def)
  then have "server_reachable sample_start"
    unfolding sample_start_def by (intro server_reachable.first [of sample_server "[]" "[]" "[]" 0 None]) simp
  moreover have "server_step sample_start (snd sample_reply)"
    by (rule server_step.request [of sample_server undefined "PostChannel (Inr (sample_channel ''http://h/1''))" _ "fst sample_reply"])
      (simp add: sample_reply_def)
  ultimately show ?thesis by (rule server_reachable.step)
qed

lemma sample_stored: "rp_status (fst sample_reply) = 201 \<and> map cr_id (t_channels (database (snd sample_reply))) = [''u'']"
  by code_simp

theorem server_consistent_witness:
  "map cr_id (t_channels (database (snd sample_reply))) = [''u''] \<and> schema_ok (database (snd sample_reply))"
  using sample_stored server_consistent [OF sample_reachable] by simp

end
