(* ===== verification/HttpLive.thy ===== *)
theory HttpLive
  imports HttpSafety
begin

text \<open>
  Channels and their sessions together: what an update and a delete of a channel leave behind for its
  viewers, whether the session that had to end answered in time (200, 204) or not (504).
\<close>

section \<open>Publications\<close>

text \<open>The manager after a publication: the session that is told to stop stays where it is.\<close>

definition retired_world :: "(stream_err + session option) \<times> manager \<Rightarrow> manager \<Rightarrow> bool" where
  "retired_world p m' \<longleftrightarrow> m_blocked m' = m_blocked (snd p) \<and> m_revisions m' = m_revisions (snd p) \<and>
     (\<forall>ch. (map_of (m_sessions m') ch = None) = (map_of (m_sessions (snd p)) ch = None))"

lemma on_session_kept:
  "m_blocked (on_session k f m) = m_blocked m" "m_revisions (on_session k f m) = m_revisions m"
  "(map_of (m_sessions (on_session k f m)) ch = None) = (map_of (m_sessions m) ch = None)"
  by (simp_all add: on_session_def Let_def map_of_eq_None_iff case_prod_beta' image_image)

lemma stop_retired_kept:
  assumes "stop_retired e p w = (r, w')"
  shows "sw_epg w' = sw_epg w" "retired_world p (sw_live w')"
  using assms
  by (auto simp: stop_retired_def stop_and_wait_def retired_world_def on_session_kept split: prod.splits sum.splits option.splits)

lemma retired_gone: "retire_session ch m = (s, m') \<Longrightarrow> map_of (m_sessions m') ch = None"
  by (auto simp: retire_session_def adel_def map_of_eq_None_iff split: option.splits)

lemma publish_done:
  assumes "live_publish e ch iv w = (r, w')" "ch_id ch \<noteq> []"
  shows "sw_epg w' = sw_epg w" "ch_id ch \<notin> set (m_blocked (sw_live w'))"
    "\<not> stale_revision (ch_id ch) (stream_source roll ch) (sw_live w')"
    "iv \<Longrightarrow> map_of (m_sessions (sw_live w')) (ch_id ch) = None"
proof -
  obtain p where p: "publish_channel (ch_id ch) (ch_updated ch) iv (sw_live w) = p" by simp
  then have s: "stop_retired e p w = (r, w')" using assms(1) by (simp add: live_publish_def)
  note kept = stop_retired_kept [OF s]
  show "sw_epg w' = sw_epg w" by (rule kept)
  obtain s m where m: "p = (Inr s, m)"
    using p assms(2) by (auto simp: publish_channel_def Let_def split: prod.splits if_splits)
  have "m_blocked m = filter (\<lambda>c. c \<noteq> ch_id ch) (m_blocked (sw_live w)) \<and>
      (ch_updated ch \<noteq> [] \<longrightarrow> map_of (m_revisions m) (ch_id ch) = Some (ch_updated ch)) \<and>
      (iv \<longrightarrow> map_of (m_sessions m) (ch_id ch) = None)"
    using p m assms(2) retired_gone
    by (auto simp: publish_channel_def retire_session_def Let_def split: prod.splits if_splits option.splits)
  with kept(2) m show "ch_id ch \<notin> set (m_blocked (sw_live w'))"
    "\<not> stale_revision (ch_id ch) (stream_source roll ch) (sw_live w')"
    "iv \<Longrightarrow> map_of (m_sessions (sw_live w')) (ch_id ch) = None"
    by (auto simp: retired_world_def stale_revision_def stream_source_def Let_def split: option.splits)
qed

lemma block_done:
  assumes "live_block e i w = (r, w')" "i \<noteq> []"
  shows "sw_epg w' = sw_epg w" "i \<in> set (m_blocked (sw_live w'))"
proof -
  obtain p where p: "block_channel i (sw_live w) = p" by simp
  then have s: "stop_retired e p w = (r, w')" using assms(1) by (simp add: live_block_def)
  note kept = stop_retired_kept [OF s]
  show "sw_epg w' = sw_epg w" by (rule kept)
  have "i \<in> set (m_blocked (snd p))"
    using p assms(2) by (auto simp: block_channel_def retire_session_def Let_def split: prod.splits option.splits)
  then show "i \<in> set (m_blocked (sw_live w'))" using kept(2) by (simp add: retired_world_def)
qed

section \<open>The store's part\<close>

lemma get_channel_id:
  assumes "get_channel i d = (Inr ch, d')"
  shows "ch_id ch = trim_space i" "ch_id ch \<noteq> []" "d' = d"
  using assms
  by (auto simp: get_channel_def failD_def attach_channel_upstreams_def scan_channel_def Let_def find_Some_iff
      split: if_splits option.splits)

lemma update_channel_reads: "update_channel uuid now i inp d = (Inr ch, d') \<Longrightarrow> get_channel i d' = (Inr ch, d')"
proof -
  assume "update_channel uuid now i inp d = (Inr ch, d')"
  then obtain d1 where d1: "get_channel i d1 = (Inr ch, d')"
    by (auto simp: update_channel_def bindD_Inr split: prod.splits)
  moreover have "d' = d1" using get_channel_id(3) [OF d1] .
  ultimately show ?thesis by simp
qed

lemma wf_update_channel_result:
  assumes "wf_update_channel e v i inp g = (Inr (before, ch), g')"
  shows "get_channel i (g_db g) = (Inr before, g_db g)" "get_channel i (g_db g') = (Inr ch, g_db g')"
proof -
  obtain b d1 where b: "get_channel i (g_db g) = (Inr b, d1)"
    using assms by (auto simp: wf_update_channel_def then_do_def on_db_def split: prod.splits sum.splits)
  have d1: "d1 = g_db g" using get_channel_id(3) [OF b] .
  obtain a d2 where a: "update_channel (v_uuid v) (ev_stamp e (g_now g)) i inp (g_db g) = (Inr a, d2)"
    using assms b d1 by (auto simp: wf_update_channel_def then_do_def on_db_def split: prod.splits sum.splits)
  have g': "b = before" "a = ch" "g' = enqueue_channel_epg_rebuild e before ch (g\<lparr>g_db := d2\<rparr>)"
    using assms a b d1 by (auto simp: wf_update_channel_def then_do_def on_db_def)
  have "epg_goes (\<lambda>d. d = d2) (g\<lparr>g_db := d2\<rparr>) g'"
    unfolding g' enqueue_channel_epg_rebuild_def by (simp add: epg_goes_refl derived_goes)
  then have "g_db g' = d2" by (simp add: epg_goes_def)
  then show "get_channel i (g_db g) = (Inr before, g_db g)" "get_channel i (g_db g') = (Inr ch, g_db g')"
    using b d1 g' update_channel_reads [OF a] by simp_all
qed

lemma delete_channel_gone: "delete_channel i d = (Inr u, d') \<Longrightarrow> trim_space i = i \<Longrightarrow> fst (get_channel i d') = Inl ErrNotFound"
  by (auto simp: delete_channel_def bindD_Inr stmt_rows_def run_stmt_def guardD_def queryD_def okD_def failD_def get_channel_def
      del_channels_def delete_where_def find_None_iff find_Some_iff Let_def dest: nth_mem split: if_splits option.splits)

section \<open>Properties\<close>

text \<open>What a handler answers after a saved channel, and after a deleted one.\<close>

lemma update_cases:
  assumes "handle_update_channel e raw (Inr inp) w = (rep, w')" "rp_status rep = 200 \<or> rp_status rep = 504"
  obtains before ch g r where "wf_update_channel (se_epg e) (se_store e) (trim_space raw) inp (sw_epg w) = (Inr (before, ch), g)"
    "live_publish e ch (channel_relay_invalidate before ch) (w\<lparr>sw_epg := g\<rparr>) = (r, w')"
    "r = None \<longleftrightarrow> rp_status rep = 200" "r = None \<Longrightarrow> rep = json 200 (ChannelBody ch)"
proof -
  have "rp_status (store_error err) \<noteq> 200 \<and> rp_status (store_error err) \<noteq> 504" for err
    by (cases err) (auto simp: error_reply_def json_def)
  then have refused: "rp_status (workflow_error err) \<noteq> 200 \<and> rp_status (workflow_error err) \<noteq> 504" for err
    by (cases err) (auto simp: error_reply_def json_def)
  show thesis
    using assms that refused
    by (auto simp: handle_update_channel_def need_def or_reply_def path_uuid_def bad_request_def error_reply_def json_def
        answer_def on_epg_def live_update_timeout_def Let_def split: if_splits prod.splits sum.splits option.splits)
qed

lemma delete_cases:
  assumes "handle_delete_channel e raw w = (rep, w')" "rp_status rep = 204 \<or> rp_status rep = 504"
  obtains g d r where "v_uuid_ok (se_store e) (trim_space raw)" "delete_channel (trim_space raw) (g_db (sw_epg w)) = (Inr (), d)"
    "live_block e (trim_space raw) (w\<lparr>sw_epg := (sw_epg w)\<lparr>g_db := d\<rparr>\<rparr>) = (r, w')"
proof -
  have refused: "rp_status (store_error err) \<noteq> 204 \<and> rp_status (store_error err) \<noteq> 504" for err
    by (cases err) (auto simp: error_reply_def json_def)
  show thesis
    using assms that refused
    by (auto simp: handle_delete_channel_def need_def or_reply_def path_uuid_def bad_request_def error_reply_def json_def
        on_store_def on_db_def on_epg_def Let_def split: if_splits prod.splits sum.splits option.splits)
qed

text \<open>C4: after a channel is saved - the reply is the saved channel, or that the old session did not end in
  time - the channel in the database is neither blocked nor of a stale revision for its viewers, and when
  the update changed where the stream comes from, the session that plays the old stream has left the
  manager.\<close>

theorem updated_channel_is_served:
  assumes "handle_update_channel e raw (Inr inp) w = (rep, w')" "rp_status rep = 200 \<or> rp_status rep = 504"
  shows "\<exists>before ch. fst (get_channel (trim_space raw) (database w)) = Inr before \<and>
    fst (get_channel (trim_space raw) (database w')) = Inr ch \<and> ch_id ch = trim_space raw \<and>
    ch_id ch \<notin> set (m_blocked (sw_live w')) \<and> \<not> stale_revision (ch_id ch) (stream_source roll ch) (sw_live w') \<and>
    (channel_relay_invalidate before ch \<longrightarrow> map_of (m_sessions (sw_live w')) (ch_id ch) = None) \<and>
    (rp_status rep = 200 \<longrightarrow> rp_body rep = ChannelBody ch)"
proof -
  from update_cases [OF assms] obtain before ch g r where u:
    "wf_update_channel (se_epg e) (se_store e) (trim_space raw) inp (sw_epg w) = (Inr (before, ch), g)"
    "live_publish e ch (channel_relay_invalidate before ch) (w\<lparr>sw_epg := g\<rparr>) = (r, w')"
    "r = None \<longleftrightarrow> rp_status rep = 200" "r = None \<Longrightarrow> rep = json 200 (ChannelBody ch)" by metis
  note got = wf_update_channel_result [OF u(1)]
  note ids = get_channel_id [OF got(2)]
  note pub = publish_done [OF u(2) ids(2)]
  show ?thesis
    using got ids pub u(3,4) by (intro exI [of _ before] exI [of _ ch]) (auto simp: database_def json_def)
qed

text \<open>C3: a deleted channel is closed for good: it is in the database no more, no session of it is left in
  the manager, a viewer who still holds its address gets not found, and no subscription of it is accepted,
  also when the last session did not end in time.\<close>

theorem deleted_channel_is_closed:
  assumes "server_reachable w" "\<not> v_uuid_ok (se_store e) []"
    and "handle_delete_channel e raw w = (rep, w')" "rp_status rep = 204 \<or> rp_status rep = 504"
  shows "fst (get_channel (trim_space raw) (database w')) = Inl ErrNotFound \<and>
    map_of (m_sessions (sw_live w')) (trim_space raw) = None \<and>
    rp_status (fst (handle_channel_stream e others raw w')) = 404 \<and>
    (\<forall>roll src sub. fst (subscribe roll (trim_space raw) src (sw_live w')) \<noteq> Inr sub)"
proof -
  let ?i = "trim_space raw"
  from delete_cases [OF assms(3,4)] obtain d r where u: "v_uuid_ok (se_store e) ?i"
    "delete_channel ?i (g_db (sw_epg w)) = (Inr (), d)" "live_block e ?i (w\<lparr>sw_epg := (sw_epg w)\<lparr>g_db := d\<rparr>\<rparr>) = (r, w')"
    by metis
  have i: "?i \<noteq> []" using u(1) assms(2) by metis
  note blocked = block_done [OF u(3) i]
  have gone: "fst (get_channel ?i (database w')) = Inl ErrNotFound"
    using delete_channel_gone [OF u(2)] blocked(1) by (simp add: database_def)
  moreover have "server_step w w'"
    by (rule server_step.request [of e undefined "RemoveChannel raw"]) (use assms(3) in simp)
  then have "reachable (sw_live w')"
    using tables.server_keeps [OF schema_empty server_reachable.step [OF assms(1)]] by blast
  then have "map_of (m_sessions (sw_live w')) ?i = None" using minvD(7) [OF minv_reachable] blocked(2) by blast
  moreover have "fst (subscribe roll ?i src (sw_live w')) \<noteq> Inr sub" for roll src sub
    using blocked(2) i by (auto simp: subscribe_def Let_def split: option.split)
  moreover have "rp_status (fst (handle_channel_stream e others raw w')) = 404"
    using gone u(1)
    by (auto simp: handle_channel_stream_def need_def or_reply_def path_uuid_def on_store_def on_db_def on_epg_def
        database_def json_def Let_def split: prod.split sum.split)
  ultimately show ?thesis by blast
qed

text \<open>The first channel of the sample server gets another address, and is deleted.\<close>

lemma sample_update:
  "rp_status (fst (handle_update_channel sample_server ''u'' (Inr (sample_channel ''http://h/2'')) (snd sample_reply))) = 200"
  by code_simp

lemma sample_trim: "trim_space ''u'' = ''u''"
  by code_simp

theorem updated_channel_is_served_witness:
  "fst (get_channel ''u'' (database (snd (handle_update_channel sample_server ''u''
     (Inr (sample_channel ''http://h/2'')) (snd sample_reply))))) \<noteq> Inl ErrNotFound"
  using updated_channel_is_served [OF prod.collapse [symmetric] disjI1 [OF sample_update], of "\<lambda>_. 0"]
  by (auto simp: sample_trim)

lemma sample_delete: "rp_status (fst (handle_delete_channel sample_server ''u'' (snd sample_reply))) = 204"
  by code_simp

theorem deleted_channel_is_closed_witness:
  "rp_status (fst (handle_channel_stream sample_server (\<lambda>_ w. w) ''u''
     (snd (handle_delete_channel sample_server ''u'' (snd sample_reply))))) = 404"
proof -
  have "\<not> v_uuid_ok (se_store sample_server) []" by (simp add: sample_server_def sample_env_def)
  then show ?thesis
    using deleted_channel_is_closed [OF sample_reachable _ prod.collapse [symmetric] disjI1 [OF sample_delete]] by blast
qed

end
