(* ===== verification/HttpShutdown.thy ===== *)
theory HttpShutdown
  imports HttpSafety
begin

text \<open>
  The end of the server: what \<^verbatim>\<open>main\<close> leaves behind after a signal.
\<close>

section \<open>The admission stays closed\<close>

definition same_admission :: "epg_world \<Rightarrow> epg_world \<Rightarrow> bool" where
  "same_admission g g' \<longleftrightarrow> g_open g' = g_open g \<and> g_held g' = g_held g"

lemma admission_on_db: "same_admission g (snd (on_db m g))"
  by (simp add: same_admission_def on_db_def split: prod.split)

lemma admission_slug: "same_admission g (snd (cleanup_slug e r s g))"
proof -
  obtain x g1 where 1: "on_db (get_relay_by_slug (trim_space s)) g = (x, g1)" by fastforce
  then show ?thesis using on_db_read_eq(3) [OF 1]
    by (auto simp: cleanup_slug_def Let_def same_admission_def split: sum.split store_err.split)
qed

lemma admission_taken: "same_admission g (snd (take_pending e k g))" "same_admission g (snd (take_cleanup_ready e g))"
  by (auto simp: same_admission_def take_pending_def take_cleanup_ready_def tick_def Let_def split: work_kind.split prod.split)

interpretation admission: epg_drain_frame same_admission
proof unfold_locales
  show "same_admission w w1 \<Longrightarrow> same_admission w1 w2 \<Longrightarrow> same_admission w w2" for w w1 w2
    by (simp add: same_admission_def)
  show "same_admission w (snd (on_db (mark_epg_refresh i t m n) w))" for w i t m n by (rule admission_on_db)
  show "same_admission w (snd (on_db (mark_epg_refresh_error i m n) w))" for w i m n by (rule admission_on_db)
  show "same_admission w (snd (cleanup_slug e relay s w))" for w e relay s by (rule admission_slug)
  show "same_admission w (snd (take_pending e k w))" for w e k by (rule admission_taken)
  show "same_admission w (snd (take_cleanup_ready e w))" for w e by (rule admission_taken)
qed (auto simp: same_admission_def files_only_def write_relay_cache_def defer_cleanup_def split: prod.split)

lemma close_epg_result:
  "\<not> g_open (close_epg e g)" "g_held (close_epg e g) = g_held g" "settled (close_epg e g)"
proof -
  define g1 where "g1 = close_admission g"
  define g2 where "g2 = (if g_held g1 = 0 then snd (drain_pending e g1) else snd (drain e True (wake_worker g1)))"
  have c: "close_epg e g = snd (drain e False g2)"
    by (simp add: close_epg_def loop_step_def Let_def flip: g1_def g2_def)
  have "same_admission (wake_worker g1) (snd (drain e b (wake_worker g1)))" for b by (rule admission.drain_frame)
  then have "same_admission g1 g2"
    by (simp add: g2_def drain_pending_def) (simp add: same_admission_def wake_worker_def)
  moreover have "same_admission g2 (close_epg e g)" unfolding c by (rule admission.drain_frame)
  moreover have "\<not> g_open g1" "g_held g1 = g_held g" by (simp_all add: g1_def close_admission_def)
  ultimately show "\<not> g_open (close_epg e g)" "g_held (close_epg e g) = g_held g" by (simp_all add: same_admission_def)
  show "settled (close_epg e g)" unfolding c by (rule drained_settled)
qed

section \<open>The sessions are gone\<close>

lemma stops_empty:
  "m_sessions m = [] \<Longrightarrow> m_sessions (fold (\<lambda>s. on_session (session_key s) stop) ss m) = []"
  by (induction ss arbitrary: m) (simp_all add: on_session_def Let_def)

lemma stops_closed: "m_closed (fold (\<lambda>s. on_session (session_key s) stop) ss m) = m_closed m"
  by (induction ss arbitrary: m) (simp_all add: on_session_def Let_def)

lemma retire_all_closed: "retire_all chs m = (r, m') \<Longrightarrow> m_closed m' = m_closed m"
proof (induction chs arbitrary: m r m')
  case (Cons ch chs)
  obtain s m1 where s: "retire_session ch m = (s, m1)" by fastforce
  obtain ss m2 where ss: "retire_all chs m1 = (ss, m2)" by fastforce
  have "m_closed m1 = m_closed m" using s by (auto simp: retire_session_def detach_def split: option.splits)
  then show ?case using Cons s ss by simp
qed simp

lemma close_live_result:
  "m_sessions (sw_live (close_live e w)) = []" "m_closed (sw_live (close_live e w))" "sw_epg (close_live e w) = sw_epg w"
proof -
  obtain ss m where m: "close_manager (sw_live w) = (ss, m)" by fastforce
  then have r: "retire_all (map fst (m_sessions (sw_live w))) ((sw_live w)\<lparr>m_closed := True\<rparr>) = (ss, m)"
    by (simp add: close_manager_def)
  have "m_sessions m = []"
    using retire_all_sessions [OF r] by (auto simp: filter_empty_conv image_iff)
  moreover have "m_closed m" using retire_all_closed [OF r] by simp
  ultimately show "m_sessions (sw_live (close_live e w)) = []" "m_closed (sw_live (close_live e w))"
    "sw_epg (close_live e w) = sw_epg w"
    by (simp_all add: close_live_def m stop_and_wait_def stops_empty stops_closed)
qed

lemma closed_refuses: "m_closed m \<Longrightarrow> fst (subscribe roll ch src m) \<noteq> Inr sub"
  by (auto simp: subscribe_def Let_def split: option.split)

section \<open>Property\<close>



end
