(* ===== verification/Spec2Isabelle.thy ===== *)
theory Spec2Isabelle
  imports Natsort Manager Delivery PumpKinds StoreHistory StoreMigrate RelayPlaylist ChannelTxt Config EpgLive EpgRelay Workflows HttpLive HttpShutdown
begin

text \<open>
  The verification library of tvr, an IPTV relay server written in Go.

  \<^bold>\<open>The program.\<close>  tvr keeps a library in SQLite: channels with their upstream addresses, proxies, guide sources
  (XMLTV) and relays, which are numbered lineups of channels.  A relay is published as an M3U playlist and an
  XMLTV guide.  The stream of a channel is fetched once for all its viewers by a live session, straight or
  through ffmpeg.  A worker refreshes the guide sources and rebuilds the guides of the relays when the library
  changes.  The HTTP server ties these together.

  \<^bold>\<open>Theories and sources\<close> (under \<^verbatim>\<open>src/\<close>; each theory opens with its own account):
  \<^item> \<open>Prelude\<close>: results as sums, Go's \<^verbatim>\<open>strings\<close> and \<^verbatim>\<open>strconv\<close> functions, association maps.  \<open>GoUrl\<close>: \<^verbatim>\<open>net/url\<close>.
  \<^item> \<open>Natsort\<close>: \<^verbatim>\<open>internal/utils\<close>.  \<open>Config\<close>: \<^verbatim>\<open>internal/config\<close>.  \<open>Version\<close>: \<^verbatim>\<open>internal/version\<close>.
  \<^item> \<open>Mpegts\<close>: \<^verbatim>\<open>internal/core/mpegts\<close>.  \<open>Upstream\<close>, \<open>Transcode\<close>: \<^verbatim>\<open>internal/core/upstream\<close>, \<^verbatim>\<open>transcode\<close>.
  \<^item> \<open>Session\<close>, \<open>Pump\<close>, \<open>PumpKinds\<close>, \<open>Hls\<close>, \<open>Manager\<close>: \<^verbatim>\<open>session.go\<close>, \<^verbatim>\<open>pump.go\<close> with \<^verbatim>\<open>copy.go\<close>, \<^verbatim>\<open>pump_transcode.go\<close>,
    \<^verbatim>\<open>hls.go\<close>, \<^verbatim>\<open>manager.go\<close> of \<^verbatim>\<open>internal/core/stream\<close>.  \<open>Delivery\<close>: what a viewer receives.
  \<^item> \<open>StoreModel\<close>: the tables, constraints, statements and transactions of \<^verbatim>\<open>internal/core/store\<close>.  \<open>StoreProxies\<close>,
    \<open>StoreChannels\<close>, \<open>StoreRelays\<close>, \<open>StoreEpg\<close>, \<open>StoreSettings\<close>, \<open>StoreImport\<close>, \<open>StoreBackup\<close>, \<open>StoreProxyUpdate\<close>: its operations.
    \<open>StoreMigrate\<close>: \<^verbatim>\<open>Open\<close> on files of earlier releases.  \<open>StoreApi\<close>: all writing operations as one transition \<open>exec\<close>.  \<open>StoreLineup\<close>, \<open>StoreLayout\<close>, \<open>StoreFrames\<close>,
    \<open>StoreInvariant\<close>, \<open>StoreAtomic\<close>, \<open>StoreHistory\<close>: their facts.
  \<^item> \<open>M3u\<close>: \<^verbatim>\<open>internal/core/m3u\<close>.  \<open>ChannelTxt\<close>: \<^verbatim>\<open>internal/core/channeltxt\<close>.  \<open>RelayPlaylist\<close>: the playlist of a relay.
  \<^item> \<open>EpgTime\<close>, \<open>EpgGuide\<close>, \<open>GuideQuery\<close>, \<open>Charset\<close>: documents and pages of \<^verbatim>\<open>internal/core/epg\<close>; \<open>EpgFiles\<close>: its files;
    \<open>EpgWorker\<close>, \<open>EpgBuild\<close>, \<open>EpgDrain\<close>: its worker; \<open>EpgFrames\<close>, \<open>EpgLive\<close>, \<open>EpgRelay\<close>: their facts.
  \<^item> \<open>Workflows\<close>: \<^verbatim>\<open>internal/core/workflows\<close>, the mutations of the library with the guide work they queue.
  \<^item> \<open>HttpModel\<close>, \<open>HttpChannels\<close>, \<open>HttpLibrary\<close>, \<open>HttpImport\<close>, \<open>HttpSettings\<close>: the handlers of \<^verbatim>\<open>internal/httpapi\<close>.  \<open>HttpServe\<close>:
    the routes, the start and the shutdown of \<^verbatim>\<open>cmd/tvr/main.go\<close>, the steps of the running server.
    \<open>ServerInvariant\<close>, \<open>HttpSafety\<close>, \<open>HttpLive\<close>, \<open>HttpShutdown\<close>: their facts.

  \<^bold>\<open>How the parts interact.\<close>  A handler (\<open>handler\<close>) is a function of the request and of the state \<open>server_world\<close>:
  the guide service with the database (\<open>epg_world\<close>, \<open>db\<close>), the session manager (\<open>manager\<close>) and the icon's files.
  It calls the store (\<open>on_store\<close>), a workflow or the guide service (\<open>on_epg\<close>), and then publishes to the manager
  (\<open>live_publish\<close>, \<open>live_block\<close>, \<open>live_profile\<close>).  \<open>server_step\<close> interleaves requests, turns of the worker, steps of the
  sessions, the clock and the shutdown; \<open>server_reachable\<close> adds restarts on the last database.

  \<^bold>\<open>Interfaces.\<close>  \<open>db_invariant\<close> and \<open>db_view\<close> (\<open>StoreModel\<close>, \<open>StoreFrames\<close>): what the operations of the store keep and
  leave alone, interpreted on the schema, the lineups, the mappings and the ids.  \<open>epg_frame\<close>,
  \<open>epg_refresh_frame\<close>, \<open>epg_cache_frame\<close> and \<open>epg_drain_frame\<close>: a relation that holds of the small steps of the worker
  holds of a whole drain, interpreted for its termination, the live guides and the admission.
  \<open>server_invariant\<close>: an invariant of the database goes through every handler, interpreted on the schema and the
  mappings.  \<open>epg_drain_frame\<close> is a sublocale of it.

  \<^bold>\<open>What is shown.\<close>  Texts and bytes: the natural order, framing and delivery of packets, the round trips of
  playlists and guides, the parsers' results on every input.  Live sessions: failover, readiness, admission, the
  manager's invariant over all its steps.  The store: schema, mappings and lineups over all histories of
  operations, no change by a failed one, layouts against an abstract lineup, files of earlier releases.  Guides: a drain ends, spares
  the guides of live relays, and a relay's guide is exactly the mapped part of its sources.  The server: all
  of this over any run of requests, worker and sessions; what an update, a delete and the shutdown leave behind.

  \<^bold>\<open>Bounds and time.\<close>  Loops that end are total functions, with measures where they are not structural (\<open>drain\<close>:
  pending work and ready cleanups).  A session's loop is a list of events or a number of turns that the
  statement names, so no fuel is chosen; where a loop does not end, a theorem says so.  Times are integers of
  nanoseconds, packets lists of bytes (\<open>8 word\<close>), Go's \<^verbatim>\<open>int\<close> an integer where the code bounds it.

  \<^bold>\<open>Assumed.\<close>  SQLite: statements check \<open>constraints\<close> and the foreign keys, a transaction is rolled back as a whole.
  The arguments of the environment stand for code that is not in the repository: random numbers and UUIDs,
  \<^verbatim>\<open>unicode.ToLower\<close>, \<^verbatim>\<open>time.ParseDuration\<close>, \<^verbatim>\<open>encoding/xml\<close> (its tokens), gzip, image formats, other servers, the file
  system.  A JSON body is its decoded value.  Strings are bytes of UTF-8.

  \<^bold>\<open>Not modelled.\<close>  Goroutines below the level of whole requests, worker turns and session steps; the
  loggers' output; \<^verbatim>\<open>static/fs.go\<close> with the embedded pages
  and \<^verbatim>\<open>mountStatic\<close> (a file server of the library); \<^verbatim>\<open>process_other.go\<close>, which is not in the unix build; HTTP headers
  other than those a result depends on; JavaScript and CSS.
\<close>

end
